(* ===== verification/Prelude.thy ===== *)
theory Prelude
  imports Main "HOL-Library.Word"
begin

text \<open>
  Shared vocabulary of the development: the machine-integer types of the C and C++ sources,
  C's conversions between them, little-endian byte access (the \<open>value |= byte << (8 * i)\<close>
  loops that occur in the emulator's DRAM and block device and that the kernel performs
  implicitly whenever it reads a struct out of a sector buffer or a page), linear searches
  over fixed tables, and the interface of a byte-addressed store, which the emulator's
  memories and the kernel's buffers provide.
\<close>

unbundle bit_operations_syntax

section \<open>Machine integers\<close>

type_synonym u8 = "8 word"
type_synonym u16 = "16 word"
type_synonym u32 = "32 word"
type_synonym u64 = "64 word"

named_theorems le_simps \<open>little-endian access, bit by bit\<close>
named_theorems loop_simps \<open>bounded search and copy loops\<close>

text \<open>
  Conversion of an integer value to C's 32-bit \<open>int\<close> (two's complement, as the target's
  compiler does it) and to its unsigned counterparts.
\<close>

definition to_i32 :: "int \<Rightarrow> int" where
  "to_i32 x = signed_take_bit 31 x"

lemma to_i32_small [simp]: "- (2 ^ 31) \<le> x \<Longrightarrow> x < 2 ^ 31 \<Longrightarrow> to_i32 x = x"
  unfolding to_i32_def by (rule signed_take_bit_int_eq_self) auto

lemma to_i32_range: "- (2 ^ 31) \<le> to_i32 x \<and> to_i32 x < 2 ^ 31"
  unfolding to_i32_def
  using signed_take_bit_int_greater_eq_minus_exp [of 31 x] signed_take_bit_int_less_exp [of 31 x]
  by simp

section \<open>Little-endian access\<close>

text \<open>\<open>le_byte v i\<close> is byte \<open>i\<close> of \<open>v\<close>: \<^verbatim>\<open>(value >> (i * 8)) & 0xFF\<close>.\<close>

definition le_byte :: "u64 \<Rightarrow> nat \<Rightarrow> u8" where
  "le_byte v i = ucast (drop_bit (8 * i) v AND 0xFF)"

text \<open>\<open>le_load n f\<close> assembles the \<open>n\<close> bytes \<open>f 0, \<dots>, f (n - 1)\<close>.\<close>

definition le_load :: "nat \<Rightarrow> (nat \<Rightarrow> u8) \<Rightarrow> u64" where
  "le_load n f = fold (\<lambda>i v. v OR push_bit (8 * i) (ucast (f i))) [0..<n] 0"

lemma bit_0xFF [simp]: "bit (0xFF :: 'a::len word) k \<longleftrightarrow> k < 8 \<and> k < LENGTH('a)"
proof -
  have m: "(0xFF :: 'a word) = mask 8" by (simp add: mask_eq_exp_minus_1)
  show ?thesis unfolding m by (auto simp: bit_simps)
qed

lemma bit_le_byte [le_simps]: "bit (le_byte v i) k \<longleftrightarrow> k < 8 \<and> bit v (8 * i + k)"
proof -
  have m: "(0xFF :: u64) = mask 8" by (simp add: mask_eq_exp_minus_1)
  show ?thesis
    unfolding le_byte_def m by (auto simp: bit_simps dest: bit_imp_le_length)
qed

lemma le_load_0 [simp]: "le_load 0 f = 0"
  by (simp add: le_load_def)

lemma le_load_Suc: "le_load (Suc n) f = le_load n f OR push_bit (8 * n) (ucast (f n))"
  by (simp add: le_load_def)

lemma bit_le_load [le_simps]:
  "bit (le_load n f) k \<longleftrightarrow> k < 64 \<and> k < 8 * n \<and> bit (f (k div 8)) (k mod 8)"
proof (induction n)
  case 0
  then show ?case by simp
next
  case (Suc n)
  have new: "bit (push_bit (8 * n) (ucast (f n)) :: u64) k \<longleftrightarrow>
      k < 64 \<and> 8 * n \<le> k \<and> k < 8 * n + 8 \<and> bit (f (k div 8)) (k mod 8)"
  proof (cases "8 * n \<le> k \<and> k < 8 * n + 8")
    case True
    then have "k div 8 = n" by auto
    moreover from this have "k mod 8 = k - 8 * n" by (simp flip: minus_mult_div_eq_mod)
    ultimately
    show ?thesis using True by (auto simp: bit_simps)
  next
    case False
    then show ?thesis by (auto simp: bit_simps dest: bit_imp_le_length)
  qed
  show ?case unfolding le_load_Suc bit_or_iff Suc new by auto
qed

lemma le_load_cong [cong]:
  "n = m \<Longrightarrow> (\<And>i. i < m \<Longrightarrow> f i = g i) \<Longrightarrow> le_load n f = le_load m g"
  unfolding le_load_def by (rule List.fold_cong) auto

text \<open>Reading back what was written gives the value, truncated to the width of the access.\<close>

lemma le_load_le_byte: "le_load n (le_byte v) = take_bit (8 * n) v"
proof (rule bit_word_eqI)
  fix k
  assume "k < LENGTH(64)"
  have "8 * (k div 8) + k mod 8 = k" by simp
  then show "bit (le_load n (le_byte v)) k = bit (take_bit (8 * n) v) k"
    using \<open>k < LENGTH(64)\<close> by (auto simp: bit_le_load bit_le_byte bit_take_bit_iff)
qed

lemma le_load_8_le_byte [simp]: "le_load 8 (le_byte v) = v"
  by (rule bit_word_eqI) (simp add: le_simps bit_take_bit_iff)

lemma le_byte_le_load: "i < n \<Longrightarrow> n \<le> 8 \<Longrightarrow> le_byte (le_load n f) i = f i"
  by (rule bit_word_eqI) (auto simp: le_simps)

lemma le_load_bound: "n \<le> 8 \<Longrightarrow> take_bit (8 * n) (le_load n f) = le_load n f"
  by (rule bit_word_eqI) (auto simp: le_simps bit_take_bit_iff)

text \<open>
  \<open>le_store put n off v s\<close> writes the \<open>n\<close> low bytes of \<open>v\<close> one after the other
  through \<open>put\<close>, as the store loops of the sources do.
\<close>

definition le_store :: "('s \<Rightarrow> 'a \<Rightarrow> u8 \<Rightarrow> 's) \<Rightarrow> nat \<Rightarrow> (nat \<Rightarrow> 'a) \<Rightarrow> u64 \<Rightarrow> 's \<Rightarrow> 's" where
  "le_store put n adr v s = fold (\<lambda>i s. put s (adr i) (le_byte v i)) [0..<n] s"

lemma le_store_0 [simp]: "le_store put 0 adr v s = s"
  by (simp add: le_store_def)

lemma le_store_Suc: "le_store put (Suc n) adr v s = put (le_store put n adr v s) (adr n) (le_byte v n)"
  by (simp add: le_store_def)

section \<open>The interface of a byte-addressed store\<close>

text \<open>
  A store of bytes under addresses of type \<open>'a\<close>: a byte written at a valid address is the
  byte read there, and no other address changes. The emulator's DRAM vector, the block
  device's data window and the kernel's view of physical memory are instances.
\<close>

locale byte_store =
  fixes get :: "'s \<Rightarrow> 'a \<Rightarrow> u8"
    and put :: "'s \<Rightarrow> 'a \<Rightarrow> u8 \<Rightarrow> 's"
    and valid :: "'s \<Rightarrow> 'a \<Rightarrow> bool"
  assumes get_put_same: "valid s a \<Longrightarrow> get (put s a b) a = b"
    and get_put_other: "a \<noteq> a' \<Longrightarrow> get (put s a b) a' = get s a'"
    and valid_put: "valid (put s a b) a' = valid s a'"
begin

lemma valid_le_store: "valid (le_store put n adr v s) a = valid s a"
  by (induction n) (simp_all add: le_store_Suc valid_put)

lemma get_le_store_other: "a \<notin> adr ` {..<n} \<Longrightarrow> get (le_store put n adr v s) a = get s a"
  by (induction n) (auto simp: le_store_Suc get_put_other lessThan_Suc)

lemma get_le_store_same:
  assumes "i < n" and "inj_on adr {..<n}" and "\<And>j. j < n \<Longrightarrow> valid s (adr j)"
  shows "get (le_store put n adr v s) (adr i) = le_byte v i"
  using assms
proof (induction n)
  case 0
  then show ?case by simp
next
  case (Suc n)
  show ?case
  proof (cases "i = n")
    case True
    with Suc.prems show ?thesis by (simp add: le_store_Suc get_put_same valid_le_store)
  next
    case False
    with Suc.prems have "adr n \<noteq> adr i" by (auto simp: inj_on_def)
    moreover from False Suc have "get (le_store put n adr v s) (adr i) = le_byte v i"
      by (auto simp: inj_on_def)
    ultimately show ?thesis by (simp add: le_store_Suc get_put_other)
  qed
qed

text \<open>A value stored and loaded again at the same width comes back, cut to that width.\<close>

lemma load_store:
  assumes "inj_on adr {..<n}" and "\<And>j. j < n \<Longrightarrow> valid s (adr j)"
  shows "le_load n (\<lambda>i. get (le_store put n adr v s) (adr i)) = take_bit (8 * n) v"
proof -
  have "le_load n (\<lambda>i. get (le_store put n adr v s) (adr i)) = le_load n (le_byte v)"
    by (rule le_load_cong) (auto simp: get_le_store_same assms)
  then show ?thesis by (simp add: le_load_le_byte)
qed

lemma load_store_other:
  assumes "adr ` {..<m} \<inter> adr' ` {..<n} = {}"
  shows "le_load n (\<lambda>i. get (le_store put m adr v s) (adr' i)) = le_load n (\<lambda>i. get s (adr' i))"
  by (rule le_load_cong) (use assms in \<open>auto intro!: get_le_store_other\<close>)

end

section \<open>Searching a fixed table\<close>

text \<open>
  The loop \<^verbatim>\<open>for (i = a; i < b; i++) if (P(i)) return i;\<close> is \<open>find P [a..<b]\<close>: the least index
  of the range that satisfies the test.
\<close>

lemma find_upt_Some [loop_simps]:
  "List.find P [a..<b] = Some i \<longleftrightarrow> a \<le> i \<and> i < b \<and> P i \<and> (\<forall>j. a \<le> j \<and> j < i \<longrightarrow> \<not> P j)"
proof -
  have "List.find P [a..<b] = Some i \<longleftrightarrow>
      (\<exists>k < b - a. P (a + k) \<and> i = a + k \<and> (\<forall>j < k. \<not> P (a + j)))"
    by (auto simp: find_Some_iff)
  also have "\<dots> \<longleftrightarrow> a \<le> i \<and> i < b \<and> P i \<and> (\<forall>j. a \<le> j \<and> j < i \<longrightarrow> \<not> P j)"
  proof (intro iffI; elim exE conjE)
    fix k
    assume k: "k < b - a" "P (a + k)" "i = a + k" and m: "\<forall>j<k. \<not> P (a + j)"
    have "\<not> P j" if "a \<le> j" "j < a + k" for j
      using m [rule_format, of "j - a"] that by auto
    with k show "a \<le> i \<and> i < b \<and> P i \<and> (\<forall>j. a \<le> j \<and> j < i \<longrightarrow> \<not> P j)" by auto
  next
    assume "a \<le> i" "i < b" "P i" "\<forall>j. a \<le> j \<and> j < i \<longrightarrow> \<not> P j"
    then show "\<exists>k<b - a. P (a + k) \<and> i = a + k \<and> (\<forall>j<k. \<not> P (a + j))"
      by (intro exI [of _ "i - a"]) auto
  qed
  finally show ?thesis .
qed

lemma find_upt_None [loop_simps]:
  "List.find P [a..<b] = None \<longleftrightarrow> (\<forall>i. a \<le> i \<and> i < b \<longrightarrow> \<not> P i)"
  by (auto simp: find_None_iff)

text \<open>
  The same loop over a whole table of \<open>n\<close> entries, and the loop that runs a step for every entry.
\<close>

definition first_index :: "(nat \<Rightarrow> bool) \<Rightarrow> nat \<Rightarrow> nat option" where
  "first_index P n = List.find P [0..<n]"

definition for_each :: "nat \<Rightarrow> (nat \<Rightarrow> 's \<Rightarrow> 's) \<Rightarrow> 's \<Rightarrow> 's" where
  "for_each n f s = fold f [0..<n] s"

lemma first_index_Some:
  "first_index P n = Some i \<longleftrightarrow> i < n \<and> P i \<and> (\<forall>j < i. \<not> P j)"
  by (auto simp: first_index_def loop_simps)

lemma first_index_None: "first_index P n = None \<longleftrightarrow> (\<forall>i < n. \<not> P i)"
  by (auto simp: first_index_def loop_simps)

lemma first_index_cong: "n = m \<Longrightarrow> (\<And>i. i < m \<Longrightarrow> P i = Q i) \<Longrightarrow> first_index P n = first_index Q m"
  unfolding first_index_def by (rule find_cong) auto

lemma for_each_0 [simp]: "for_each 0 f s = s"
  by (simp add: for_each_def)

lemma for_each_Suc: "for_each (Suc n) f s = f n (for_each n f s)"
  by (simp add: for_each_def)

text \<open>
  Pointwise reading of word expressions.  Proofs about bit fields rewrite with exactly these
  rules and leave the arithmetic on bit positions to \<open>auto\<close>.
\<close>

lemmas bit_field_simps =
  bit_drop_bit_eq bit_and_iff bit_or_iff bit_xor_iff bit_not_iff bit_push_bit_iff
  possible_bit_word o_apply

section \<open>Offsets from a word address\<close>

lemma unat_of_nat_u64: "i < 2 ^ 64 \<Longrightarrow> unat (of_nat i :: u64) = i"
  by (simp add: unsigned_of_nat take_bit_nat_eq_self)

lemma unat_offset: "unat x + i < 2 ^ 64 \<Longrightarrow> unat (x + of_nat i :: u64) = unat x + i"
  by (simp add: unat_word_ariths unat_of_nat_u64 take_bit_nat_eq_self unsigned_of_nat)

lemma offset_inj:
  assumes "n \<le> 2 ^ 64" shows "inj_on (\<lambda>i. x + of_nat i :: u64) {..<n}"
proof (rule inj_onI)
  fix i j assume a: "i \<in> {..<n}" "j \<in> {..<n}" "x + of_nat i = x + (of_nat j :: u64)"
  have "unat (of_nat i :: u64) = i" by (rule unat_of_nat_u64) (use a assms in auto)
  moreover have "unat (of_nat j :: u64) = j" by (rule unat_of_nat_u64) (use a assms in auto)
  ultimately show "i = j" using a(3) by (metis add_left_imp_eq)
qed

lemma offset_disjoint:
  fixes x y :: u64
  assumes "unat x + m \<le> unat y" "unat y + n \<le> 2 ^ 64"
  shows "(\<lambda>i. x + of_nat i) ` {..<m} \<inter> (\<lambda>i. y + of_nat i) ` {..<n} = {}"
proof -
  have "x + of_nat i \<noteq> y + of_nat j" if "i < m" "j < n" for i j
  proof
    assume "x + of_nat i = y + of_nat j"
    then have "unat (x + of_nat i) = unat (y + of_nat j)" by simp
    moreover have "unat (x + of_nat i) = unat x + i" by (rule unat_offset) (use that assms in simp)
    moreover have "unat (y + of_nat j) = unat y + j" by (rule unat_offset) (use that assms in simp)
    ultimately show False using assms that by simp
  qed
  then show ?thesis by auto
qed

end
