(* ===== verification/Emu_Base.thy ===== *)
theory Emu_Base
  imports Prelude
begin

text \<open>
  The vocabulary of the emulator under \<^verbatim>\<open>src/cemu/src\<close>: the exceptions of
  \<^verbatim>\<open>exception.h\<close>, the memory map and CSR addresses of \<^verbatim>\<open>param.h\<close>, and the outcome of a
  C++ call, which returns, throws a \<open>cemu::Exception\<close>, or has undefined behaviour (an index
  past the end of a vector, a shift by 64 or more).
\<close>

section \<open>Exceptions (exception.h, exception.cpp)\<close>

datatype ExceptionType =
    InstructionAddrMisaligned
  | InstructionAccessFault
  | IllegalInstruction
  | Breakpoint
  | LoadAccessMisaligned
  | LoadAccessFault
  | StoreAMOAddrMisaligned
  | StoreAMOAccessFault
  | EnvironmentCallFromUMode
  | EnvironmentCallFromSMode
  | EnvironmentCallFromMMode
  | InstructionPageFault
  | LoadPageFault
  | StoreAMOPageFault

datatype exception = Exception (getType: ExceptionType) (getValue: u64)

text \<open>\<^verbatim>\<open>static_cast<uint64_t>(e.getType())\<close>: the position of the constructor in the enum.\<close>

fun exception_code :: "ExceptionType \<Rightarrow> u64" where
  "exception_code InstructionAddrMisaligned = 0"
| "exception_code InstructionAccessFault = 1"
| "exception_code IllegalInstruction = 2"
| "exception_code Breakpoint = 3"
| "exception_code LoadAccessMisaligned = 4"
| "exception_code LoadAccessFault = 5"
| "exception_code StoreAMOAddrMisaligned = 6"
| "exception_code StoreAMOAccessFault = 7"
| "exception_code EnvironmentCallFromUMode = 8"
| "exception_code EnvironmentCallFromSMode = 9"
| "exception_code EnvironmentCallFromMMode = 10"
| "exception_code InstructionPageFault = 11"
| "exception_code LoadPageFault = 12"
| "exception_code StoreAMOPageFault = 13"

fun isFatal :: "exception \<Rightarrow> bool" where
  "isFatal (Exception t v) =
     (case t of
        InstructionAddrMisaligned \<Rightarrow> True
      | InstructionAccessFault \<Rightarrow> True
      | LoadAccessFault \<Rightarrow> True
      | StoreAMOAddrMisaligned \<Rightarrow> True
      | StoreAMOAccessFault \<Rightarrow> True
      | IllegalInstruction \<Rightarrow> True
      | _ \<Rightarrow> False)"

section \<open>Outcomes\<close>

datatype 'a outcome = Ret 'a | Throw exception | Undefined

text \<open>Sequencing of calls that carry a state: a throw keeps the state reached so far.\<close>

definition xbind ::
  "'a outcome \<times> 's \<Rightarrow> ('a \<Rightarrow> 's \<Rightarrow> 'b outcome \<times> 's) \<Rightarrow> 'b outcome \<times> 's" where
  "xbind m k = (case m of (Ret x, s) \<Rightarrow> k x s | (Throw e, s) \<Rightarrow> (Throw e, s)
                 | (Undefined, s) \<Rightarrow> (Undefined, s))"

lemma xbind_simps [simp]:
  "xbind (Ret x, s) k = k x s"
  "xbind (Throw e, s) k = (Throw e, s)"
  "xbind (Undefined, s) k = (Undefined, s)"
  by (simp_all add: xbind_def)

text \<open>
  Lifting an operation of a part to the whole it is a field of: \<open>f\<close> puts the part's new
  state back.
\<close>

definition lift_part ::
  "('p \<Rightarrow> 's) \<Rightarrow> 'a outcome \<times> 'p \<Rightarrow> 'a outcome \<times> 's" where
  "lift_part f m = (case m of (r, p) \<Rightarrow> (r, f p))"

lemma lift_part_simps [simp]: "lift_part f (r, p) = (r, f p)"
  by (simp add: lift_part_def)

section \<open>The memory map and the CSR addresses (param.h)\<close>

abbreviation (input) DRAM_BASE :: u64 where "DRAM_BASE \<equiv> 0x80000000"
abbreviation (input) DRAM_SIZE :: u64 where "DRAM_SIZE \<equiv> 0x8000000"
abbreviation (input) DRAM_END :: u64 where "DRAM_END \<equiv> 0x87FFFFFF"

type_synonym csr_addr = "12 word"

abbreviation (input) MHARTID :: csr_addr where "MHARTID \<equiv> 0xf14"
abbreviation (input) MSTATUS :: csr_addr where "MSTATUS \<equiv> 0x300"
abbreviation (input) MEDELEG :: csr_addr where "MEDELEG \<equiv> 0x302"
abbreviation (input) MIDELEG :: csr_addr where "MIDELEG \<equiv> 0x303"
abbreviation (input) MIE :: csr_addr where "MIE \<equiv> 0x304"
abbreviation (input) MTVEC :: csr_addr where "MTVEC \<equiv> 0x305"
abbreviation (input) MCOUNTEREN :: csr_addr where "MCOUNTEREN \<equiv> 0x306"
abbreviation (input) MSCRATCH :: csr_addr where "MSCRATCH \<equiv> 0x340"
abbreviation (input) MEPC :: csr_addr where "MEPC \<equiv> 0x341"
abbreviation (input) MCAUSE :: csr_addr where "MCAUSE \<equiv> 0x342"
abbreviation (input) MTVAL :: csr_addr where "MTVAL \<equiv> 0x343"
abbreviation (input) MIP :: csr_addr where "MIP \<equiv> 0x344"
abbreviation (input) SSTATUS :: csr_addr where "SSTATUS \<equiv> 0x100"
abbreviation (input) SIE :: csr_addr where "SIE \<equiv> 0x104"
abbreviation (input) STVEC :: csr_addr where "STVEC \<equiv> 0x105"
abbreviation (input) SSCRATCH :: csr_addr where "SSCRATCH \<equiv> 0x140"
abbreviation (input) SEPC :: csr_addr where "SEPC \<equiv> 0x141"
abbreviation (input) SCAUSE :: csr_addr where "SCAUSE \<equiv> 0x142"
abbreviation (input) STVAL :: csr_addr where "STVAL \<equiv> 0x143"
abbreviation (input) SIP :: csr_addr where "SIP \<equiv> 0x144"
abbreviation (input) SATP :: csr_addr where "SATP \<equiv> 0x180"

text \<open>
  Field masks of \<open>mstatus\<close> and \<open>sstatus\<close>.  They are opaque to the simplifier: proofs use
  which bits they have (\<open>mask_bits\<close>), evaluation unfolds them (\<open>mask_defs\<close>).
\<close>

named_theorems mask_defs
named_theorems mask_bits

definition MASK_SIE :: u64 where [mask_defs]: "MASK_SIE = push_bit 1 1"
definition MASK_MIE :: u64 where [mask_defs]: "MASK_MIE = push_bit 3 1"
definition MASK_SPIE :: u64 where [mask_defs]: "MASK_SPIE = push_bit 5 1"
definition MASK_UBE :: u64 where [mask_defs]: "MASK_UBE = push_bit 6 1"
definition MASK_MPIE :: u64 where [mask_defs]: "MASK_MPIE = push_bit 7 1"
definition MASK_SPP :: u64 where [mask_defs]: "MASK_SPP = push_bit 8 1"
definition MASK_MPP :: u64 where [mask_defs]: "MASK_MPP = push_bit 11 3"
definition MASK_FS :: u64 where [mask_defs]: "MASK_FS = push_bit 13 3"
definition MASK_XS :: u64 where [mask_defs]: "MASK_XS = push_bit 15 3"
definition MASK_MPRV :: u64 where [mask_defs]: "MASK_MPRV = push_bit 17 1"
definition MASK_SUM :: u64 where [mask_defs]: "MASK_SUM = push_bit 18 1"
definition MASK_MXR :: u64 where [mask_defs]: "MASK_MXR = push_bit 19 1"
definition MASK_UXL :: u64 where [mask_defs]: "MASK_UXL = push_bit 32 3"
definition MASK_SD :: u64 where [mask_defs]: "MASK_SD = push_bit 63 1"

definition MASK_SSTATUS :: u64 where [mask_defs]:
  "MASK_SSTATUS =
     MASK_SIE OR MASK_SPIE OR MASK_UBE OR MASK_SPP OR MASK_FS OR MASK_XS
       OR MASK_SUM OR MASK_MXR OR MASK_UXL OR MASK_SD"

text \<open>Field masks of \<open>mip\<close> and \<open>sip\<close>.\<close>

definition MASK_SSIP :: u64 where [mask_defs]: "MASK_SSIP = push_bit 1 1"
definition MASK_MSIP :: u64 where [mask_defs]: "MASK_MSIP = push_bit 3 1"
definition MASK_STIP :: u64 where [mask_defs]: "MASK_STIP = push_bit 5 1"
definition MASK_MTIP :: u64 where [mask_defs]: "MASK_MTIP = push_bit 7 1"
definition MASK_SEIP :: u64 where [mask_defs]: "MASK_SEIP = push_bit 9 1"
definition MASK_MEIP :: u64 where [mask_defs]: "MASK_MEIP = push_bit 11 1"

lemma bit_push_1: "bit (push_bit k 1 :: u64) n \<longleftrightarrow> n < 64 \<and> n = k"
  by (auto simp: bit_simps)

lemma bit_3_u64: "bit (3 :: u64) n \<longleftrightarrow> n = 0 \<or> n = 1"
  using bit_or_iff [of "1 :: u64" "2 ^ 1" n] by (auto simp: bit_simps)

lemma bit_push_3: "bit (push_bit k 3 :: u64) n \<longleftrightarrow> n < 64 \<and> (n = k \<or> n = k + 1)"
  by (simp only: bit_push_bit_iff bit_3_u64 possible_bit_word) auto

lemma mask_bits_all [mask_bits]:
  "bit MASK_SIE n \<longleftrightarrow> n = 1"
  "bit MASK_MIE n \<longleftrightarrow> n = 3"
  "bit MASK_SPIE n \<longleftrightarrow> n = 5"
  "bit MASK_UBE n \<longleftrightarrow> n = 6"
  "bit MASK_MPIE n \<longleftrightarrow> n = 7"
  "bit MASK_SPP n \<longleftrightarrow> n = 8"
  "bit MASK_MPP n \<longleftrightarrow> n = 11 \<or> n = 12"
  "bit MASK_FS n \<longleftrightarrow> n = 13 \<or> n = 14"
  "bit MASK_XS n \<longleftrightarrow> n = 15 \<or> n = 16"
  "bit MASK_MPRV n \<longleftrightarrow> n = 17"
  "bit MASK_SUM n \<longleftrightarrow> n = 18"
  "bit MASK_MXR n \<longleftrightarrow> n = 19"
  "bit MASK_UXL n \<longleftrightarrow> n = 32 \<or> n = 33"
  "bit MASK_SD n \<longleftrightarrow> n = 63"
  "bit MASK_SSIP n \<longleftrightarrow> n = 1"
  "bit MASK_MSIP n \<longleftrightarrow> n = 3"
  "bit MASK_STIP n \<longleftrightarrow> n = 5"
  "bit MASK_MTIP n \<longleftrightarrow> n = 7"
  "bit MASK_SEIP n \<longleftrightarrow> n = 9"
  "bit MASK_MEIP n \<longleftrightarrow> n = 11"
  unfolding mask_defs bit_push_1 bit_push_3 by auto

text \<open>Fields that \<open>sstatus\<close> shows, and fields of machine mode that it hides.\<close>

lemma sstatus_fields [mask_bits]:
  "bit MASK_SSTATUS 1" "bit MASK_SSTATUS 5" "bit MASK_SSTATUS 8"
  "\<not> bit MASK_SSTATUS 3" "\<not> bit MASK_SSTATUS 7" "\<not> bit MASK_SSTATUS 11" "\<not> bit MASK_SSTATUS 12"
  by (simp_all only: MASK_SSTATUS_def bit_or_iff mask_bits_all) simp_all

lemma and_mask_zero_iff: "x AND push_bit k 1 = 0 \<longleftrightarrow> \<not> bit x k" for x :: u64
  by (simp add: and_exp_eq_0_iff_not_bit)

lemma mask_zero_iff [mask_bits]:
  fixes x :: u64
  shows "x AND MASK_SIE = 0 \<longleftrightarrow> \<not> bit x 1" "x AND MASK_MIE = 0 \<longleftrightarrow> \<not> bit x 3"
    "x AND MASK_SSIP = 0 \<longleftrightarrow> \<not> bit x 1" "x AND MASK_MSIP = 0 \<longleftrightarrow> \<not> bit x 3"
    "x AND MASK_STIP = 0 \<longleftrightarrow> \<not> bit x 5" "x AND MASK_MTIP = 0 \<longleftrightarrow> \<not> bit x 7"
    "x AND MASK_SEIP = 0 \<longleftrightarrow> \<not> bit x 9" "x AND MASK_MEIP = 0 \<longleftrightarrow> \<not> bit x 11"
  unfolding mask_defs and_mask_zero_iff by (rule refl)+

text \<open>Privilege modes, a \<open>uint64_t\<close> in the source.\<close>

type_synonym cpu_mode = u64

abbreviation (input) User :: cpu_mode where "User \<equiv> 0"
abbreviation (input) Supervisor :: cpu_mode where "Supervisor \<equiv> 1"
abbreviation (input) Machine :: cpu_mode where "Machine \<equiv> 3"

text \<open>Memory-mapped devices.\<close>

abbreviation (input) PLIC_BASE :: u64 where "PLIC_BASE \<equiv> 0xc000000"
abbreviation (input) PLIC_END :: u64 where "PLIC_END \<equiv> 0xfffffff"
abbreviation (input) PLIC_PENDING :: u64 where "PLIC_PENDING \<equiv> 0xc001000"
abbreviation (input) PLIC_SENABLE :: u64 where "PLIC_SENABLE \<equiv> 0xc002000"
abbreviation (input) PLIC_SPRIORITY :: u64 where "PLIC_SPRIORITY \<equiv> 0xc201000"
abbreviation (input) PLIC_SCLAIM :: u64 where "PLIC_SCLAIM \<equiv> 0xc201004"
abbreviation (input) CLINT_BASE :: u64 where "CLINT_BASE \<equiv> 0x2000000"
abbreviation (input) CLINT_END :: u64 where "CLINT_END \<equiv> 0x200ffff"
abbreviation (input) CLINT_MTIMECMP :: u64 where "CLINT_MTIMECMP \<equiv> 0x2004000"
abbreviation (input) CLINT_MTIME :: u64 where "CLINT_MTIME \<equiv> 0x200bff8"
abbreviation (input) UART_BASE :: u64 where "UART_BASE \<equiv> 0x10000000"
abbreviation (input) UART_SIZE :: u64 where "UART_SIZE \<equiv> 0x100"
abbreviation (input) UART_END :: u64 where "UART_END \<equiv> 0x100000ff"
abbreviation (input) UART_RHR :: u64 where "UART_RHR \<equiv> 0"
abbreviation (input) UART_THR :: u64 where "UART_THR \<equiv> 0"
abbreviation (input) UART_LSR :: u64 where "UART_LSR \<equiv> 5"
abbreviation (input) MASK_UART_LSR_RX :: u8 where "MASK_UART_LSR_RX \<equiv> 1"
abbreviation (input) MASK_UART_LSR_TX :: u8 where "MASK_UART_LSR_TX \<equiv> 0x20"
abbreviation (input) TEST_FINISH :: u64 where "TEST_FINISH \<equiv> 0x100000"
abbreviation (input) TEST_FINISH_END :: u64 where "TEST_FINISH_END \<equiv> 0x1000ff"
abbreviation (input) BLOCK_BASE :: u64 where "BLOCK_BASE \<equiv> 0x10001000"
abbreviation (input) BLOCK_END :: u64 where "BLOCK_END \<equiv> 0x100012ff"
abbreviation (input) BLOCK_SECTOR_SIZE :: u64 where "BLOCK_SECTOR_SIZE \<equiv> 512"
abbreviation (input) BLOCK_SECTOR_COUNT :: u64 where "BLOCK_SECTOR_COUNT \<equiv> 16384"

end
