(* ===== verification/Emu_Memory.thy ===== *)
theory Emu_Memory
  imports Emu_Base
begin

text \<open>
  The emulator's DRAM (\<^verbatim>\<open>dram.cpp\<close>): a vector of 128 MiB, addressed from \<open>DRAM_BASE\<close>.
  The vector is a function of the index; an access whose first index is not below
  \<open>DRAM_SIZE\<close> is undefined behaviour, which the source's check \<^verbatim>\<open>index + nbytes > dram.sz()\<close>
  does not exclude when the sum wraps around.
\<close>

type_synonym dram = "u64 \<Rightarrow> u8"

definition dram_init :: "u8 list \<Rightarrow> dram" where
  "dram_init code = (\<lambda>i. if unat i < length code then code ! unat i else 0)"

definition dram_load :: "dram \<Rightarrow> u64 \<Rightarrow> u64 \<Rightarrow> u64 option outcome" where
  "dram_load d addr sz =
     (if sz \<noteq> 8 \<and> sz \<noteq> 16 \<and> sz \<noteq> 32 \<and> sz \<noteq> 64
      then Throw (Exception LoadAccessFault addr)
      else let nbytes = sz div 8; index = addr - DRAM_BASE
        in if index + nbytes > DRAM_SIZE then Throw (Exception LoadAccessFault addr)
           else if index \<ge> DRAM_SIZE then Undefined
           else Ret (Some (le_load (unat nbytes) (\<lambda>i. d (index + of_nat i)))))"

definition dram_put :: "dram \<Rightarrow> u64 \<Rightarrow> u8 \<Rightarrow> dram" where
  "dram_put d i b = d(i := b)"

definition dram_store :: "dram \<Rightarrow> u64 \<Rightarrow> u64 \<Rightarrow> u64 \<Rightarrow> bool outcome \<times> dram" where
  "dram_store d addr sz v =
     (if sz \<noteq> 8 \<and> sz \<noteq> 16 \<and> sz \<noteq> 32 \<and> sz \<noteq> 64
      then (Throw (Exception StoreAMOAccessFault addr), d)
      else let nbytes = sz div 8; index = addr - DRAM_BASE
        in if index + nbytes > DRAM_SIZE then (Throw (Exception StoreAMOAccessFault addr), d)
           else if index \<ge> DRAM_SIZE then (Undefined, d)
           else (Ret True, le_store dram_put (unat nbytes) (\<lambda>i. index + of_nat i) v d))"

interpretation dram_bytes: byte_store "\<lambda>d i. d i" dram_put "\<lambda>_ _. True"
  by unfold_locales (auto simp: dram_put_def)

section \<open>Accesses that succeed\<close>

abbreviation ok_size :: "u64 \<Rightarrow> bool" where
  "ok_size sz \<equiv> sz = 8 \<or> sz = 16 \<or> sz = 32 \<or> sz = 64"

lemma ok_size_bytes: "ok_size sz \<Longrightarrow> unat (sz div 8) \<le> 8 \<and> 8 * unat (sz div 8) = unat sz \<and> unat (sz div 8) \<le> 2 ^ 64"
  by auto

text \<open>An access that returns lies inside the vector; indices are then natural numbers.\<close>

definition dram_ok :: "u64 \<Rightarrow> u64 \<Rightarrow> bool" where
  "dram_ok a sz \<longleftrightarrow> ok_size sz \<and> unat (a - DRAM_BASE) + unat (sz div 8) \<le> unat DRAM_SIZE"

lemma dram_ok_iff:
  "dram_ok a sz \<longleftrightarrow> ok_size sz \<and> a - DRAM_BASE + sz div 8 \<le> DRAM_SIZE \<and> a - DRAM_BASE < DRAM_SIZE"
proof (cases "ok_size sz \<and> a - DRAM_BASE < DRAM_SIZE")
  case True
  then have "unat (a - DRAM_BASE) < unat DRAM_SIZE" "unat (sz div 8) \<le> 8"
    by (auto simp: word_less_nat_alt)
  then have "unat (a - DRAM_BASE + sz div 8) = unat (a - DRAM_BASE) + unat (sz div 8)"
    by (simp add: unat_word_ariths)
  with True show ?thesis unfolding dram_ok_def by (simp add: word_le_nat_alt)
next
  case False
  then show ?thesis by (auto simp: dram_ok_def word_less_nat_alt)
qed

lemma dram_storeD:
  assumes "dram_store d a sz v = (Ret b, d')"
  shows "dram_ok a sz" "b"
    "d' = le_store dram_put (unat (sz div 8)) (\<lambda>i. a - DRAM_BASE + of_nat i) v d"
  using assms by (auto simp: dram_store_def Let_def dram_ok_iff split: if_splits)

lemma dram_store_ok: 
  "dram_ok a sz \<Longrightarrow> dram_store d a sz v = (Ret True, le_store dram_put (unat (sz div 8)) (\<lambda>i. a - DRAM_BASE + of_nat i) v d)"
  by (auto simp: dram_store_def Let_def dram_ok_iff)

lemma dram_load_ok:
  "dram_ok a sz \<Longrightarrow>
   dram_load d a sz = Ret (Some (le_load (unat (sz div 8)) (\<lambda>i. d (a - DRAM_BASE + of_nat i))))"
  by (auto simp: dram_load_def Let_def dram_ok_iff)

lemma dram_load_not_ok:
  "\<not> dram_ok a sz \<Longrightarrow> dram_load d a sz = dram_load d' a sz"
  by (auto simp: dram_load_def Let_def dram_ok_iff)

lemma dram_load_cong:
  assumes "\<And>i. i < unat (sz div 8) \<Longrightarrow> d (a - DRAM_BASE + of_nat i) = d' (a - DRAM_BASE + of_nat i)"
  shows "dram_load d a sz = dram_load d' a sz"
  using assms by (auto simp: dram_load_def Let_def intro!: le_load_cong)

text \<open>
  C2. A store to DRAM that returns is read back by a load of the same width, cut to that
  width.
\<close>

theorem dram_store_load:
  assumes "dram_store d a sz v = (Ret b, d')"
  shows "dram_load d' a sz = Ret (Some (take_bit (unat sz) v))"
  using dram_storeD [OF assms] ok_size_bytes [of sz]
  by (simp add: dram_load_ok dram_bytes.load_store offset_inj dram_ok_def)

theorem dram_store_load_witness:
  "dram_load (snd (dram_store (\<lambda>_. 0) 0x80000010 32 0x1122334455667788)) 0x80000010 32
     = Ret (Some 0x55667788)"
  using dram_store_load [of "\<lambda>_. 0" "0x80000010" "32" "0x1122334455667788" True
      "snd (dram_store (\<lambda>_. 0) 0x80000010 32 0x1122334455667788)"]
  by (simp add: dram_store_def)

text \<open>
  C3. A store to DRAM that returns leaves every load of a disjoint range unchanged, whether
  that load returns a value or faults.
\<close>

theorem dram_store_frame:
  assumes "dram_store d a sz v = (Ret b, d')"
    and "unat (a - DRAM_BASE) + unat (sz div 8) \<le> unat (a' - DRAM_BASE) \<or>
         unat (a' - DRAM_BASE) + unat (sz' div 8) \<le> unat (a - DRAM_BASE)"
  shows "dram_load d' a' sz' = dram_load d a' sz'"
proof (cases "dram_ok a' sz'")
  case True
  let ?A = "\<lambda>i. a - DRAM_BASE + of_nat i" and ?B = "\<lambda>i. a' - DRAM_BASE + of_nat i"
  have "dram_ok a sz" and d': "d' = le_store dram_put (unat (sz div 8)) ?A v d"
    using dram_storeD [OF assms(1)] by auto
  then have "?A ` {..<unat (sz div 8)} \<inter> ?B ` {..<unat (sz' div 8)} = {}"
    using True assms(2) offset_disjoint [of "a - DRAM_BASE" "unat (sz div 8)" "a' - DRAM_BASE" "unat (sz' div 8)"]
      offset_disjoint [of "a' - DRAM_BASE" "unat (sz' div 8)" "a - DRAM_BASE" "unat (sz div 8)"]
    by (auto simp: dram_ok_def)
  then show ?thesis using True d' by (simp add: dram_load_ok dram_bytes.load_store_other)
qed (rule dram_load_not_ok)

theorem dram_store_frame_witness:
  "dram_load (snd (dram_store (\<lambda>_. 7) 0x80000010 64 0)) 0x80000018 8 = dram_load (\<lambda>_. 7) 0x80000018 8"
  using dram_store_frame [of "\<lambda>_. 7" "0x80000010" "64" "0" True
      "snd (dram_store (\<lambda>_. 7) 0x80000010 64 0)" "0x80000018" "8"]
  by (simp add: dram_store_def)

end
