(* ===== verification/Emu_Devices.thy ===== *)
theory Emu_Devices
  imports Emu_Base
begin

text \<open>
  The memory-mapped devices: the core-local interruptor (\<^verbatim>\<open>clint.cpp\<close>), the
  platform-level interrupt controller (\<^verbatim>\<open>plic.cpp\<close>), the serial port (\<^verbatim>\<open>uart.cpp\<close>) and
  the disk (\<^verbatim>\<open>block_device.cpp\<close>).  The disk's image file on the host is not part of the
  state; the model is the device with an empty path or one whose host writes succeed.
\<close>

section \<open>Clint\<close>

record clint =
  clint_mtime :: u64
  clint_mtimecmp :: u64

definition clint_init :: clint where
  "clint_init = \<lparr>clint_mtime = 0, clint_mtimecmp = 0\<rparr>"

definition clint_load :: "clint \<Rightarrow> u64 \<Rightarrow> u64 \<Rightarrow> u64 outcome" where
  "clint_load c addr sz =
     (if sz \<noteq> 64 then Throw (Exception LoadAccessFault addr)
      else if addr = CLINT_MTIMECMP then Ret (clint_mtimecmp c)
      else if addr = CLINT_MTIME then Ret (clint_mtime c)
      else Throw (Exception LoadAccessFault addr))"

definition clint_store :: "clint \<Rightarrow> u64 \<Rightarrow> u64 \<Rightarrow> u64 \<Rightarrow> unit outcome \<times> clint" where
  "clint_store c addr sz v =
     (if sz \<noteq> 64 then (Throw (Exception StoreAMOAccessFault addr), c)
      else if addr = CLINT_MTIMECMP then (Ret (), c\<lparr>clint_mtimecmp := v\<rparr>)
      else if addr = CLINT_MTIME then (Ret (), c\<lparr>clint_mtime := v\<rparr>)
      else (Throw (Exception StoreAMOAccessFault addr), c))"

definition clint_tick :: "clint \<Rightarrow> u64 \<Rightarrow> bool \<times> clint" where
  "clint_tick c increment =
     (let c = c\<lparr>clint_mtime := clint_mtime c + increment\<rparr> in (clint_mtime c \<ge> clint_mtimecmp c, c))"

section \<open>Plic\<close>

record plic =
  plic_pending :: u64
  plic_senable :: u64
  plic_spriority :: u64
  plic_sclaim :: u64

definition plic_init :: plic where
  "plic_init = \<lparr>plic_pending = 0, plic_senable = 0, plic_spriority = 0, plic_sclaim = 0\<rparr>"

definition plic_load :: "plic \<Rightarrow> u64 \<Rightarrow> u64 \<Rightarrow> u64 outcome" where
  "plic_load p addr sz =
     (if sz \<noteq> 32 then Throw (Exception LoadAccessFault addr)
      else if addr = PLIC_PENDING then Ret (plic_pending p)
      else if addr = PLIC_SENABLE then Ret (plic_senable p)
      else if addr = PLIC_SPRIORITY then Ret (plic_spriority p)
      else if addr = PLIC_SCLAIM then Ret (plic_sclaim p)
      else Ret 0)"

definition plic_store :: "plic \<Rightarrow> u64 \<Rightarrow> u64 \<Rightarrow> u64 \<Rightarrow> unit outcome \<times> plic" where
  "plic_store p addr sz v =
     (if sz \<noteq> 32 then (Throw (Exception StoreAMOAccessFault addr), p)
      else if addr = PLIC_PENDING then (Ret (), p\<lparr>plic_pending := v\<rparr>)
      else if addr = PLIC_SENABLE then (Ret (), p\<lparr>plic_senable := v\<rparr>)
      else if addr = PLIC_SPRIORITY then (Ret (), p\<lparr>plic_spriority := v\<rparr>)
      else if addr = PLIC_SCLAIM then (Ret (), p\<lparr>plic_sclaim := v\<rparr>)
      else (Ret (), p))"

section \<open>Uart\<close>

text \<open>\<open>uart_out\<close> is what the device has written to standard output, oldest byte first.\<close>

record uart =
  uart_regs :: "u64 \<Rightarrow> u8"
  uart_interrupt :: bool
  uart_out :: "u8 list"

definition uart_init :: uart where
  "uart_init = \<lparr>uart_regs = (\<lambda>_. 0)(UART_LSR := MASK_UART_LSR_TX), uart_interrupt = False, uart_out = []\<rparr>"

text \<open>
  One turn of the listener thread with a byte in hand: None while the receive register is
  full (the thread waits on the condition variable), else the byte is latched.
\<close>

definition uart_receive :: "uart \<Rightarrow> u8 \<Rightarrow> uart option" where
  "uart_receive u byte =
     (if uart_regs u UART_LSR AND MASK_UART_LSR_RX = 1 then None
      else let r = (uart_regs u)(UART_RHR := byte)
        in Some (u\<lparr>uart_regs := r(UART_LSR := r UART_LSR OR MASK_UART_LSR_RX), uart_interrupt := True\<rparr>))"

definition is_interrupting :: "uart \<Rightarrow> bool \<times> uart" where
  "is_interrupting u = (uart_interrupt u, u\<lparr>uart_interrupt := False\<rparr>)"

definition uart_load :: "uart \<Rightarrow> u64 \<Rightarrow> u64 \<Rightarrow> u64 outcome \<times> uart" where
  "uart_load u addr sz =
     (if sz \<noteq> 8 then (Throw (Exception LoadAccessFault addr), u)
      else let index = addr - UART_BASE
        in if index = UART_RHR
           then let r = (uart_regs u)(UART_LSR := uart_regs u UART_LSR AND NOT MASK_UART_LSR_RX)
             in (Ret (ucast (r UART_RHR)), u\<lparr>uart_regs := r\<rparr>)
           else if index \<ge> UART_SIZE then (Undefined, u)
           else (Ret (ucast (uart_regs u index)), u))"

definition uart_store :: "uart \<Rightarrow> u64 \<Rightarrow> u64 \<Rightarrow> u64 \<Rightarrow> unit outcome \<times> uart" where
  "uart_store u addr sz v =
     (if sz \<noteq> 8 then (Throw (Exception StoreAMOAccessFault addr), u)
      else let index = addr - UART_BASE
        in if index = UART_THR then (Ret (), u\<lparr>uart_out := uart_out u @ [ucast v]\<rparr>)
           else if index \<ge> UART_SIZE then (Undefined, u)
           else (Ret (), u\<lparr>uart_regs := (uart_regs u)(index := ucast v)\<rparr>))"

section \<open>BlockDevice\<close>

abbreviation (input) REG_SECTOR :: u64 where "REG_SECTOR \<equiv> 0x00"
abbreviation (input) REG_COMMAND :: u64 where "REG_COMMAND \<equiv> 0x08"
abbreviation (input) REG_STATUS :: u64 where "REG_STATUS \<equiv> 0x0c"
abbreviation (input) DATA_WINDOW :: u64 where "DATA_WINDOW \<equiv> 0x100"
abbreviation (input) CMD_READ :: u32 where "CMD_READ \<equiv> 1"
abbreviation (input) CMD_WRITE :: u32 where "CMD_WRITE \<equiv> 2"
abbreviation (input) STATUS_READY :: u32 where "STATUS_READY \<equiv> 0"
abbreviation (input) STATUS_ERROR :: u32 where "STATUS_ERROR \<equiv> 1"

record block_device =
  bd_storage :: "u64 \<Rightarrow> u8"
  bd_window :: "u64 \<Rightarrow> u8"
  bd_sector :: u64
  bd_status :: u32

definition block_init :: "(u64 \<Rightarrow> u8) \<Rightarrow> block_device" where
  "block_init img = \<lparr>bd_storage = img, bd_window = (\<lambda>_. 0), bd_sector = 0, bd_status = 0\<rparr>"

definition read_le :: "(u64 \<Rightarrow> u8) \<Rightarrow> u64 \<Rightarrow> u64 \<Rightarrow> u64" where
  "read_le data offset sz = le_load (unat (sz div 8)) (\<lambda>i. data (offset + of_nat i))"

definition byte_put :: "(u64 \<Rightarrow> u8) \<Rightarrow> u64 \<Rightarrow> u8 \<Rightarrow> (u64 \<Rightarrow> u8)" where
  "byte_put data i b = data(i := b)"

definition write_le :: "(u64 \<Rightarrow> u8) \<Rightarrow> u64 \<Rightarrow> u64 \<Rightarrow> u64 \<Rightarrow> (u64 \<Rightarrow> u8)" where
  "write_le data offset sz v =
     le_store byte_put (unat (sz div 8)) (\<lambda>i. offset + of_nat i) v data"

definition block_execute :: "block_device \<Rightarrow> u32 \<Rightarrow> block_device" where
  "block_execute b command =
     (if bd_sector b \<ge> BLOCK_SECTOR_COUNT then b\<lparr>bd_status := STATUS_ERROR\<rparr>
      else let offset = bd_sector b * BLOCK_SECTOR_SIZE
        in if command = CMD_READ then
             b\<lparr>bd_window := (\<lambda>i. if i < BLOCK_SECTOR_SIZE then bd_storage b (offset + i) else bd_window b i),
               bd_status := STATUS_READY\<rparr>
           else if command = CMD_WRITE then
             b\<lparr>bd_storage := (\<lambda>a. if offset \<le> a \<and> a < offset + BLOCK_SECTOR_SIZE
                               then bd_window b (a - offset) else bd_storage b a),
               bd_status := STATUS_READY\<rparr>
           else b\<lparr>bd_status := STATUS_ERROR\<rparr>)"

definition block_load :: "block_device \<Rightarrow> u64 \<Rightarrow> u64 \<Rightarrow> u64 outcome" where
  "block_load b addr sz =
     (if sz \<noteq> 8 \<and> sz \<noteq> 16 \<and> sz \<noteq> 32 \<and> sz \<noteq> 64
      then Throw (Exception LoadAccessFault addr)
      else let offset = addr - BLOCK_BASE
        in if offset = REG_SECTOR \<and> sz = 64 then Ret (bd_sector b)
           else if offset = REG_STATUS \<and> sz = 32 then Ret (ucast (bd_status b))
           else if offset \<ge> DATA_WINDOW \<and> offset - DATA_WINDOW + sz div 8 \<le> BLOCK_SECTOR_SIZE
           then (if offset - DATA_WINDOW \<ge> BLOCK_SECTOR_SIZE then Undefined
                 else Ret (read_le (bd_window b) (offset - DATA_WINDOW) sz))
           else Throw (Exception LoadAccessFault addr))"

definition block_store :: "block_device \<Rightarrow> u64 \<Rightarrow> u64 \<Rightarrow> u64 \<Rightarrow> unit outcome \<times> block_device" where
  "block_store b addr sz v =
     (if sz \<noteq> 8 \<and> sz \<noteq> 16 \<and> sz \<noteq> 32 \<and> sz \<noteq> 64
      then (Throw (Exception StoreAMOAccessFault addr), b)
      else let offset = addr - BLOCK_BASE
        in if offset = REG_SECTOR \<and> sz = 64 then (Ret (), b\<lparr>bd_sector := v\<rparr>)
           else if offset = REG_COMMAND \<and> sz = 32 then (Ret (), block_execute b (ucast v))
           else if offset \<ge> DATA_WINDOW \<and> offset - DATA_WINDOW + sz div 8 \<le> BLOCK_SECTOR_SIZE
           then (if offset - DATA_WINDOW \<ge> BLOCK_SECTOR_SIZE then (Undefined, b)
                 else (Ret (), b\<lparr>bd_window := write_le (bd_window b) (offset - DATA_WINDOW) sz v\<rparr>))
           else (Throw (Exception StoreAMOAccessFault addr), b))"

interpretation window_bytes: byte_store "\<lambda>d i. d i" byte_put "\<lambda>_ _. True"
  by unfold_locales (auto simp: byte_put_def)

end
