(* ===== verification/Emu_Bus.thy ===== *)
theory Emu_Bus
  imports Emu_Memory Emu_Devices
begin

text \<open>
  The system bus (\<^verbatim>\<open>bus.cpp\<close>): address decoding over DRAM and the devices.
\<close>

record bus =
  bus_dram :: dram
  bus_uart :: uart
  bus_clint :: clint
  bus_plic :: plic
  bus_block :: block_device
  bus_halted :: bool

definition bus_init :: "u8 list \<Rightarrow> (u64 \<Rightarrow> u8) \<Rightarrow> bus" where
  "bus_init code img =
     \<lparr>bus_dram = dram_init code, bus_uart = uart_init, bus_clint = clint_init,
      bus_plic = plic_init, bus_block = block_init img, bus_halted = False\<rparr>"

abbreviation ret_some :: "u64 outcome \<times> bus \<Rightarrow> u64 option outcome \<times> bus" where
  "ret_some m \<equiv> xbind m (\<lambda>v b. (Ret (Some v), b))"

abbreviation ret_true :: "unit outcome \<times> bus \<Rightarrow> bool outcome \<times> bus" where
  "ret_true m \<equiv> xbind m (\<lambda>_ b. (Ret True, b))"

definition bus_load :: "bus \<Rightarrow> u64 \<Rightarrow> u64 \<Rightarrow> u64 option outcome \<times> bus" where
  "bus_load b addr sz =
     (if addr \<ge> DRAM_BASE \<and> addr \<le> DRAM_END then (dram_load (bus_dram b) addr sz, b)
      else if addr \<ge> UART_BASE \<and> addr \<le> UART_END then
        ret_some (lift_part (\<lambda>u. b\<lparr>bus_uart := u\<rparr>) (uart_load (bus_uart b) addr sz))
      else if addr \<ge> CLINT_BASE \<and> addr \<le> CLINT_END then
        ret_some (clint_load (bus_clint b) addr sz, b)
      else if addr \<ge> PLIC_BASE \<and> addr \<le> PLIC_END then
        ret_some (plic_load (bus_plic b) addr sz, b)
      else if addr \<ge> TEST_FINISH \<and> addr \<le> TEST_FINISH_END then
        (Ret (Some (if bus_halted b then 1 else 0)), b)
      else if addr \<ge> BLOCK_BASE \<and> addr \<le> BLOCK_END then
        ret_some (block_load (bus_block b) addr sz, b)
      else (Throw (Exception LoadAccessFault addr), b))"

definition bus_store :: "bus \<Rightarrow> u64 \<Rightarrow> u64 \<Rightarrow> u64 \<Rightarrow> bool outcome \<times> bus" where
  "bus_store b addr sz v =
     (if addr \<ge> DRAM_BASE \<and> addr \<le> DRAM_END then
        lift_part (\<lambda>d. b\<lparr>bus_dram := d\<rparr>) (dram_store (bus_dram b) addr sz v)
      else if addr \<ge> UART_BASE \<and> addr \<le> UART_END then
        ret_true (lift_part (\<lambda>u. b\<lparr>bus_uart := u\<rparr>) (uart_store (bus_uart b) addr sz v))
      else if addr \<ge> CLINT_BASE \<and> addr \<le> CLINT_END then
        ret_true (lift_part (\<lambda>c. b\<lparr>bus_clint := c\<rparr>) (clint_store (bus_clint b) addr sz v))
      else if addr \<ge> PLIC_BASE \<and> addr \<le> PLIC_END then
        ret_true (lift_part (\<lambda>p. b\<lparr>bus_plic := p\<rparr>) (plic_store (bus_plic b) addr sz v))
      else if addr \<ge> TEST_FINISH \<and> addr \<le> TEST_FINISH_END then
        (Ret True, b\<lparr>bus_halted := True\<rparr>)
      else if addr \<ge> BLOCK_BASE \<and> addr \<le> BLOCK_END then
        ret_true (lift_part (\<lambda>k. b\<lparr>bus_block := k\<rparr>) (block_store (bus_block b) addr sz v))
      else (Throw (Exception StoreAMOAccessFault addr), b))"

end
