(* ===== verification/Emu_Csr.thy ===== *)
theory Emu_Csr
  imports Emu_Base
begin

text \<open>
  Control and status registers (\<^verbatim>\<open>csr.cpp\<close>): 4096 registers indexed by 12-bit addresses.
  \<open>sie\<close>, \<open>sip\<close> and \<open>sstatus\<close> have no storage of their own: they are views of \<open>mie\<close>, \<open>mip\<close>
  and \<open>mstatus\<close>.
\<close>

type_synonym csr = "csr_addr \<Rightarrow> u64"

definition csr_init :: csr where
  "csr_init = (\<lambda>_. 0)"

text \<open>The delegated interrupts: \<open>sip\<close> bits 1, 5, 9 read \<open>mip\<close> bits 3, 7, 11.\<close>

definition csr_load_sip :: "csr \<Rightarrow> u64" where
  "csr_load_sip c =
     (let mideleg = c MIDELEG; mip = c MIP; sip = 0;
          sip = (if mideleg AND MASK_SSIP \<noteq> 0
                 then sip OR (if mip AND MASK_MSIP \<noteq> 0 then MASK_SSIP else 0) else sip);
          sip = (if mideleg AND MASK_STIP \<noteq> 0
                 then sip OR (if mip AND MASK_MTIP \<noteq> 0 then MASK_STIP else 0) else sip);
          sip = (if mideleg AND MASK_SEIP \<noteq> 0
                 then sip OR (if mip AND MASK_MEIP \<noteq> 0 then MASK_SEIP else 0) else sip)
      in sip)"

definition csr_load :: "csr \<Rightarrow> csr_addr \<Rightarrow> u64" where
  "csr_load c addr =
     (if addr = SIE then c MIE AND c MIDELEG
      else if addr = SIP then csr_load_sip c
      else if addr = SSTATUS then c MSTATUS AND MASK_SSTATUS
      else c addr)"

definition csr_store :: "csr \<Rightarrow> csr_addr \<Rightarrow> u64 \<Rightarrow> csr" where
  "csr_store c addr v =
     (if addr = SIE then c(MIE := (c MIE AND NOT (c MIDELEG)) OR (v AND c MIDELEG))
      else if addr = SIP then c(MIP := (c MIP AND NOT (c MIDELEG)) OR (v AND c MIDELEG))
      else if addr = SSTATUS then
        c(MSTATUS := (c MSTATUS AND NOT MASK_SSTATUS) OR (v AND MASK_SSTATUS))
      else c(addr := v))"

definition is_medelegated :: "csr \<Rightarrow> u64 \<Rightarrow> bool" where
  "is_medelegated c v = (drop_bit (unat v) (c MEDELEG) AND 1 = 1)"

definition is_midelegated :: "csr \<Rightarrow> u64 \<Rightarrow> bool" where
  "is_midelegated c cause = (drop_bit (unat cause) (c MIDELEG) AND 1 = 1)"

section \<open>The views\<close>

lemma csr_load_plain [simp]:
  "addr \<noteq> SIE \<Longrightarrow> addr \<noteq> SIP \<Longrightarrow> addr \<noteq> SSTATUS \<Longrightarrow> csr_load c addr = c addr"
  by (simp add: csr_load_def)

lemma csr_load_views:
  "csr_load c SIE = c MIE AND c MIDELEG"
  "csr_load c SIP = csr_load_sip c"
  "csr_load c SSTATUS = c MSTATUS AND MASK_SSTATUS"
  "csr_load c MSTATUS = c MSTATUS"
  "csr_load c MIDELEG = c MIDELEG"
  "csr_load c MIE = c MIE"
  "csr_load c MIP = c MIP"
  by (simp_all add: csr_load_def)

lemma csr_store_plain [simp]:
  "addr \<noteq> SIE \<Longrightarrow> addr \<noteq> SIP \<Longrightarrow> addr \<noteq> SSTATUS \<Longrightarrow> csr_store c addr v = c(addr := v)"
  by (simp add: csr_store_def)

lemma drop_bit_and_one_iff: "drop_bit n w AND 1 = 1 \<longleftrightarrow> bit w n" for w :: u64
  by (simp add: and_one_eq bit_iff_odd_drop_bit odd_iff_mod_2_eq_one)

lemma is_medelegated_bit: "is_medelegated c v = bit (c MEDELEG) (unat v)"
  by (simp add: is_medelegated_def drop_bit_and_one_iff)

lemma is_midelegated_bit: "is_midelegated c v = bit (c MIDELEG) (unat v)"
  by (simp add: is_midelegated_def drop_bit_and_one_iff)

text \<open>A masked write followed by a masked read returns the masked value; bits outside stay.\<close>

lemma masked_write_read: "((a AND NOT m) OR (v AND m)) AND m = v AND m" for a :: u64
  by (rule bit_word_eqI) (auto simp: bit_simps)

lemma masked_write_frame: "((a AND NOT m) OR (v AND m)) AND NOT m = a AND NOT m" for a :: u64
  by (rule bit_word_eqI) (auto simp: bit_simps)

text \<open>The S-mode views have the field-update behaviour the privileged specification asks for.\<close>

lemma sstatus_write_read: "csr_load (csr_store c SSTATUS v) SSTATUS = v AND MASK_SSTATUS"
  by (simp add: csr_load_def csr_store_def masked_write_read)

lemma sie_write_read: "csr_load (csr_store c SIE v) SIE = v AND c MIDELEG"
  by (simp add: csr_load_def csr_store_def masked_write_read)

end
