(* ===== verification/Emu_Mmu.thy ===== *)
theory Emu_Mmu
  imports Emu_Memory Emu_Csr
begin

text \<open>
  The Sv39 page-table walk (\<^verbatim>\<open>mmu.cpp\<close>).  \<open>mmu_translate\<close> reads \<open>satp\<close> from the CSR
  file and page-table entries from DRAM, and writes the accessed and dirty bits back.
\<close>

datatype AccessType = AccInstruction | AccLoad | AccStore

abbreviation (input) PTE_V :: u64 where "PTE_V \<equiv> 0x1"
abbreviation (input) PTE_R :: u64 where "PTE_R \<equiv> 0x2"
abbreviation (input) PTE_W :: u64 where "PTE_W \<equiv> 0x4"
abbreviation (input) PTE_X :: u64 where "PTE_X \<equiv> 0x8"
abbreviation (input) PTE_U :: u64 where "PTE_U \<equiv> 0x10"
abbreviation (input) PTE_G :: u64 where "PTE_G \<equiv> 0x20"
abbreviation (input) PTE_A :: u64 where "PTE_A \<equiv> 0x40"
abbreviation (input) PTE_D :: u64 where "PTE_D \<equiv> 0x80"
abbreviation (input) SATP_MODE_SV39 :: u64 where "SATP_MODE_SV39 \<equiv> 0x8000000000000000"

definition mmu_is_enabled :: "csr \<Rightarrow> bool" where
  "mmu_is_enabled c = (csr_load c SATP AND SATP_MODE_SV39 = SATP_MODE_SV39)"

text \<open>Permission checks of a leaf, the same for a 2 MiB and a 4 KiB page.\<close>

definition leaf_check :: "u64 \<Rightarrow> u64 \<Rightarrow> AccessType \<Rightarrow> cpu_mode \<Rightarrow> unit outcome" where
  "leaf_check pte vaddr type mode =
     (if type = AccInstruction \<and> pte AND PTE_X = 0 then Throw (Exception InstructionPageFault vaddr)
      else if type = AccLoad \<and> pte AND PTE_R = 0 then Throw (Exception LoadPageFault vaddr)
      else if type = AccStore \<and> pte AND PTE_W = 0 then Throw (Exception StoreAMOPageFault vaddr)
      else if mode = User \<and> pte AND PTE_U = 0 then
        (if type = AccInstruction then Throw (Exception InstructionPageFault vaddr)
         else if type = AccStore then Throw (Exception StoreAMOPageFault vaddr)
         else Throw (Exception LoadPageFault vaddr))
      else Ret ())"

text \<open>Checks a leaf, sets its A and D bits in memory and returns the physical address.\<close>

definition leaf_access ::
  "dram \<Rightarrow> u64 \<Rightarrow> u64 \<Rightarrow> u64 \<Rightarrow> AccessType \<Rightarrow> cpu_mode \<Rightarrow> u64 \<Rightarrow> u64 outcome \<times> dram" where
  "leaf_access d pte_addr pte vaddr type mode ppn =
     xbind (leaf_check pte vaddr type mode, d) (\<lambda>_ d.
       let new_pte = pte OR PTE_A;
           new_pte = (if type = AccStore then new_pte OR PTE_D else new_pte)
       in xbind (dram_store d pte_addr 64 new_pte) (\<lambda>_ d.
            (Ret ((ppn * 4096) OR (vaddr AND 0xFFF)), d)))"

text \<open>Reading one entry: absent or invalid gives a load page fault.\<close>

definition pte_read :: "dram \<Rightarrow> u64 \<Rightarrow> u64 \<Rightarrow> u64 outcome" where
  "pte_read d pte_addr vaddr =
     (case dram_load d pte_addr 64 of
        Ret None \<Rightarrow> Throw (Exception LoadPageFault vaddr)
      | Ret (Some pte) \<Rightarrow> (if pte AND PTE_V = 0 then Throw (Exception LoadPageFault vaddr) else Ret pte)
      | Throw e \<Rightarrow> Throw e
      | Undefined \<Rightarrow> Undefined)"

definition mmu_translate ::
  "csr \<Rightarrow> dram \<Rightarrow> u64 \<Rightarrow> AccessType \<Rightarrow> cpu_mode \<Rightarrow> u64 outcome \<times> dram" where
  "mmu_translate c d vaddr type mode =
     (if \<not> mmu_is_enabled c then (Ret vaddr, d)
      else let vpn2 = drop_bit 30 vaddr AND 0x1FF;
               vpn1 = drop_bit 21 vaddr AND 0x1FF;
               vpn0 = drop_bit 12 vaddr AND 0x1FF;
               root_ppn = csr_load c SATP AND 0xFFFFFFFFFFF;
               table_addr = root_ppn * 4096
        in xbind (pte_read d (table_addr + vpn2 * 8) vaddr, d) (\<lambda>pte d.
           if pte AND (PTE_R OR PTE_W OR PTE_X) \<noteq> 0 then (Throw (Exception LoadPageFault vaddr), d)
           else let table_addr = drop_bit 10 pte * 4096;
                    pte_addr = table_addr + vpn1 * 8
             in xbind (pte_read d pte_addr vaddr, d) (\<lambda>pte d.
                if pte AND (PTE_R OR PTE_W OR PTE_X) \<noteq> 0 then
                  let leaf_ppn = drop_bit 10 pte AND NOT 0x1FF;
                      ppn = leaf_ppn OR (vpn0 AND 0x1FF)
                  in leaf_access d pte_addr pte vaddr type mode ppn
                else let table_addr = drop_bit 10 pte * 4096;
                         pte_addr = table_addr + vpn0 * 8
                  in xbind (pte_read d pte_addr vaddr, d) (\<lambda>pte d.
                     leaf_access d pte_addr pte vaddr type mode (drop_bit 10 pte)))))"

end
