(* ===== verification/Emu_Cpu.thy ===== *)
theory Emu_Cpu
  imports Emu_Bus Emu_Mmu
begin

text \<open>
  The processor (\<^verbatim>\<open>cpu.h\<close>, \<^verbatim>\<open>cpu.cpp\<close>): its state, memory accesses through the MMU,
  trap entry for exceptions and interrupts, and the choice of the interrupt to take.
\<close>

record cpu =
  cpu_pc :: u64
  cpu_regs :: "5 word \<Rightarrow> u64"
  cpu_bus :: bus
  cpu_mode :: cpu_mode
  cpu_csr :: csr

definition cpu_init :: "u8 list \<Rightarrow> (u64 \<Rightarrow> u8) \<Rightarrow> cpu" where
  "cpu_init code img =
     \<lparr>cpu_pc = DRAM_BASE, cpu_regs = (\<lambda>_. 0)(2 := DRAM_END), cpu_bus = bus_init code img,
      cpu_mode = Machine, cpu_csr = csr_init\<rparr>"

definition update_pc :: "cpu \<Rightarrow> u64" where
  "update_pc c = cpu_pc c + 4"

definition cpu_translate :: "u64 \<Rightarrow> AccessType \<Rightarrow> cpu \<Rightarrow> u64 outcome \<times> cpu" where
  "cpu_translate addr type c =
     lift_part (\<lambda>d. c\<lparr>cpu_bus := (cpu_bus c)\<lparr>bus_dram := d\<rparr>\<rparr>)
       (mmu_translate (cpu_csr c) (bus_dram (cpu_bus c)) addr type (cpu_mode c))"

definition cpu_bus_load :: "u64 \<Rightarrow> u64 \<Rightarrow> cpu \<Rightarrow> u64 option outcome \<times> cpu" where
  "cpu_bus_load paddr sz c =
     lift_part (\<lambda>b. c\<lparr>cpu_bus := b\<rparr>) (bus_load (cpu_bus c) paddr sz)"

definition cpu_bus_store :: "u64 \<Rightarrow> u64 \<Rightarrow> u64 \<Rightarrow> cpu \<Rightarrow> bool outcome \<times> cpu" where
  "cpu_bus_store paddr sz v c =
     lift_part (\<lambda>b. c\<lparr>cpu_bus := b\<rparr>) (bus_store (cpu_bus c) paddr sz v)"

definition cpu_load :: "u64 \<Rightarrow> u64 \<Rightarrow> cpu \<Rightarrow> u64 option outcome \<times> cpu" where
  "cpu_load addr sz c = xbind (cpu_translate addr AccLoad c) (\<lambda>paddr. cpu_bus_load paddr sz)"

definition cpu_store :: "u64 \<Rightarrow> u64 \<Rightarrow> u64 \<Rightarrow> cpu \<Rightarrow> bool outcome \<times> cpu" where
  "cpu_store addr sz v c = xbind (cpu_translate addr AccStore c) (\<lambda>paddr. cpu_bus_store paddr sz v)"

definition cpu_fetch :: "cpu \<Rightarrow> u32 option outcome \<times> cpu" where
  "cpu_fetch c =
     xbind (cpu_translate (cpu_pc c) AccInstruction c) (\<lambda>paddr c.
       xbind (cpu_bus_load paddr 32 c) (\<lambda>inst c.
         case inst of Some v \<Rightarrow> (Ret (Some (ucast v)), c)
         | None \<Rightarrow> (Throw (Exception InstructionAccessFault paddr), c)))"

section \<open>Trap entry\<close>

text \<open>
  The update of the status register on a trap: the enable bit moves to the previous-enable
  bit and is cleared, the previous mode is recorded.
\<close>

definition trap_status ::
  "u64 \<Rightarrow> u64 \<Rightarrow> nat \<Rightarrow> u64 \<Rightarrow> nat \<Rightarrow> u64 \<Rightarrow> nat \<Rightarrow> cpu_mode \<Rightarrow> u64" where
  "trap_status status mask_pie pie_i mask_ie ie_i mask_pp pp_i mode =
     (let ie = drop_bit ie_i (status AND mask_ie);
          status = (status AND NOT mask_pie) OR push_bit pie_i ie;
          status = status AND NOT mask_ie
      in (status AND NOT mask_pp) OR push_bit pp_i mode)"

definition handle_exception :: "exception \<Rightarrow> cpu \<Rightarrow> cpu" where
  "handle_exception e c =
     (let pc = cpu_pc c; mode = cpu_mode c; csr = cpu_csr c;
          cause = exception_code (getType e)
      in if mode \<le> Supervisor \<and> is_medelegated csr cause then
           let new_pc = csr_load csr STVEC AND NOT 3;
               csr = csr_store csr SEPC pc;
               csr = csr_store csr SCAUSE cause;
               csr = csr_store csr STVAL (getValue e);
               status = trap_status (csr_load csr SSTATUS) MASK_SPIE 5 MASK_SIE 1 MASK_SPP 8 mode
           in c\<lparr>cpu_mode := Supervisor, cpu_pc := new_pc, cpu_csr := csr_store csr SSTATUS status\<rparr>
         else
           let new_pc = csr_load csr MTVEC AND NOT 3;
               csr = csr_store csr MEPC pc;
               csr = csr_store csr MCAUSE cause;
               csr = csr_store csr MTVAL (getValue e);
               status = trap_status (csr_load csr MSTATUS) MASK_MPIE 7 MASK_MIE 3 MASK_MPP 11 mode
           in c\<lparr>cpu_mode := Machine, cpu_pc := new_pc, cpu_csr := csr_store csr MSTATUS status\<rparr>)"

definition check_pending_interrupts :: "cpu \<Rightarrow> u64 option" where
  "check_pending_interrupts c =
     (let csr = cpu_csr c;
          mip = csr_load csr MIP; mie = csr_load csr MIE;
          mstatus = csr_load csr MSTATUS; mideleg = csr_load csr MIDELEG
      in if cpu_mode c = Machine then
           (if mstatus AND MASK_MIE = 0 then None
            else let pending = mip AND mie
              in if pending AND MASK_MEIP \<noteq> 0 then Some (11 OR push_bit 63 1)
                 else if pending AND MASK_MSIP \<noteq> 0 then Some (3 OR push_bit 63 1)
                 else if pending AND MASK_MTIP \<noteq> 0 then Some (7 OR push_bit 63 1)
                 else None)
         else let non_delegated = mip AND mie AND NOT mideleg
           in if mstatus AND MASK_MIE \<noteq> 0 \<and> non_delegated AND MASK_MEIP \<noteq> 0
              then Some (11 OR push_bit 63 1)
              else if mstatus AND MASK_MIE \<noteq> 0 \<and> non_delegated AND MASK_MSIP \<noteq> 0
              then Some (3 OR push_bit 63 1)
              else if mstatus AND MASK_MIE \<noteq> 0 \<and> non_delegated AND MASK_MTIP \<noteq> 0
              then Some (7 OR push_bit 63 1)
              else let sip = csr_load csr SIP; sie = csr_load csr SIE; sstatus = csr_load csr SSTATUS
                in if sstatus AND MASK_SIE \<noteq> 0 then
                     (let s_pending = sip AND sie
                      in if s_pending AND MASK_SEIP \<noteq> 0 then Some (9 OR push_bit 63 1)
                         else if s_pending AND MASK_SSIP \<noteq> 0 then Some (1 OR push_bit 63 1)
                         else if s_pending AND MASK_STIP \<noteq> 0 then Some (5 OR push_bit 63 1)
                         else None)
                   else None)"

definition handle_interrupt :: "u64 \<Rightarrow> cpu \<Rightarrow> cpu" where
  "handle_interrupt cause c =
     (let pc = cpu_pc c; mode = cpu_mode c; csr = cpu_csr c;
          irq_code = cause AND 0x7fffffffffffffff
      in if mode \<le> Supervisor \<and> is_midelegated csr irq_code then
           let new_pc = csr_load csr STVEC AND NOT 3;
               csr = csr_store csr SEPC pc;
               csr = csr_store csr SCAUSE cause;
               csr = csr_store csr STVAL 0;
               status = trap_status (csr_load csr SSTATUS) MASK_SPIE 5 MASK_SIE 1 MASK_SPP 8 mode
           in c\<lparr>cpu_mode := Supervisor, cpu_pc := new_pc, cpu_csr := csr_store csr SSTATUS status\<rparr>
         else
           let new_pc = csr_load csr MTVEC AND NOT 3;
               csr = csr_store csr MEPC pc;
               csr = csr_store csr MCAUSE cause;
               csr = csr_store csr MTVAL 0;
               status = trap_status (csr_load csr MSTATUS) MASK_MPIE 7 MASK_MIE 3 MASK_MPP 11 mode
           in c\<lparr>cpu_mode := Machine, cpu_pc := new_pc, cpu_csr := csr_store csr MSTATUS status\<rparr>)"

section \<open>Registers by name\<close>

definition RVABI :: "string list" where
  "RVABI =
     [''zero'', ''ra'', ''sp'', ''gp'', ''tp'', ''t0'', ''t1'', ''t2'',
      ''s0'', ''s1'', ''a0'', ''a1'', ''a2'', ''a3'', ''a4'', ''a5'',
      ''a6'', ''a7'', ''s2'', ''s3'', ''s4'', ''s5'', ''s6'', ''s7'',
      ''s8'', ''s9'', ''s10'', ''s11'', ''t3'', ''t4'', ''t5'', ''t6'']"

definition csr_names :: "(string \<times> csr_addr) list" where
  "csr_names =
     [(''mhartid'', MHARTID), (''mstatus'', MSTATUS), (''mtvec'', MTVEC), (''mepc'', MEPC),
      (''mcause'', MCAUSE), (''mtval'', MTVAL), (''medeleg'', MEDELEG), (''mscratch'', MSCRATCH),
      (''MIP'', MIP), (''mcounteren'', MCOUNTEREN), (''sstatus'', SSTATUS), (''stvec'', STVEC),
      (''sepc'', SEPC), (''scause'', SCAUSE), (''stval'', STVAL), (''sscratch'', SSCRATCH),
      (''SIP'', SIP), (''SATP'', SATP)]"

definition getRegValueByName :: "cpu \<Rightarrow> string \<Rightarrow> u64 option" where
  "getRegValueByName c name =
     (case List.find (\<lambda>i. RVABI ! i = name) [0..<length RVABI] of
        Some i \<Rightarrow> Some (cpu_regs c (of_nat i))
      | None \<Rightarrow> map_option (csr_load (cpu_csr c)) (map_of csr_names name))"

end
