(* ===== verification/Emu_Instr.thy ===== *)
theory Emu_Instr
  imports Emu_Cpu
begin

text \<open>
  The instructions (\<^verbatim>\<open>instructions.cpp\<close>): one definition per \<^verbatim>\<open>executeX\<close> function, the
  three decode tables and \<open>InstructionExecutor::execute\<close>.  An instruction returns the new
  program counter, or None, or throws.  A signed overflow of a 32-bit sum and a shift of a
  64-bit value by 64 or more are undefined in C++ and have the outcome \<open>Undefined\<close>.
\<close>

type_synonym insn = "cpu \<Rightarrow> u32 \<Rightarrow> u64 option outcome \<times> cpu"

section \<open>Fields and registers\<close>

definition unpackInstruction :: "u32 \<Rightarrow> u32 \<times> u32 \<times> u32" where
  "unpackInstruction inst =
     (drop_bit 7 inst AND 0x1f, drop_bit 15 inst AND 0x1f, drop_bit 20 inst AND 0x1f)"

definition rX :: "cpu \<Rightarrow> u32 \<Rightarrow> u64" where
  "rX c r = cpu_regs c (ucast r)"

definition wX :: "u32 \<Rightarrow> u64 \<Rightarrow> cpu \<Rightarrow> cpu" where
  "wX r v c = c\<lparr>cpu_regs := (cpu_regs c)(ucast r := v)\<rparr>"

definition imm_i :: "u32 \<Rightarrow> u64" where
  "imm_i inst = scast (signed_drop_bit 20 (inst AND 0xfff00000))"

definition imm_s :: "u32 \<Rightarrow> u64" where
  "imm_s inst = (scast (signed_drop_bit 20 (inst AND 0xfe000000)) AND 0xffffffffffffffe0)
                  OR ucast (drop_bit 7 inst AND 0x1f)"

definition imm_b :: "u32 \<Rightarrow> u64" where
  "imm_b inst = scast ((if inst AND 0x80000000 \<noteq> 0 then 0xFFFFF000 else 0)
                         OR push_bit 4 (inst AND 0x80)
                         OR (drop_bit 20 inst AND 0x7E0)
                         OR (drop_bit 7 inst AND 0x1E))"

definition imm_u :: "u32 \<Rightarrow> u64" where
  "imm_u inst = scast (inst AND 0xfffff000)"

definition imm_j :: "u32 \<Rightarrow> u64" where
  "imm_j inst = scast ((if inst AND 0x80000000 \<noteq> 0 then 0xfff00000 else 0)
                         OR push_bit 12 (drop_bit 12 inst AND 0xff)
                         OR (drop_bit 9 inst AND 0x800)
                         OR (drop_bit 20 inst AND 0x7fe))"

definition insn_csr_addr :: "u32 \<Rightarrow> csr_addr" where
  "insn_csr_addr inst = ucast (drop_bit 20 (inst AND 0xfff00000))"

text \<open>An instruction that writes one register, and one that cannot fail.\<close>

definition ret_next :: "cpu \<Rightarrow> u64 option outcome \<times> cpu" where
  "ret_next c = (Ret (Some (update_pc c)), c)"

section \<open>Loads and stores\<close>

definition executeFence :: insn where
  "executeFence c inst = ret_next c"

text \<open>The common part of the seven loads: \<open>ext\<close> widens the loaded value.\<close>

definition load_insn :: "u64 \<Rightarrow> (u64 \<Rightarrow> u64) \<Rightarrow> insn" where
  "load_insn sz ext c inst =
     (case unpackInstruction inst of (rd, rs1, rs2) \<Rightarrow>
        let addr = rX c rs1 + imm_i inst
        in xbind (cpu_load addr sz c) (\<lambda>v c.
             case v of Some v \<Rightarrow> ret_next (wX rd (ext v) c) | None \<Rightarrow> (Ret None, c)))"

definition executeLb :: insn where
  "executeLb = load_insn 8 (\<lambda>v. scast (ucast (v AND 0xff) :: u8))"

definition executeLh :: insn where
  "executeLh = load_insn 16 (\<lambda>v. scast (ucast (v AND 0xffff) :: u16))"

definition executeLw :: insn where
  "executeLw = load_insn 32 (\<lambda>v. scast (ucast (v AND 0xffffffff) :: u32))"

definition executeLd :: insn where
  "executeLd = load_insn 64 (\<lambda>v. v)"

definition executeLbu :: insn where
  "executeLbu = load_insn 8 (\<lambda>v. v AND 0xff)"

definition executeLhu :: insn where
  "executeLhu = load_insn 16 (\<lambda>v. v AND 0xffff)"

definition executeLwu :: insn where
  "executeLwu = load_insn 32 (\<lambda>v. v AND 0xffffffff)"

text \<open>Byte stores look at the success flag; the wider ones ignore it.\<close>

definition executeSb :: insn where
  "executeSb c inst =
     (case unpackInstruction inst of (rd, rs1, rs2) \<Rightarrow>
        xbind (cpu_store (rX c rs1 + imm_s inst) 8 (rX c rs2) c) (\<lambda>isSuc c.
          if isSuc then ret_next c else (Ret None, c)))"

definition executeStoreByte :: insn where
  "executeStoreByte c inst =
     (case unpackInstruction inst of (rd, rs1, rs2) \<Rightarrow>
        xbind (cpu_store (rX c rs1 + imm_s inst) 8 (rX c rs2) c) (\<lambda>isSuc c.
          if isSuc then ret_next c else (Ret None, c)))"

definition store_insn :: "u64 \<Rightarrow> insn" where
  "store_insn sz c inst =
     (case unpackInstruction inst of (rd, rs1, rs2) \<Rightarrow>
        xbind (cpu_store (rX c rs1 + imm_s inst) sz (rX c rs2) c) (\<lambda>_. ret_next))"

definition executeStoreHalf :: insn where
  "executeStoreHalf = store_insn 16"

definition executeStoreWord :: insn where
  "executeStoreWord = store_insn 32"

definition executeStoreDouble :: insn where
  "executeStoreDouble = store_insn 64"

section \<open>Register-immediate and register-register instructions\<close>

definition alu_imm :: "(u64 \<Rightarrow> u64 \<Rightarrow> u64) \<Rightarrow> insn" where
  "alu_imm f c inst =
     (case unpackInstruction inst of (rd, rs1, rs2) \<Rightarrow>
        ret_next (wX rd (f (rX c rs1) (imm_i inst)) c))"

definition alu_reg :: "(u64 \<Rightarrow> u64 \<Rightarrow> u64) \<Rightarrow> insn" where
  "alu_reg f c inst =
     (case unpackInstruction inst of (rd, rs1, rs2) \<Rightarrow>
        ret_next (wX rd (f (rX c rs1) (rX c rs2)) c))"

definition executeAddi :: insn where "executeAddi = alu_imm (\<lambda>x imm. x + imm)"
definition executeSlli :: insn where "executeSlli = alu_imm (\<lambda>x imm. push_bit (unat (imm AND 0x3f)) x)"
definition executeSlti :: insn where "executeSlti = alu_imm (\<lambda>x imm. if x < imm then 1 else 0)"
definition executeSltiu :: insn where
  "executeSltiu = alu_imm (\<lambda>x imm. if x < ucast (ucast imm :: u32) then 1 else 0)"
definition executeXori :: insn where "executeXori = alu_imm (\<lambda>x imm. x XOR imm)"
definition executeSrli :: insn where "executeSrli = alu_imm (\<lambda>x imm. drop_bit (unat (imm AND 0x3f)) x)"
definition executeSrai :: insn where
  "executeSrai = alu_imm (\<lambda>x imm. signed_drop_bit (unat (imm AND 0x3f)) x)"
definition executeOri :: insn where "executeOri = alu_imm (\<lambda>x imm. x OR imm)"
definition executeAndi :: insn where "executeAndi = alu_imm (\<lambda>x imm. x AND imm)"

text \<open>Shifts by a register use its full value, which C++ leaves undefined from 64 on.\<close>

definition shift_reg :: "(nat \<Rightarrow> u64 \<Rightarrow> u64) \<Rightarrow> insn" where
  "shift_reg f c inst =
     (case unpackInstruction inst of (rd, rs1, rs2) \<Rightarrow>
        if rX c rs2 \<ge> 64 then (Undefined, c)
        else ret_next (wX rd (f (unat (rX c rs2)) (rX c rs1)) c))"

definition executeSll :: insn where "executeSll = shift_reg push_bit"
definition executeSrl :: insn where "executeSrl = shift_reg drop_bit"
definition executeSra :: insn where "executeSra = shift_reg signed_drop_bit"

definition executeSlt :: insn where "executeSlt = alu_reg (\<lambda>x y. if x <s y then 1 else 0)"
definition executeXor :: insn where "executeXor = alu_reg (\<lambda>x y. x XOR y)"
definition executeOr :: insn where "executeOr = alu_reg (\<lambda>x y. x OR y)"
definition executeAnd :: insn where "executeAnd = alu_reg (\<lambda>x y. x AND y)"
definition executeAdd :: insn where "executeAdd = alu_reg (\<lambda>x y. x + y)"
definition executeSUB :: insn where "executeSUB = alu_reg (\<lambda>x y. x - y)"
definition executeSLTU :: insn where "executeSLTU = alu_reg (\<lambda>x y. if x < y then 1 else 0)"

text \<open>32-bit sums and differences: signed overflow of an \<^verbatim>\<open>int\<close> is undefined.\<close>

definition int32_op :: "(int \<Rightarrow> int \<Rightarrow> int) \<Rightarrow> insn" where
  "int32_op f c inst =
     (case unpackInstruction inst of (rd, rs1, rs2) \<Rightarrow>
        let r = f (sint (ucast (rX c rs1) :: u32)) (sint (ucast (rX c rs2) :: u32))
        in if r < - (2 ^ 31) \<or> 2 ^ 31 \<le> r then (Undefined, c)
           else ret_next (wX rd (word_of_int r) c))"

definition executeAddw :: insn where "executeAddw = int32_op (\<lambda>x y. x + y)"
definition executeSUBW :: insn where "executeSUBW = int32_op (\<lambda>x y. x - y)"

definition executeADDIW :: insn where
  "executeADDIW = alu_imm (\<lambda>x imm. scast (ucast (x + imm) :: u32))"

definition shift_imm_w :: "(nat \<Rightarrow> u32 \<Rightarrow> u32) \<Rightarrow> insn" where
  "shift_imm_w f c inst =
     (case unpackInstruction inst of (rd, rs1, rs2) \<Rightarrow>
        let shamt = drop_bit 20 inst AND 0x1f
        in ret_next (wX rd (scast (f (unat shamt) (ucast (rX c rs1)))) c))"

definition executeSLLIW :: insn where "executeSLLIW = shift_imm_w push_bit"
definition executeSRLIW :: insn where "executeSRLIW = shift_imm_w drop_bit"
definition executeSRAIW :: insn where "executeSRAIW = shift_imm_w signed_drop_bit"

definition shift_reg_w :: "(nat \<Rightarrow> u32 \<Rightarrow> u32) \<Rightarrow> insn" where
  "shift_reg_w f = alu_reg (\<lambda>x y. scast (f (unat (y AND 0x1f)) (ucast x)))"

definition executeSLLW :: insn where "executeSLLW = shift_reg_w push_bit"
definition executeSRLW :: insn where "executeSRLW = shift_reg_w drop_bit"
definition executeSRAW :: insn where "executeSRAW = shift_reg_w signed_drop_bit"

definition executeLui :: insn where
  "executeLui c inst =
     (case unpackInstruction inst of (rd, rs1, rs2) \<Rightarrow> ret_next (wX rd (imm_u inst) c))"

definition executeAUIPC :: insn where
  "executeAUIPC c inst =
     (case unpackInstruction inst of (rd, rs1, rs2) \<Rightarrow> ret_next (wX rd (cpu_pc c + imm_u inst) c))"

section \<open>Jumps and branches\<close>

definition executeJAL :: insn where
  "executeJAL c inst =
     (case unpackInstruction inst of (rd, rs1, rs2) \<Rightarrow>
        (Ret (Some (cpu_pc c + imm_j inst)), wX rd (cpu_pc c + 4) c))"

definition executeJALR :: insn where
  "executeJALR c inst =
     (case unpackInstruction inst of (rd, rs1, rs2) \<Rightarrow>
        let t = cpu_pc c + 4; new_pc = (rX c rs1 + imm_i inst) AND NOT 1
        in (Ret (Some new_pc), wX rd t c))"

definition branch :: "(u64 \<Rightarrow> u64 \<Rightarrow> bool) \<Rightarrow> insn" where
  "branch p c inst =
     (case unpackInstruction inst of (rd, rs1, rs2) \<Rightarrow>
        if p (rX c rs1) (rX c rs2) then (Ret (Some (cpu_pc c + imm_b inst)), c) else ret_next c)"

definition executeBEQ :: insn where "executeBEQ = branch (\<lambda>x y. x = y)"
definition executeBNE :: insn where "executeBNE = branch (\<lambda>x y. x \<noteq> y)"
definition executeBLT :: insn where "executeBLT = branch (\<lambda>x y. x <s y)"
definition executeBGE :: insn where "executeBGE = branch (\<lambda>x y. y \<le>s x)"
definition executeBGEU :: insn where "executeBGEU = branch (\<lambda>x y. x \<ge> y)"
definition executeBLTU :: insn where "executeBLTU = branch (\<lambda>x y. x < y)"

section \<open>CSR instructions\<close>

definition set_csr :: "csr_addr \<Rightarrow> u64 \<Rightarrow> cpu \<Rightarrow> cpu" where
  "set_csr a v c = c\<lparr>cpu_csr := csr_store (cpu_csr c) a v\<rparr>"

definition executeCSR_RW :: insn where
  "executeCSR_RW c inst =
     (case unpackInstruction inst of (rd, rs1, rs2) \<Rightarrow>
        let a = insn_csr_addr inst; t = csr_load (cpu_csr c) a;
            c = set_csr a (rX c rs1) c
        in ret_next (wX rd t c))"

text \<open>The other five write \<open>rd\<close> first: \<open>rs1\<close> is read from the updated registers.\<close>

definition executeCSR_RS :: insn where
  "executeCSR_RS c inst =
     (case unpackInstruction inst of (rd, rs1, rs2) \<Rightarrow>
        let a = insn_csr_addr inst; t = csr_load (cpu_csr c) a;
            c = wX rd t c
        in ret_next (set_csr a (t OR rX c rs1) c))"

definition executeCSR_RC :: insn where
  "executeCSR_RC c inst =
     (case unpackInstruction inst of (rd, rs1, rs2) \<Rightarrow>
        let a = insn_csr_addr inst; t = csr_load (cpu_csr c) a;
            c = wX rd t c
        in ret_next (set_csr a (t AND NOT (rX c rs1)) c))"

definition executeCSR_RWI :: insn where
  "executeCSR_RWI c inst =
     (case unpackInstruction inst of (rd, rs1, rs2) \<Rightarrow>
        let a = insn_csr_addr inst; t = csr_load (cpu_csr c) a;
            c = wX rd t c
        in ret_next (set_csr a (ucast rs1) c))"

text \<open>\<^verbatim>\<open>1 << rs1\<close> is an \<^verbatim>\<open>int\<close>, sign-extended when it meets the 64-bit value.\<close>

definition executeCSR_RSI :: insn where
  "executeCSR_RSI c inst =
     (case unpackInstruction inst of (rd, rs1, rs2) \<Rightarrow>
        let a = insn_csr_addr inst; t = csr_load (cpu_csr c) a;
            c = wX rd t c
        in ret_next (set_csr a (t OR scast (push_bit (unat rs1) 1 :: u32)) c))"

text \<open>\<^verbatim>\<open>~rs1\<close> is a \<^verbatim>\<open>uint32_t\<close>, zero-extended when it meets the 64-bit value.\<close>

definition executeCSR_RCI :: insn where
  "executeCSR_RCI c inst =
     (case unpackInstruction inst of (rd, rs1, rs2) \<Rightarrow>
        let a = insn_csr_addr inst; t = csr_load (cpu_csr c) a;
            c = wX rd t c
        in ret_next (set_csr a (t AND ucast (NOT rs1)) c))"

section \<open>Privileged instructions\<close>

definition executeSFENCE_VMA :: insn where
  "executeSFENCE_VMA c inst = ret_next c"

definition executeSRET :: insn where
  "executeSRET c inst =
     (let sstatus = csr_load (cpu_csr c) SSTATUS;
          mode = drop_bit 8 (sstatus AND MASK_SPP);
          spie = drop_bit 5 (sstatus AND MASK_SPIE);
          sstatus = (sstatus AND NOT MASK_SIE) OR push_bit 1 spie;
          sstatus = sstatus OR MASK_SPIE;
          sstatus = sstatus AND NOT MASK_SPP;
          c = set_csr SSTATUS sstatus (c\<lparr>cpu_mode := mode\<rparr>);
          new_pc = csr_load (cpu_csr c) SEPC AND NOT 3
      in (Ret (Some new_pc), c))"

definition executeMRET :: insn where
  "executeMRET c inst =
     (let mstatus = csr_load (cpu_csr c) MSTATUS;
          mode = drop_bit 11 (mstatus AND MASK_MPP);
          mpie = drop_bit 7 (mstatus AND MASK_MPIE);
          mstatus = (mstatus AND NOT MASK_MIE) OR push_bit 3 mpie;
          mstatus = mstatus OR MASK_MPIE;
          mstatus = mstatus AND NOT MASK_MPP;
          mstatus = (if mstatus AND MASK_MPP \<noteq> Machine then mstatus AND NOT MASK_MPRV else mstatus);
          c = set_csr MSTATUS mstatus (c\<lparr>cpu_mode := mode\<rparr>);
          new_pc = csr_load (cpu_csr c) MEPC AND NOT 3
      in (Ret (Some new_pc), c))"

definition executeECALL :: insn where
  "executeECALL c inst =
     (if cpu_mode c = Machine then (Throw (Exception EnvironmentCallFromMMode (ucast inst)), c)
      else if cpu_mode c = Supervisor then (Throw (Exception EnvironmentCallFromSMode (ucast inst)), c)
      else if cpu_mode c = User then (Throw (Exception EnvironmentCallFromUMode (ucast inst)), c)
      else (Throw (Exception EnvironmentCallFromMMode (ucast inst)), c))"

definition executeEBREAK :: insn where
  "executeEBREAK c inst = (Throw (Exception Breakpoint (ucast inst)), c)"

definition executeWFI :: insn where
  "executeWFI c inst = ret_next c"

section \<open>Decoding\<close>

definition opcodeTable :: "(u32 \<times> insn) list" where
  "opcodeTable =
     [(0x17, executeAUIPC), (0x37, executeLui), (0x67, executeJALR), (0x6f, executeJAL)]"

definition instructionMap :: "((u32 \<times> u32) \<times> insn) list" where
  "instructionMap =
     [((0x03, 0x0), executeLb), ((0x03, 0x1), executeLh), ((0x03, 0x2), executeLw),
      ((0x03, 0x3), executeLd), ((0x03, 0x4), executeLbu), ((0x03, 0x5), executeLhu),
      ((0x03, 0x6), executeLwu), ((0x0f, 0x0), executeFence), ((0x13, 0x0), executeAddi),
      ((0x13, 0x1), executeSlli), ((0x13, 0x2), executeSlti), ((0x13, 0x3), executeSltiu),
      ((0x13, 0x4), executeXori), ((0x13, 0x6), executeOri), ((0x13, 0x7), executeAndi),
      ((0x1b, 0x0), executeADDIW), ((0x1b, 0x1), executeSLLIW), ((0x19, 0x7), executeSb),
      ((0x23, 0x0), executeStoreByte), ((0x23, 0x1), executeStoreHalf),
      ((0x23, 0x2), executeStoreWord), ((0x23, 0x3), executeStoreDouble),
      ((0x63, 0x0), executeBEQ), ((0x63, 0x1), executeBNE), ((0x63, 0x4), executeBLT),
      ((0x63, 0x5), executeBGE), ((0x63, 0x6), executeBLTU), ((0x63, 0x7), executeBGEU),
      ((0x73, 0x1), executeCSR_RW), ((0x73, 0x2), executeCSR_RS), ((0x73, 0x3), executeCSR_RC),
      ((0x73, 0x5), executeCSR_RWI), ((0x73, 0x6), executeCSR_RSI), ((0x73, 0x7), executeCSR_RCI)]"

definition instruction2Map :: "((u32 \<times> u32 \<times> u32) \<times> insn) list" where
  "instruction2Map =
     [((0x13, 0x5, 0x00), executeSrli), ((0x13, 0x5, 0x10), executeSrai),
      ((0x33, 0x0, 0x00), executeAdd), ((0x33, 0x0, 0x20), executeSUB),
      ((0x33, 0x1, 0x00), executeSll), ((0x33, 0x2, 0x00), executeSlt),
      ((0x33, 0x3, 0x00), executeSLTU), ((0x33, 0x4, 0x00), executeXor),
      ((0x33, 0x5, 0x00), executeSrl), ((0x33, 0x5, 0x20), executeSra),
      ((0x33, 0x6, 0x00), executeOr), ((0x33, 0x7, 0x00), executeAnd),
      ((0x1b, 0x5, 0x00), executeSRLIW), ((0x1b, 0x5, 0x20), executeSRAIW),
      ((0x3b, 0x0, 0x00), executeAddw), ((0x3b, 0x0, 0x20), executeSUBW),
      ((0x3b, 0x1, 0x00), executeSLLW), ((0x3b, 0x5, 0x00), executeSRLW),
      ((0x3b, 0x5, 0x20), executeSRAW), ((0x73, 0x0, 0x00), executeECALL),
      ((0x73, 0x0, 0x01), executeEBREAK), ((0x73, 0x0, 0x10), executeWFI),
      ((0x73, 0x0, 0x9), executeSFENCE_VMA), ((0x73, 0x0, 0x8), executeSRET),
      ((0x73, 0x0, 0x18), executeMRET)]"

text \<open>The handler an instruction word selects; the last table is tried with funct7, then funct6.\<close>

definition decode :: "u32 \<Rightarrow> insn option" where
  "decode inst =
     (let opcode = inst AND 0x7f;
          funct3 = drop_bit 12 (inst AND 0x7000);
          funct7 = drop_bit 25 (inst AND 0xfe000000)
      in case map_of opcodeTable opcode of Some f \<Rightarrow> Some f
         | None \<Rightarrow> (case map_of instructionMap (opcode, funct3) of Some f \<Rightarrow> Some f
         | None \<Rightarrow> (case map_of instruction2Map (opcode, funct3, funct7) of Some f \<Rightarrow> Some f
         | None \<Rightarrow> map_of instruction2Map (opcode, funct3, drop_bit 26 inst AND 0x3f))))"

definition executor_execute :: insn where
  "executor_execute c inst =
     (let c = c\<lparr>cpu_regs := (cpu_regs c)(0 := 0)\<rparr>
      in case decode inst of
           Some f \<Rightarrow> xbind (f c inst) (\<lambda>result c.
             case result of Some pc \<Rightarrow> (Ret (Some pc), c)
             | None \<Rightarrow> (Throw (Exception IllegalInstruction (ucast inst)), c))
         | None \<Rightarrow> (Throw (Exception IllegalInstruction (ucast inst)), c))"

definition cpu_execute :: insn where
  "cpu_execute c inst =
     xbind (executor_execute c inst) (\<lambda>exe c.
       case exe of Some pc \<Rightarrow> (Ret (Some pc), c)
       | None \<Rightarrow> (Throw (Exception IllegalInstruction (cpu_pc c)), c))"

section \<open>The main loop (main.cpp)\<close>

datatype run_state = Running cpu | Stopped cpu | Crashed cpu

text \<open>
  One turn of the loop in \<^verbatim>\<open>main\<close>.  \<open>Stopped\<close> is leaving the loop (a signal, the halt
  device, a fatal exception), \<open>Crashed\<close> is undefined behaviour of the emulator itself.
\<close>

definition emu_tick :: "cpu \<Rightarrow> cpu" where
  "emu_tick c =
     (case clint_tick (bus_clint (cpu_bus c)) 1 of (fired, cl) \<Rightarrow>
        let c = c\<lparr>cpu_bus := (cpu_bus c)\<lparr>bus_clint := cl\<rparr>\<rparr>
        in if fired then set_csr MIP (csr_load (cpu_csr c) MIP OR MASK_MTIP) c
           else set_csr MIP (csr_load (cpu_csr c) MIP AND NOT MASK_MTIP) c)"

definition emu_step :: "bool \<Rightarrow> cpu \<Rightarrow> run_state" where
  "emu_step stop_requested c =
     (if stop_requested then Stopped c
      else if bus_halted (cpu_bus c) then Stopped c
      else let c = emu_tick c
        in case check_pending_interrupts c of
             Some irq \<Rightarrow> Running (handle_interrupt irq c)
           | None \<Rightarrow>
             (case cpu_fetch c of
                (Ret None, c) \<Rightarrow> Stopped c
              | (Ret (Some inst), c) \<Rightarrow>
                  (case cpu_execute c inst of
                     (Ret (Some pc), c) \<Rightarrow> Running (c\<lparr>cpu_pc := pc\<rparr>)
                   | (Ret None, c) \<Rightarrow> Crashed c
                   | (Throw e, c) \<Rightarrow> (let c = handle_exception e c
                                      in if isFatal e then Stopped c else Running c)
                   | (Undefined, c) \<Rightarrow> Crashed c)
              | (Throw e, c) \<Rightarrow> (let c = handle_exception e c
                                 in if isFatal e then Stopped c else Running c)
              | (Undefined, c) \<Rightarrow> Crashed c))"

end
