(* ===== verification/Emu_Encode.thy ===== *)
theory Emu_Encode
  imports Emu_Instr
begin

text \<open>
  Instruction words built from their fields, in the layouts of the RISC-V manual, and what the
  emulator's field extraction and immediates compute on them.
\<close>

section \<open>Instruction words\<close>

definition enc :: "7 word \<Rightarrow> 5 word \<Rightarrow> 5 word \<Rightarrow> 3 word \<Rightarrow> 5 word \<Rightarrow> 7 word \<Rightarrow> u32" where
  "enc f7 rs2 rs1 f3 rd opc =
     push_bit 25 (ucast f7) OR push_bit 20 (ucast rs2) OR push_bit 15 (ucast rs1)
       OR push_bit 12 (ucast f3) OR push_bit 7 (ucast rd) OR ucast opc"

lemma bit_enc:
  "bit (enc f7 rs2 rs1 f3 rd opc) n \<longleftrightarrow>
     n < 32 \<and> (if n < 7 then bit opc n else if n < 12 then bit rd (n - 7)
       else if n < 15 then bit f3 (n - 12) else if n < 20 then bit rs1 (n - 15)
       else if n < 25 then bit rs2 (n - 20) else bit f7 (n - 25))"
  by (simp only: enc_def bit_field_simps bit_unsigned_iff) (auto dest: bit_imp_le_length)

lemma field_masks:
  "bit (0x7f :: u32) n \<longleftrightarrow> n < 7"
  "bit (0x1f :: u32) n \<longleftrightarrow> n < 5"
  "bit (0x3f :: u32) n \<longleftrightarrow> n < 6"
  "bit (0x7000 :: u32) n \<longleftrightarrow> 12 \<le> n \<and> n < 15"
  "bit (0xfe000000 :: u32) n \<longleftrightarrow> 25 \<le> n \<and> n < 32"
  "bit (0xfff00000 :: u32) n \<longleftrightarrow> 20 \<le> n \<and> n < 32"
  "bit (0xfffff000 :: u32) n \<longleftrightarrow> 12 \<le> n \<and> n < 32"
proof -
  have m: "(0x7f :: u32) = mask 7" "(0x1f :: u32) = mask 5" "(0x3f :: u32) = mask 6" 
    "(0x7000 :: u32) = push_bit 12 (mask 3)" "(0xfe000000 :: u32) = push_bit 25 (mask 7)"
    "(0xfff00000 :: u32) = push_bit 20 (mask 12)" "(0xfffff000 :: u32) = push_bit 12 (mask 20)"
    by (simp_all add: mask_eq_exp_minus_1)
  show "bit (0x7f :: u32) n \<longleftrightarrow> n < 7" "bit (0x1f :: u32) n \<longleftrightarrow> n < 5" "bit (0x3f :: u32) n \<longleftrightarrow> n < 6"
    unfolding m by (auto simp: bit_mask_iff)
  show "bit (0x7000 :: u32) n \<longleftrightarrow> 12 \<le> n \<and> n < 15" "bit (0xfe000000 :: u32) n \<longleftrightarrow> 25 \<le> n \<and> n < 32"
    "bit (0xfff00000 :: u32) n \<longleftrightarrow> 20 \<le> n \<and> n < 32" "bit (0xfffff000 :: u32) n \<longleftrightarrow> 12 \<le> n \<and> n < 32"
    unfolding m bit_push_bit_iff bit_mask_iff possible_bit_word by auto
qed

lemma enc_fields:
  "enc f7 rs2 rs1 f3 rd opc AND 0x7f = ucast opc"
  "drop_bit 12 (enc f7 rs2 rs1 f3 rd opc AND 0x7000) = ucast f3"
  "drop_bit 25 (enc f7 rs2 rs1 f3 rd opc AND 0xfe000000) = ucast f7"
  "drop_bit 26 (enc f7 rs2 rs1 f3 rd opc) AND 0x3f = drop_bit 1 (ucast f7)"
  by (rule bit_word_eqI; simp only: bit_field_simps field_masks bit_enc bit_unsigned_iff; auto dest: bit_imp_le_length)+

lemma enc_unpack:
  "unpackInstruction (enc f7 rs2 rs1 f3 rd opc) = (ucast rd, ucast rs1, ucast rs2)"
  unfolding unpackInstruction_def prod.inject
  by (intro conjI; rule bit_word_eqI; simp only: bit_field_simps field_masks bit_enc bit_unsigned_iff; auto dest: bit_imp_le_length)

definition enc_u :: "20 word \<Rightarrow> 5 word \<Rightarrow> 7 word \<Rightarrow> u32" where
  "enc_u imm rd opc = push_bit 12 (ucast imm) OR push_bit 7 (ucast rd) OR ucast opc"

text \<open>Branch and jump offsets are given without their zero bit 0.\<close>

definition enc_b :: "12 word \<Rightarrow> 5 word \<Rightarrow> 5 word \<Rightarrow> 3 word \<Rightarrow> 7 word \<Rightarrow> u32" where
  "enc_b b rs2 rs1 f3 opc =
     enc (push_bit 6 (ucast (drop_bit 11 b)) OR take_bit 6 (ucast (drop_bit 4 b))) rs2 rs1 f3
       (push_bit 1 (take_bit 4 (ucast b)) OR take_bit 1 (ucast (drop_bit 10 b))) opc"

definition enc_j :: "20 word \<Rightarrow> 5 word \<Rightarrow> 7 word \<Rightarrow> u32" where
  "enc_j j rd opc =
     enc_u (push_bit 19 (drop_bit 19 j) OR push_bit 9 (take_bit 10 j)
              OR push_bit 8 (take_bit 1 (drop_bit 10 j)) OR take_bit 8 (drop_bit 11 j)) rd opc"

lemma bit_enc_u:
  "bit (enc_u imm rd opc) n \<longleftrightarrow>
     n < 32 \<and> (if n < 7 then bit opc n else if n < 12 then bit rd (n - 7) else bit imm (n - 12))"
  by (simp only: enc_u_def bit_field_simps bit_unsigned_iff) (auto dest: bit_imp_le_length)

lemma enc_u_fields:
  "enc_u imm rd opc AND 0x7f = ucast opc"
  "fst (unpackInstruction (enc_u imm rd opc)) = ucast rd"
  unfolding unpackInstruction_def fst_conv
  by (rule bit_word_eqI; simp only: bit_field_simps field_masks bit_enc_u bit_unsigned_iff; auto dest: bit_imp_le_length)+

lemmas imm_bits = bit_field_simps field_masks bit_enc bit_enc_u bit_signed_iff bit_unsigned_iff
  bit_signed_drop_bit_iff bit_word_cat_iff bit_take_bit_iff

lemma imm_i_enc: "imm_i (enc f7 rs2 rs1 f3 rd opc) = scast (word_cat f7 rs2 :: 12 word)"
proof (rule bit_word_eqI)
  fix n assume "n < LENGTH(64)"
  then show "bit (imm_i (enc f7 rs2 rs1 f3 rd opc)) n = bit (scast (word_cat f7 rs2 :: 12 word) :: u64) n"
    by (cases "n = 11"; simp only: imm_i_def imm_bits; auto simp: min_def dest: bit_imp_le_length)
qed

lemma imm_u_enc: "imm_u (enc_u imm rd opc) = push_bit 12 (scast imm)"
  unfolding imm_u_def
  by (rule bit_word_eqI; simp only: bit_field_simps field_masks bit_enc_u bit_signed_iff;
      auto simp: min_def dest: bit_imp_le_length)

lemma imm_s_enc: "imm_s (enc f7 rs2 rs1 f3 rd opc) = scast (word_cat f7 rd :: 12 word)"
proof (rule bit_word_eqI)
  fix n assume n: "n < LENGTH(64)"
  have m: "bit (0xffffffffffffffe0 :: u64) n \<longleftrightarrow> 5 \<le> n \<and> n < 64"
  proof -
    have "(0xffffffffffffffe0 :: u64) = push_bit 5 (mask 59)" by (simp add: mask_eq_exp_minus_1)
    then show ?thesis by (simp only: bit_push_bit_iff bit_mask_iff possible_bit_word) auto
  qed
  show "bit (imm_s (enc f7 rs2 rs1 f3 rd opc)) n = bit (scast (word_cat f7 rd :: 12 word) :: u64) n"
    using n by (cases "n = 11"; simp only: imm_s_def imm_bits m; auto simp: min_def dest: bit_imp_le_length)
qed

lemma sign_bit_test: "w AND 0x80000000 \<noteq> 0 \<longleftrightarrow> bit w 31" for w :: u32
proof -
  have "(0x80000000 :: u32) = 2 ^ 31" by simp
  then show ?thesis by (simp only: and_exp_eq_0_iff_not_bit) simp
qed

lemma offset_masks:
  "bit (0xFFFFF000 :: u32) k \<longleftrightarrow> 12 \<le> k \<and> k < 32" "bit (0x80 :: u32) k \<longleftrightarrow> k = 7"
  "bit (0x7E0 :: u32) k \<longleftrightarrow> 5 \<le> k \<and> k < 11" "bit (0x1E :: u32) k \<longleftrightarrow> 1 \<le> k \<and> k < 5"
  "bit (0xff :: u32) k \<longleftrightarrow> k < 8" "bit (0x800 :: u32) k \<longleftrightarrow> k = 11" "bit (0x7fe :: u32) k \<longleftrightarrow> 1 \<le> k \<and> k < 11" 
proof -
  have m: "(0xFFFFF000 :: u32) = push_bit 12 (mask 20)" "(0x80 :: u32) = push_bit 7 (mask 1)" 
    "(0x7E0 :: u32) = push_bit 5 (mask 6)" "(0x1E :: u32) = push_bit 1 (mask 4)"
    "(0xff :: u32) = push_bit 0 (mask 8)" "(0x800 :: u32) = push_bit 11 (mask 1)" "(0x7fe :: u32) = push_bit 1 (mask 10)"
    by (simp_all add: mask_eq_exp_minus_1)
  show "bit (0xFFFFF000 :: u32) k \<longleftrightarrow> 12 \<le> k \<and> k < 32" "bit (0x80 :: u32) k \<longleftrightarrow> k = 7"
    "bit (0x7E0 :: u32) k \<longleftrightarrow> 5 \<le> k \<and> k < 11" "bit (0x1E :: u32) k \<longleftrightarrow> 1 \<le> k \<and> k < 5" 
    "bit (0xff :: u32) k \<longleftrightarrow> k < 8" "bit (0x800 :: u32) k \<longleftrightarrow> k = 11" "bit (0x7fe :: u32) k \<longleftrightarrow> 1 \<le> k \<and> k < 11" 
    by (simp_all only: m bit_push_bit_iff bit_mask_iff possible_bit_word) auto
qed

lemma bit_enc_b:
  "bit (enc_b b rs2 rs1 f3 opc) 31 \<longleftrightarrow> bit b 11"
  "bit (enc_b b rs2 rs1 f3 opc) 7 \<longleftrightarrow> bit b 10"
  "8 \<le> k \<Longrightarrow> k < 12 \<Longrightarrow> bit (enc_b b rs2 rs1 f3 opc) k \<longleftrightarrow> bit b (k - 8)"
  "25 \<le> k \<Longrightarrow> k < 31 \<Longrightarrow> bit (enc_b b rs2 rs1 f3 opc) k \<longleftrightarrow> bit b (k - 21)"
  by (simp_all only: enc_b_def imm_bits) (auto dest: bit_imp_le_length)

lemma imm_b_enc: "imm_b (enc_b b rs2 rs1 f3 opc) = push_bit 1 (scast b)"
proof (rule bit_word_eqI)
  fix n assume n: "n < LENGTH(64)"
  note defs = imm_b_def imm_bits offset_masks sign_bit_test bit_enc_b if_True if_False simp_thms
  let ?I = "enc_b b rs2 rs1 f3 opc"
  let ?W = "(if ?I AND 0x80000000 \<noteq> 0 then 0xFFFFF000 else 0) OR push_bit 4 (?I AND 0x80)
              OR (drop_bit 20 ?I AND 0x7E0) OR (drop_bit 7 ?I AND 0x1E)"
  have W: "bit ?W k \<longleftrightarrow> (if k = 0 then False else if k \<le> 11 then bit b (k - 1) else bit b 11)" if "k < 32" for k
  proof -
    consider "k = 0" | "1 \<le> k" "k < 5" | "5 \<le> k" "k < 11" | "k = 11" | "12 \<le> k" by linarith
    then show ?thesis 
      by cases (simp_all only: bit_field_simps offset_masks sign_bit_test bit_enc_b
          if_distrib [of "\<lambda>w. bit w k"] bit_0_eq, use that in \<open>auto simp: bit_enc_b\<close>)
  qed
  have "bit (imm_b ?I) n \<longleftrightarrow> bit ?W (min 31 n)"
    using n by (simp only: imm_b_def bit_signed_iff possible_bit_word) simp
  also have "\<dots> \<longleftrightarrow> 1 \<le> n \<and> bit b (min 11 (n - 1))"
    by (subst W) (auto simp: min_def not_le intro: arg_cong [where f = "bit b"])
  also have "\<dots> \<longleftrightarrow> bit (push_bit 1 (scast b) :: u64) n"
    using n by (simp only: bit_push_bit_iff bit_signed_iff possible_bit_word) auto
  finally show "bit (imm_b ?I) n = bit (push_bit 1 (scast b) :: u64) n" .
qed

lemma bit_enc_j:
  "bit (enc_j j rd opc) 31 \<longleftrightarrow> bit j 19"
  "bit (enc_j j rd opc) 20 \<longleftrightarrow> bit j 10"
  "21 \<le> k \<Longrightarrow> k < 31 \<Longrightarrow> bit (enc_j j rd opc) k \<longleftrightarrow> bit j (k - 21)"
  "12 \<le> k \<Longrightarrow> k < 20 \<Longrightarrow> bit (enc_j j rd opc) k \<longleftrightarrow> bit j (k - 1)"
  by (simp_all only: enc_j_def imm_bits) (auto dest: bit_imp_le_length)

lemma imm_j_enc: "imm_j (enc_j j rd opc) = push_bit 1 (scast j)"
proof (rule bit_word_eqI)
  fix n assume n: "n < LENGTH(64)"
  let ?I = "enc_j j rd opc"
  let ?W = "(if ?I AND 0x80000000 \<noteq> 0 then 0xfff00000 else 0) OR push_bit 12 (drop_bit 12 ?I AND 0xff)
              OR (drop_bit 9 ?I AND 0x800) OR (drop_bit 20 ?I AND 0x7fe)"
  have W: "bit ?W k \<longleftrightarrow> (if k = 0 then False else if k \<le> 19 then bit j (k - 1) else bit j 19)" if "k < 32" for k
  proof -
    consider "k = 0" | "1 \<le> k" "k < 11" | "k = 11" | "12 \<le> k" "k < 20" | "20 \<le> k" by linarith
    then show ?thesis 
      by cases (simp_all only: bit_field_simps field_masks offset_masks sign_bit_test bit_enc_j
          if_distrib [of "\<lambda>w. bit w k"] bit_0_eq, use that in \<open>auto simp: bit_enc_j\<close>)
  qed
  have "bit (imm_j ?I) n \<longleftrightarrow> bit ?W (min 31 n)"
    using n by (simp only: imm_j_def bit_signed_iff possible_bit_word) simp
  also have "\<dots> \<longleftrightarrow> 1 \<le> n \<and> bit j (min 19 (n - 1))"
    by (subst W) (auto simp: min_def not_le intro: arg_cong [where f = "bit j"])
  also have "\<dots> \<longleftrightarrow> bit (push_bit 1 (scast j) :: u64) n"
    using n by (simp only: bit_push_bit_iff bit_signed_iff possible_bit_word) auto
  finally show "bit (imm_j ?I) n = bit (push_bit 1 (scast j) :: u64) n" .
qed
end
