(* ===== verification/Emu_Isa.thy ===== *)
theory Emu_Isa
  imports Emu_Encode
begin

text \<open>
  A reference semantics of the RV64I instructions the emulator decodes, written from the
  RISC-V manual, and the proof that \<open>InstructionExecutor::execute\<close> implements it on encoded
  instructions.
\<close>

section \<open>What the tables decode\<close>

definition decode_fields :: "u32 \<Rightarrow> u32 \<Rightarrow> u32 \<Rightarrow> insn option" where
  "decode_fields opcode funct3 funct7 =
     (case map_of opcodeTable opcode of Some f \<Rightarrow> Some f
      | None \<Rightarrow> (case map_of instructionMap (opcode, funct3) of Some f \<Rightarrow> Some f
      | None \<Rightarrow> (case map_of instruction2Map (opcode, funct3, funct7) of Some f \<Rightarrow> Some f
      | None \<Rightarrow> map_of instruction2Map (opcode, funct3, drop_bit 1 funct7))))"

lemma decode_enc: "decode (enc f7 rs2 rs1 f3 rd opc) = decode_fields (ucast opc) (ucast f3) (ucast f7)"
  by (simp only: decode_def decode_fields_def enc_fields Let_def)

lemmas tables = decode_fields_def opcodeTable_def instructionMap_def instruction2Map_def

lemma decode_r:
  "decode_fields 0x33 0 0 = Some executeAdd"
  "decode_fields 0x33 0 0x20 = Some executeSUB"
  "decode_fields 0x33 1 0 = Some executeSll"
  "decode_fields 0x33 2 0 = Some executeSlt"
  "decode_fields 0x33 3 0 = Some executeSLTU"
  "decode_fields 0x33 4 0 = Some executeXor"
  "decode_fields 0x33 5 0 = Some executeSrl"
  "decode_fields 0x33 5 0x20 = Some executeSra"
  "decode_fields 0x33 6 0 = Some executeOr"
  "decode_fields 0x33 7 0 = Some executeAnd"
  "decode_fields 0x3b 0 0 = Some executeAddw"
  "decode_fields 0x3b 0 0x20 = Some executeSUBW"
  "decode_fields 0x3b 1 0 = Some executeSLLW"
  "decode_fields 0x3b 5 0 = Some executeSRLW"
  "decode_fields 0x3b 5 0x20 = Some executeSRAW"
  by (simp_all add: tables)

lemma decode_i:
  "decode_fields 0x13 0 f = Some executeAddi"
  "decode_fields 0x13 1 f = Some executeSlli"
  "decode_fields 0x13 2 f = Some executeSlti"
  "decode_fields 0x13 3 f = Some executeSltiu"
  "decode_fields 0x13 4 f = Some executeXori"
  "decode_fields 0x13 6 f = Some executeOri"
  "decode_fields 0x13 7 f = Some executeAndi"
  "decode_fields 0x1b 0 f = Some executeADDIW"
  "decode_fields 0x1b 1 f = Some executeSLLIW"
  "decode_fields 0x1b 5 0 = Some executeSRLIW"
  "decode_fields 0x1b 5 0x20 = Some executeSRAIW"
  "decode_fields 0x13 5 0 = Some executeSrli"
  "decode_fields 0x13 5 1 = Some executeSrli"
  "decode_fields 0x13 5 0x20 = Some executeSrai"
  "decode_fields 0x13 5 0x21 = Some executeSrai"
  by (simp_all add: tables)

lemma decode_mem:
  "decode_fields 0x03 0 f = Some executeLb" "decode_fields 0x03 1 f = Some executeLh"
  "decode_fields 0x03 2 f = Some executeLw" "decode_fields 0x03 3 f = Some executeLd"
  "decode_fields 0x03 4 f = Some executeLbu" "decode_fields 0x03 5 f = Some executeLhu"
  "decode_fields 0x03 6 f = Some executeLwu"
  "decode_fields 0x23 0 f = Some executeStoreByte" "decode_fields 0x23 1 f = Some executeStoreHalf"
  "decode_fields 0x23 2 f = Some executeStoreWord" "decode_fields 0x23 3 f = Some executeStoreDouble"
  by (simp_all add: tables)

lemma decode_ctl:
  "decode_fields 0x63 0 f = Some executeBEQ" "decode_fields 0x63 1 f = Some executeBNE"
  "decode_fields 0x63 4 f = Some executeBLT" "decode_fields 0x63 5 f = Some executeBGE"
  "decode_fields 0x63 6 f = Some executeBLTU" "decode_fields 0x63 7 f = Some executeBGEU"
  "decode_fields 0x17 g f = Some executeAUIPC" "decode_fields 0x37 g f = Some executeLui"
  "decode_fields 0x67 g f = Some executeJALR" "decode_fields 0x6f g f = Some executeJAL"
  by (simp_all add: tables)

lemma decode_sys:
  "decode_fields 0x73 1 f = Some executeCSR_RW" "decode_fields 0x73 2 f = Some executeCSR_RS"
  "decode_fields 0x73 3 f = Some executeCSR_RC" "decode_fields 0x73 5 f = Some executeCSR_RWI"
  "decode_fields 0x73 0 0 = Some executeECALL" "decode_fields 0x73 0 9 = Some executeSFENCE_VMA"
  "decode_fields 0x73 0 8 = Some executeSRET" "decode_fields 0x73 0 0x18 = Some executeMRET"
  "decode_fields 0x0f 0 f = Some executeFence"
  by (simp_all add: tables)


section \<open>The reference instruction set\<close>

type_synonym reg = "5 word"

datatype r_op = R_ADD | R_SUB | R_SLL | R_SLT | R_SLTU | R_XOR | R_SRL | R_SRA | R_OR | R_AND
  | R_ADDW | R_SUBW | R_SLLW | R_SRLW | R_SRAW

datatype i_op = I_ADDI | I_SLTI | I_SLTIU | I_XORI | I_ORI | I_ANDI | I_ADDIW

datatype sh_op = SH_SLLI | SH_SRLI | SH_SRAI

datatype shw_op = SH_SLLIW | SH_SRLIW | SH_SRAIW

datatype l_op = L_LB | L_LH | L_LW | L_LD | L_LBU | L_LHU | L_LWU

datatype s_op = S_SB | S_SH | S_SW | S_SD

datatype b_op = B_EQ | B_NE | B_LT | B_GE | B_LTU | B_GEU

datatype rv =
    RType r_op reg reg reg
  | IType i_op reg reg "12 word"
  | Shift sh_op reg reg "6 word"
  | ShiftW shw_op reg reg "5 word"
  | Load l_op reg reg "12 word"
  | Store s_op reg reg "12 word"
  | Branch b_op reg reg "12 word"
  | Lui reg "20 word"
  | Auipc reg "20 word"
  | Jal reg "20 word"
  | Jalr reg reg "12 word"
  | Csrrw reg reg csr_addr
  | Csrrs reg reg csr_addr
  | Csrrc reg reg csr_addr
  | Csrrwi reg reg csr_addr
  | Fence
  | Sfence_vma reg reg
  | Ecall

text \<open>Encodings: funct7, funct3 and opcode of each operation.\<close>

fun r_fields :: "r_op \<Rightarrow> 7 word \<times> 3 word \<times> 7 word" where
  "r_fields R_ADD = (0, 0, 0x33)" | "r_fields R_SUB = (0x20, 0, 0x33)"
| "r_fields R_SLL = (0, 1, 0x33)" | "r_fields R_SLT = (0, 2, 0x33)"
| "r_fields R_SLTU = (0, 3, 0x33)" | "r_fields R_XOR = (0, 4, 0x33)"
| "r_fields R_SRL = (0, 5, 0x33)" | "r_fields R_SRA = (0x20, 5, 0x33)"
| "r_fields R_OR = (0, 6, 0x33)" | "r_fields R_AND = (0, 7, 0x33)"
| "r_fields R_ADDW = (0, 0, 0x3b)" | "r_fields R_SUBW = (0x20, 0, 0x3b)"
| "r_fields R_SLLW = (0, 1, 0x3b)" | "r_fields R_SRLW = (0, 5, 0x3b)"
| "r_fields R_SRAW = (0x20, 5, 0x3b)"

fun i_fields :: "i_op \<Rightarrow> 3 word \<times> 7 word" where
  "i_fields I_ADDI = (0, 0x13)" | "i_fields I_SLTI = (2, 0x13)" | "i_fields I_SLTIU = (3, 0x13)"
| "i_fields I_XORI = (4, 0x13)" | "i_fields I_ORI = (6, 0x13)" | "i_fields I_ANDI = (7, 0x13)"
| "i_fields I_ADDIW = (0, 0x1b)"

fun l_fields :: "l_op \<Rightarrow> 3 word" where
  "l_fields L_LB = 0" | "l_fields L_LH = 1" | "l_fields L_LW = 2" | "l_fields L_LD = 3"
| "l_fields L_LBU = 4" | "l_fields L_LHU = 5" | "l_fields L_LWU = 6"

fun s_fields :: "s_op \<Rightarrow> 3 word" where
  "s_fields S_SB = 0" | "s_fields S_SH = 1" | "s_fields S_SW = 2" | "s_fields S_SD = 3"

fun b_fields :: "b_op \<Rightarrow> 3 word" where
  "b_fields B_EQ = 0" | "b_fields B_NE = 1" | "b_fields B_LT = 4" | "b_fields B_GE = 5"
| "b_fields B_LTU = 6" | "b_fields B_GEU = 7"

abbreviation imm_hi :: "12 word \<Rightarrow> 7 word" where "imm_hi i \<equiv> ucast (drop_bit 5 i)"
abbreviation imm_lo :: "12 word \<Rightarrow> 5 word" where "imm_lo i \<equiv> ucast i"

fun rv_encode :: "rv \<Rightarrow> u32" where
  "rv_encode (RType op rd rs1 rs2) = (case r_fields op of (f7, f3, opc) \<Rightarrow> enc f7 rs2 rs1 f3 rd opc)"
| "rv_encode (IType op rd rs1 i) =
     (case i_fields op of (f3, opc) \<Rightarrow> enc (imm_hi i) (imm_lo i) rs1 f3 rd opc)"
| "rv_encode (Shift op rd rs1 sh) =
     (case op of SH_SLLI \<Rightarrow> enc (ucast (drop_bit 5 sh)) (ucast sh) rs1 1 rd 0x13
      | SH_SRLI \<Rightarrow> enc (ucast (drop_bit 5 sh)) (ucast sh) rs1 5 rd 0x13
      | SH_SRAI \<Rightarrow> enc (0x20 OR ucast (drop_bit 5 sh)) (ucast sh) rs1 5 rd 0x13)"
| "rv_encode (ShiftW op rd rs1 sh) =
     (case op of SH_SLLIW \<Rightarrow> enc 0 sh rs1 1 rd 0x1b
      | SH_SRLIW \<Rightarrow> enc 0 sh rs1 5 rd 0x1b
      | SH_SRAIW \<Rightarrow> enc 0x20 sh rs1 5 rd 0x1b)"
| "rv_encode (Load op rd rs1 i) = enc (imm_hi i) (imm_lo i) rs1 (l_fields op) rd 0x03"
| "rv_encode (Store op rs1 rs2 i) = enc (imm_hi i) rs2 rs1 (s_fields op) (imm_lo i) 0x23"
| "rv_encode (Branch op rs1 rs2 b) = enc_b b rs2 rs1 (b_fields op) 0x63"
| "rv_encode (Lui rd i) = enc_u i rd 0x37"
| "rv_encode (Auipc rd i) = enc_u i rd 0x17"
| "rv_encode (Jal rd j) = enc_j j rd 0x6f"
| "rv_encode (Jalr rd rs1 i) = enc (imm_hi i) (imm_lo i) rs1 0 rd 0x67"
| "rv_encode (Csrrw rd rs1 a) = enc (imm_hi a) (imm_lo a) rs1 1 rd 0x73"
| "rv_encode (Csrrs rd rs1 a) = enc (imm_hi a) (imm_lo a) rs1 2 rd 0x73"
| "rv_encode (Csrrc rd rs1 a) = enc (imm_hi a) (imm_lo a) rs1 3 rd 0x73"
| "rv_encode (Csrrwi rd z a) = enc (imm_hi a) (imm_lo a) z 5 rd 0x73"
| "rv_encode Fence = 0x0ff0000f"
| "rv_encode (Sfence_vma rs1 rs2) = enc 9 rs2 rs1 0 0 0x73"
| "rv_encode Ecall = 0x00000073"

section \<open>Reference semantics\<close>

text \<open>Register x0 reads as zero and ignores writes.\<close>

definition rv_write :: "reg \<Rightarrow> u64 \<Rightarrow> cpu \<Rightarrow> cpu" where
  "rv_write rd v c = (if rd = 0 then c else c\<lparr>cpu_regs := (cpu_regs c)(rd := v)\<rparr>)"

definition sext32 :: "u32 \<Rightarrow> u64" where "sext32 w = scast w"

fun r_sem :: "r_op \<Rightarrow> u64 \<Rightarrow> u64 \<Rightarrow> u64" where
  "r_sem R_ADD x y = x + y"
| "r_sem R_SUB x y = x - y"
| "r_sem R_SLL x y = push_bit (unat y mod 64) x"
| "r_sem R_SLT x y = (if sint x < sint y then 1 else 0)"
| "r_sem R_SLTU x y = (if x < y then 1 else 0)"
| "r_sem R_XOR x y = x XOR y"
| "r_sem R_SRL x y = drop_bit (unat y mod 64) x"
| "r_sem R_SRA x y = signed_drop_bit (unat y mod 64) x"
| "r_sem R_OR x y = x OR y"
| "r_sem R_AND x y = x AND y"
| "r_sem R_ADDW x y = sext32 (ucast x + ucast y)"
| "r_sem R_SUBW x y = sext32 (ucast x - ucast y)"
| "r_sem R_SLLW x y = sext32 (push_bit (unat y mod 32) (ucast x))"
| "r_sem R_SRLW x y = sext32 (drop_bit (unat y mod 32) (ucast x))"
| "r_sem R_SRAW x y = sext32 (signed_drop_bit (unat y mod 32) (ucast x))"

fun i_sem :: "i_op \<Rightarrow> u64 \<Rightarrow> u64 \<Rightarrow> u64" where
  "i_sem I_ADDI x i = x + i"
| "i_sem I_SLTI x i = (if sint x < sint i then 1 else 0)"
| "i_sem I_SLTIU x i = (if x < i then 1 else 0)"
| "i_sem I_XORI x i = x XOR i"
| "i_sem I_ORI x i = x OR i"
| "i_sem I_ANDI x i = x AND i"
| "i_sem I_ADDIW x i = sext32 (ucast (x + i))"

fun sh_sem :: "sh_op \<Rightarrow> u64 \<Rightarrow> nat \<Rightarrow> u64" where
  "sh_sem SH_SLLI x k = push_bit k x"
| "sh_sem SH_SRLI x k = drop_bit k x"
| "sh_sem SH_SRAI x k = signed_drop_bit k x"

fun shw_sem :: "shw_op \<Rightarrow> u32 \<Rightarrow> nat \<Rightarrow> u32" where
  "shw_sem SH_SLLIW x k = push_bit k x"
| "shw_sem SH_SRLIW x k = drop_bit k x"
| "shw_sem SH_SRAIW x k = signed_drop_bit k x"

fun b_sem :: "b_op \<Rightarrow> u64 \<Rightarrow> u64 \<Rightarrow> bool" where
  "b_sem B_EQ x y = (x = y)"
| "b_sem B_NE x y = (x \<noteq> y)"
| "b_sem B_LT x y = (sint x < sint y)"
| "b_sem B_GE x y = (sint x \<ge> sint y)"
| "b_sem B_LTU x y = (x < y)"
| "b_sem B_GEU x y = (x \<ge> y)"

fun l_width :: "l_op \<Rightarrow> u64" where
  "l_width L_LB = 8" | "l_width L_LH = 16" | "l_width L_LW = 32" | "l_width L_LD = 64"
| "l_width L_LBU = 8" | "l_width L_LHU = 16" | "l_width L_LWU = 32"

fun l_ext :: "l_op \<Rightarrow> u64 \<Rightarrow> u64" where
  "l_ext L_LB v = scast (ucast v :: u8)"
| "l_ext L_LH v = scast (ucast v :: u16)"
| "l_ext L_LW v = scast (ucast v :: u32)"
| "l_ext L_LD v = v"
| "l_ext L_LBU v = take_bit 8 v"
| "l_ext L_LHU v = take_bit 16 v"
| "l_ext L_LWU v = take_bit 32 v"

fun s_width :: "s_op \<Rightarrow> u64" where
  "s_width S_SB = 8" | "s_width S_SH = 16" | "s_width S_SW = 32" | "s_width S_SD = 64"

definition rv_next :: "cpu \<Rightarrow> u64 option outcome \<times> cpu" where
  "rv_next c = (Ret (Some (cpu_pc c + 4)), c)"

definition rv_csr :: "reg \<Rightarrow> csr_addr \<Rightarrow> (u64 \<Rightarrow> u64) \<Rightarrow> cpu \<Rightarrow> u64 option outcome \<times> cpu" where
  "rv_csr rd a f c =
     (let t = csr_load (cpu_csr c) a
      in rv_next (rv_write rd t (c\<lparr>cpu_csr := csr_store (cpu_csr c) a (f t)\<rparr>)))"

fun rv_step :: "rv \<Rightarrow> cpu \<Rightarrow> u64 option outcome \<times> cpu" where
  "rv_step (RType op rd rs1 rs2) c = rv_next (rv_write rd (r_sem op (cpu_regs c rs1) (cpu_regs c rs2)) c)"
| "rv_step (IType op rd rs1 i) c = rv_next (rv_write rd (i_sem op (cpu_regs c rs1) (scast i)) c)"
| "rv_step (Shift op rd rs1 sh) c = rv_next (rv_write rd (sh_sem op (cpu_regs c rs1) (unat sh)) c)"
| "rv_step (ShiftW op rd rs1 sh) c =
     rv_next (rv_write rd (sext32 (shw_sem op (ucast (cpu_regs c rs1)) (unat sh))) c)"
| "rv_step (Load op rd rs1 i) c =
     xbind (cpu_load (cpu_regs c rs1 + scast i) (l_width op) c) (\<lambda>v c.
       case v of Some v \<Rightarrow> rv_next (rv_write rd (l_ext op v) c) | None \<Rightarrow> (Undefined, c))"
| "rv_step (Store op rs1 rs2 i) c =
     xbind (cpu_store (cpu_regs c rs1 + scast i) (s_width op) (cpu_regs c rs2) c) (\<lambda>_. rv_next)"
| "rv_step (Branch op rs1 rs2 b) c =
     (if b_sem op (cpu_regs c rs1) (cpu_regs c rs2)
      then (Ret (Some (cpu_pc c + push_bit 1 (scast b))), c) else rv_next c)"
| "rv_step (Lui rd i) c = rv_next (rv_write rd (push_bit 12 (scast i)) c)"
| "rv_step (Auipc rd i) c = rv_next (rv_write rd (cpu_pc c + push_bit 12 (scast i)) c)"
| "rv_step (Jal rd j) c = (Ret (Some (cpu_pc c + push_bit 1 (scast j))), rv_write rd (cpu_pc c + 4) c)"
| "rv_step (Jalr rd rs1 i) c =
     (Ret (Some ((cpu_regs c rs1 + scast i) AND NOT 1)), rv_write rd (cpu_pc c + 4) c)"
| "rv_step (Csrrw rd rs1 a) c = rv_csr rd a (\<lambda>_. cpu_regs c rs1) c"
| "rv_step (Csrrs rd rs1 a) c = rv_csr rd a (\<lambda>t. t OR cpu_regs c rs1) c"
| "rv_step (Csrrc rd rs1 a) c = rv_csr rd a (\<lambda>t. t AND NOT (cpu_regs c rs1)) c"
| "rv_step (Csrrwi rd z a) c = rv_csr rd a (\<lambda>_. ucast z) c"
| "rv_step Fence c = rv_next c"
| "rv_step (Sfence_vma rs1 rs2) c = rv_next c"
| "rv_step Ecall c =
     (Throw (Exception (if cpu_mode c = User then EnvironmentCallFromUMode
        else if cpu_mode c = Supervisor then EnvironmentCallFromSMode
        else EnvironmentCallFromMMode) 0x73), c)"
end
