(* ===== verification/Emu_Refine.thy ===== *)
theory Emu_Refine
  imports Emu_Isa
begin

text \<open>
  \<open>InstructionExecutor::execute\<close> implements the reference instruction set: on the encoding of
  an instruction it computes the reference step of the architectural state.
\<close>

section \<open>Architectural state and side conditions\<close>

text \<open>The architectural state: register x0 is zero.\<close>

definition arch :: "cpu \<Rightarrow> cpu" where
  "arch c = c\<lparr>cpu_regs := (cpu_regs c)(0 := 0)\<rparr>"

text \<open>
  The conditions under which the C++ code computes what the manual asks for.
\<close>

fun rv_ok :: "cpu \<Rightarrow> rv \<Rightarrow> bool" where
  "rv_ok c (RType op rd rs1 rs2) =
     (let x = cpu_regs c rs1; y = cpu_regs c rs2;
          sx = sint (ucast x :: u32); sy = sint (ucast y :: u32)
      in case op of R_SLL \<Rightarrow> y < 64 | R_SRL \<Rightarrow> y < 64 | R_SRA \<Rightarrow> y < 64
         | R_ADDW \<Rightarrow> - (2 ^ 31) \<le> sx + sy \<and> sx + sy < 2 ^ 31
         | R_SUBW \<Rightarrow> - (2 ^ 31) \<le> sx - sy \<and> sx - sy < 2 ^ 31
         | _ \<Rightarrow> True)"
| "rv_ok c (IType op rd rs1 i) =
     (case op of I_SLTI \<Rightarrow> bit (cpu_regs c rs1) 63 = bit i 11 | I_SLTIU \<Rightarrow> \<not> bit i 11 | _ \<Rightarrow> True)"
| "rv_ok c (Csrrs rd rs1 a) = (rd \<noteq> rs1)"
| "rv_ok c (Csrrc rd rs1 a) = (rd \<noteq> rs1)"
| "rv_ok c _ = True"

lemma ucast_ucast5 [simp]: "ucast (ucast (r :: 5 word) :: u32) = r"
  by (rule bit_word_eqI) (auto simp: bit_simps)

lemma ucast_u32_u64 [simp]: "(ucast (ucast (r :: 5 word) :: u32) :: u64) = ucast r"
  by (rule bit_word_eqI) (auto simp: bit_simps dest: bit_imp_le_length)

lemma rX_ucast [simp]: "rX c (ucast (r :: 5 word)) = cpu_regs c r"
  by (simp add: rX_def)

lemma arch_regs [simp]: "cpu_regs (arch c) 0 = 0" "arch (arch c) = arch c"
  by (simp_all add: arch_def)

lemma arch_id: "cpu_regs c 0 = 0 \<Longrightarrow> arch c = c"
  by (cases c) (auto simp: arch_def fun_eq_iff)

lemma arch_wX: "cpu_regs c 0 = 0 \<Longrightarrow> arch (wX (ucast (rd :: 5 word)) v c) = rv_write rd v c"
  by (cases c) (auto simp: arch_def wX_def rv_write_def fun_eq_iff)

lemma cpu_load_regs: "cpu_load a sz c = (r, c') \<Longrightarrow> cpu_regs c' = cpu_regs c"
  by (auto simp: cpu_load_def cpu_translate_def cpu_bus_load_def lift_part_def xbind_def
      split: prod.splits outcome.splits)

lemma cpu_store_regs: "cpu_store a sz v c = (r, c') \<Longrightarrow> cpu_regs c' = cpu_regs c"
  by (auto simp: cpu_store_def cpu_translate_def cpu_bus_store_def lift_part_def xbind_def
      split: prod.splits outcome.splits)

lemma dram_load_not_None: "dram_load d a sz \<noteq> Ret None"
  by (simp add: dram_load_def Let_def)

lemma ret_some_not_None: "xbind m (\<lambda>v b. (Ret (Some v), b)) \<noteq> (Ret None, b')"
  by (auto simp: xbind_def split: prod.splits outcome.splits)

lemma bus_load_not_None: "bus_load b a sz \<noteq> (Ret None, b')"
  by (simp add: bus_load_def dram_load_not_None ret_some_not_None)

lemma bus_store_True: "bus_store b a sz v = (Ret ok, b') \<Longrightarrow> ok"
  by (auto simp: bus_store_def dram_store_def xbind_def lift_part_def Let_def
      split: prod.splits outcome.splits if_splits)

lemma cpu_load_not_None: "cpu_load a sz c \<noteq> (Ret None, c')"
  using bus_load_not_None
  by (fastforce simp: cpu_load_def cpu_bus_load_def lift_part_def xbind_def
      split: prod.splits outcome.splits)

lemma cpu_store_True: "cpu_store a sz v c = (Ret ok, c') \<Longrightarrow> ok"
  using bus_store_True
  by (fastforce simp: cpu_store_def cpu_bus_store_def lift_part_def xbind_def
      split: prod.splits outcome.splits)

lemma imm_split [simp]: "word_cat (imm_hi i) (imm_lo i) = i"
  by (rule bit_word_eqI) (auto simp: bit_word_cat_iff bit_simps)


definition archr :: "'a outcome \<times> cpu \<Rightarrow> 'a outcome \<times> cpu" where
  "archr m = (fst m, arch (snd m))"

lemma archr_pair [simp]: "archr (r, c) = (r, arch c)"
  by (simp add: archr_def)

lemma executor_arch:
  assumes "decode w = Some f" and "archr (f (arch c) w) = R" and "fst R \<noteq> Ret None"
  shows "archr (executor_execute c w) = R"
proof -
  obtain r c' where f: "f (arch c) w = (r, c')" by (cases "f (arch c) w") auto
  then have "r \<noteq> Ret None" using assms(2,3) by (auto simp: archr_def)
  then have "executor_execute c w = (r, c')"
    using assms(1) f by (cases r) (auto simp: executor_execute_def arch_def split: option.splits)
  then show ?thesis using assms(2) f by simp
qed

lemma pc_write [simp]:
  "update_pc (wX r v c) = cpu_pc c + 4" "cpu_pc (rv_write rd v c) = cpu_pc c"
  by (simp_all add: update_pc_def wX_def rv_write_def)

lemma archr_ret_next:
  "cpu_regs c 0 = 0 \<Longrightarrow> archr (ret_next (wX (ucast (rd :: reg)) v c)) = rv_next (rv_write rd v c)"
  by (simp add: archr_def ret_next_def rv_next_def arch_wX)

lemma archr_ret_next0: "cpu_regs c 0 = 0 \<Longrightarrow> archr (ret_next c) = rv_next c"
  by (simp add: archr_def ret_next_def rv_next_def arch_id update_pc_def)

lemma rv_next_not_None [simp]: "fst (rv_next c) \<noteq> Ret None"
  by (simp add: rv_next_def)

lemma mod_64_and: "unat (y AND 0x3f) = unat y mod 64" for y :: u64
proof -
  have "unat (y AND 0x3f) = unat (take_bit 6 y)" by (simp only: take_bit_eq_mask mask_eq_exp_minus_1) simp
  also have "\<dots> = unat y mod 64" by (simp only: unsigned_take_bit_eq) (simp add: take_bit_eq_mod)
  finally show ?thesis .
qed

lemma mod_32_and: "unat (y AND 0x1f) = unat y mod 32" for y :: u64
proof -
  have "unat (y AND 0x1f) = unat (take_bit 5 y)" by (simp only: take_bit_eq_mask mask_eq_exp_minus_1) simp
  also have "\<dots> = unat y mod 32" by (simp only: unsigned_take_bit_eq) (simp add: take_bit_eq_mod)
  finally show ?thesis .
qed

lemma lt_64_mod: "y < 64 \<Longrightarrow> unat y mod 64 = unat y" for y :: u64
  by (simp add: word_less_nat_alt)

lemma lt_64_not_le: "y < 64 \<Longrightarrow> \<not> 64 \<le> y" for y :: u64
  by simp

lemma sext32_of_int:
  assumes "- (2 ^ 31) \<le> r" "r < 2 ^ 31"
  shows "word_of_int r = sext32 (word_of_int r)"
proof -
  have "sint (word_of_int r :: u32) = r"
    using assms by (simp add: signed_of_int signed_take_bit_int_eq_self)
  then show ?thesis unfolding sext32_def by (metis scast_eq)
qed

lemma int32_sem:
  fixes x y :: u64
  defines "sx \<equiv> sint (ucast x :: u32)" and "sy \<equiv> sint (ucast y :: u32)"
  shows "- (2 ^ 31) \<le> sx + sy \<Longrightarrow> sx + sy < 2 ^ 31 \<Longrightarrow> word_of_int (sx + sy) = sext32 (ucast x + ucast y)"
    and "- (2 ^ 31) \<le> sx - sy \<Longrightarrow> sx - sy < 2 ^ 31 \<Longrightarrow> word_of_int (sx - sy) = sext32 (ucast x - ucast y)"
  using sext32_of_int [of "sx + sy"] sext32_of_int [of "sx - sy"]
  by (simp_all add: sx_def sy_def)

lemmas alu_sem =
  decode_enc decode_r decode_i enc_unpack archr_ret_next lt_64_mod mod_32_and
  word_sless_alt word_sle_eq lt_64_not_le
  alu_reg_def alu_imm_def shift_reg_def shift_reg_w_def shift_imm_w_def int32_op_def
  imm_i_enc Let_def

lemma refine_R:
  assumes "rv_ok (arch c) (RType op rd rs1 rs2)"
  shows "archr (executor_execute c (rv_encode (RType op rd rs1 rs2))) = rv_step (RType op rd rs1 rs2) (arch c)"
proof (cases op)
  case R_ADD
  then show ?thesis using assms
    by (intro executor_arch [where f = executeAdd]) (simp_all add: alu_sem executeAdd_def)
next
  case R_SUB
  then show ?thesis using assms
    by (intro executor_arch [where f = executeSUB]) (simp_all add: alu_sem executeSUB_def)
next
  case R_SLL
  then show ?thesis using assms
    by (intro executor_arch [where f = executeSll]) (simp_all add: alu_sem executeSll_def)
next
  case R_SLT
  then show ?thesis using assms
    by (intro executor_arch [where f = executeSlt]) (simp_all add: alu_sem executeSlt_def)
next
  case R_SLTU
  then show ?thesis using assms
    by (intro executor_arch [where f = executeSLTU]) (simp_all add: alu_sem executeSLTU_def)
next
  case R_XOR
  then show ?thesis using assms
    by (intro executor_arch [where f = executeXor]) (simp_all add: alu_sem executeXor_def)
next
  case R_SRL
  then show ?thesis using assms
    by (intro executor_arch [where f = executeSrl]) (simp_all add: alu_sem executeSrl_def)
next
  case R_SRA
  then show ?thesis using assms
    by (intro executor_arch [where f = executeSra]) (simp_all add: alu_sem executeSra_def)
next
  case R_OR
  then show ?thesis using assms
    by (intro executor_arch [where f = executeOr]) (simp_all add: alu_sem executeOr_def)
next
  case R_AND
  then show ?thesis using assms
    by (intro executor_arch [where f = executeAnd]) (simp_all add: alu_sem executeAnd_def)
next
  case R_ADDW
  then show ?thesis using assms
    by (intro executor_arch [where f = executeAddw]) (simp_all add: alu_sem executeAddw_def int32_sem [simplified])
next
  case R_SUBW
  then show ?thesis using assms
    by (intro executor_arch [where f = executeSUBW]) (simp_all add: alu_sem executeSUBW_def int32_sem [simplified])
next
  case R_SLLW
  then show ?thesis using assms
    by (intro executor_arch [where f = executeSLLW]) (simp_all add: alu_sem executeSLLW_def sext32_def)
next
  case R_SRLW
  then show ?thesis using assms
    by (intro executor_arch [where f = executeSRLW]) (simp_all add: alu_sem executeSRLW_def sext32_def)
next
  case R_SRAW
  then show ?thesis using assms
    by (intro executor_arch [where f = executeSRAW]) (simp_all add: alu_sem executeSRAW_def sext32_def)
qed

lemma imm_bit11: "bit (scast i :: u64) 63 = bit i 11" for i :: "12 word"
  by (simp add: bit_signed_iff)

lemma slt_same_sign:
  fixes x y :: u64
  assumes "bit x 63 = bit y 63"
  shows "(x < y) = (sint x < sint y)"
proof -
  have "sint w = uint w - 2 ^ 64 * of_bool (bit w 63)" for w :: u64
    using unsigned_less [of w, where ?'a = int]
    by (simp add: sint_uint signed_take_bit_eq_take_bit_minus bit_unsigned_iff take_bit_int_eq_self)
  then show ?thesis using assms by (simp add: word_less_def)
qed

lemma imm_pos: "\<not> bit i 11 \<Longrightarrow> (ucast (ucast (scast i :: u64) :: u32) :: u64) = scast i" for i :: "12 word"
  by (rule bit_word_eqI) (auto simp: bit_unsigned_iff bit_signed_iff min_def)

lemma refine_I:
  assumes "rv_ok (arch c) (IType op rd rs1 i)"
  shows "archr (executor_execute c (rv_encode (IType op rd rs1 i))) = rv_step (IType op rd rs1 i) (arch c)"
proof (cases op)
  case I_ADDI
  then show ?thesis using assms
    by (intro executor_arch [where f = executeAddi]) (simp_all add: alu_sem executeAddi_def)
next
  case I_XORI
  then show ?thesis using assms
    by (intro executor_arch [where f = executeXori]) (simp_all add: alu_sem executeXori_def)
next
  case I_ORI
  then show ?thesis using assms
    by (intro executor_arch [where f = executeOri]) (simp_all add: alu_sem executeOri_def)
next
  case I_ANDI
  then show ?thesis using assms
    by (intro executor_arch [where f = executeAndi]) (simp_all add: alu_sem executeAndi_def)
next
  case I_ADDIW
  then show ?thesis using assms
    by (intro executor_arch [where f = executeADDIW]) (simp_all add: alu_sem executeADDIW_def sext32_def)
next
  case I_SLTI
  then show ?thesis using assms
    by (intro executor_arch [where f = executeSlti]) (simp_all add: alu_sem executeSlti_def imm_bit11 slt_same_sign)
next
  case I_SLTIU
  then show ?thesis using assms
    by (intro executor_arch [where f = executeSltiu]) (simp_all add: alu_sem executeSltiu_def imm_pos)
qed


lemma bit_0x3f_u64: "bit (0x3f :: u64) n \<longleftrightarrow> n < 6"
proof -
  have "(0x3f :: u64) = mask 6" by (simp add: mask_eq_exp_minus_1)
  then show ?thesis by (simp only: bit_mask_iff) auto
qed

lemma shamt_imm:
  fixes sh :: "6 word" and f7 :: "7 word"
  assumes "bit f7 0 = bit sh 5"
  shows "(scast (word_cat f7 (ucast sh :: 5 word) :: 12 word) :: u64) AND 0x3f = ucast sh"
proof (rule bit_word_eqI)
  fix n assume "n < LENGTH(64)"
  then show "bit ((scast (word_cat f7 (ucast sh :: 5 word) :: 12 word) :: u64) AND 0x3f) n = bit (ucast sh :: u64) n"
    using assms by (cases "n = 5"; simp only: bit_and_iff bit_0x3f_u64 bit_signed_iff bit_word_cat_iff bit_unsigned_iff)
      (auto dest: bit_imp_le_length)
qed

lemma unat_ucast6: "unat (ucast (sh :: 6 word) :: u64) = unat sh"
  using unsigned_less [of sh, where ?'a = nat] by (simp add: unsigned_ucast_eq take_bit_nat_eq_self)

lemma top_bit6: "drop_bit 5 (sh :: 6 word) = 0 \<or> drop_bit 5 sh = 1"
proof -
  have "unat (drop_bit 5 sh) = drop_bit 5 (take_bit 6 (unat sh))"
    by (simp only: unsigned_drop_bit_eq) simp
  then have "unat (drop_bit 5 sh) < 2"
    using mod_less_divisor [of 64 "unat sh"] by (simp add: drop_bit_nat_def take_bit_nat_def)
  then have "unat (drop_bit 5 sh) = 0 \<or> unat (drop_bit 5 sh) = 1" by linarith
  then show ?thesis by (metis unsigned_0 unsigned_1 word_unat_eq_iff)
qed

lemma refine_Shift:
  "archr (executor_execute c (rv_encode (Shift op rd rs1 sh))) = rv_step (Shift op rd rs1 sh) (arch c)"
proof -
  have b: "bit (ucast (drop_bit 5 sh) :: 7 word) 0 = bit sh 5" "bit (0x20 OR ucast (drop_bit 5 sh) :: 7 word) 0 = bit sh 5"
    by (simp_all add: bit_unsigned_iff bit_drop_bit_eq bit_or_iff del: bit_0)
  note sem = alu_sem shamt_imm [OF b(1)] shamt_imm [OF b(2)] unat_ucast6
  have d: "decode_fields 0x13 5 (ucast (ucast (drop_bit 5 sh) :: 7 word)) = Some executeSrli"
    "decode_fields 0x13 5 (ucast (0x20 OR ucast (drop_bit 5 sh) :: 7 word)) = Some executeSrai"
    using top_bit6 [of sh] by (auto simp: decode_i)
  show ?thesis
  proof (cases op)
    case SH_SLLI
    then show ?thesis
      by (intro executor_arch [where f = executeSlli]) (simp_all add: sem executeSlli_def)
  next
    case SH_SRLI
    then show ?thesis
      by (intro executor_arch [where f = executeSrli]) (simp_all add: sem d executeSrli_def)
  next
    case SH_SRAI
    then show ?thesis
      by (intro executor_arch [where f = executeSrai]) (simp_all add: sem d executeSrai_def)
  qed
qed

lemma shamtw:
  fixes rs2 :: reg
  shows "unat (drop_bit 20 (enc f7 rs2 rs1 f3 rd opc) AND 0x1f) = unat rs2"
proof -
  have "drop_bit 20 (enc f7 rs2 rs1 f3 rd opc) AND 0x1f = ucast rs2"
    using enc_unpack [of f7 rs2 rs1 f3 rd opc] by (simp add: unpackInstruction_def)
  then show ?thesis
    using unsigned_less [of rs2, where ?'a = nat] by (simp add: unsigned_ucast_eq take_bit_nat_eq_self)
qed

lemma refine_ShiftW:
  "archr (executor_execute c (rv_encode (ShiftW op rd rs1 sh))) = rv_step (ShiftW op rd rs1 sh) (arch c)"
proof (cases op)
  case SH_SLLIW
  then show ?thesis
    by (intro executor_arch [where f = executeSLLIW]) (simp_all add: alu_sem shamtw executeSLLIW_def sext32_def)
next
  case SH_SRLIW
  then show ?thesis
    by (intro executor_arch [where f = executeSRLIW]) (simp_all add: alu_sem shamtw executeSRLIW_def sext32_def)
next
  case SH_SRAIW
  then show ?thesis
    by (intro executor_arch [where f = executeSRAIW]) (simp_all add: alu_sem shamtw executeSRAIW_def sext32_def)
qed

lemma xbind_load:
  assumes "cpu_regs c 0 = 0"
  shows "archr (xbind (cpu_load a sz c) (\<lambda>v c. case v of Some v \<Rightarrow> ret_next (wX (ucast (rd :: reg)) (ext v) c) | None \<Rightarrow> (Ret None, c)))
    = xbind (cpu_load a sz c) (\<lambda>v c. case v of Some v \<Rightarrow> rv_next (rv_write rd (ext v) c) | None \<Rightarrow> (Undefined, c))"
proof -
  obtain r c' where l: "cpu_load a sz c = (r, c')" by (cases "cpu_load a sz c") auto
  then have "cpu_regs c' 0 = 0" "r \<noteq> Ret None"
    using cpu_load_regs [OF l] cpu_load_not_None [of a sz c c'] assms by auto
  then show ?thesis
    unfolding l by (cases r) (auto simp: archr_ret_next arch_id split: option.splits)
qed

lemma xbind_store:
  assumes "cpu_regs c 0 = 0"
  shows "archr (xbind (cpu_store a sz v c) (\<lambda>_. ret_next)) = xbind (cpu_store a sz v c) (\<lambda>_. rv_next)"
    "archr (xbind (cpu_store a sz v c) (\<lambda>ok c. if ok then ret_next c else (Ret None, c))) = xbind (cpu_store a sz v c) (\<lambda>_. rv_next)"
proof -
  obtain r c' where l: "cpu_store a sz v c = (r, c')" by (cases "cpu_store a sz v c") auto
  then have "cpu_regs c' 0 = 0" "r \<noteq> Ret False"
    using cpu_store_regs [OF l] cpu_store_True [of a sz v c _ c'] assms by auto
  then show "archr (xbind (cpu_store a sz v c) (\<lambda>_. ret_next)) = xbind (cpu_store a sz v c) (\<lambda>_. rv_next)"
    "archr (xbind (cpu_store a sz v c) (\<lambda>ok c. if ok then ret_next c else (Ret None, c))) = xbind (cpu_store a sz v c) (\<lambda>_. rv_next)"
    unfolding l by (cases r; auto simp: archr_ret_next0 arch_id)+
qed

lemma xbind_not_None:
  "(\<And>v s. fst (k v s) \<noteq> Ret None) \<Longrightarrow> fst (xbind m k) \<noteq> Ret None"
  for m :: "'a outcome \<times> 's" and k :: "'a \<Rightarrow> 's \<Rightarrow> 'b option outcome \<times> 's"
  by (cases m; cases "fst m") (auto simp: xbind_def)

lemma ext_masks:
  fixes v :: u64
  shows "v AND 0xff = take_bit 8 v" "v AND 0xffff = take_bit 16 v" "v AND 0xffffffff = take_bit 32 v"
    "ucast (take_bit 8 v) = (ucast v :: u8)" "ucast (take_bit 16 v) = (ucast v :: u16)"
    "ucast (take_bit 32 v) = (ucast v :: u32)"
proof -
  show "v AND 0xff = take_bit 8 v" "v AND 0xffff = take_bit 16 v" "v AND 0xffffffff = take_bit 32 v"
    by (simp_all only: take_bit_eq_mask mask_eq_exp_minus_1) simp_all
qed (rule bit_word_eqI; auto simp: bit_unsigned_iff bit_take_bit_iff)+

lemma load_insns:
  "executeLb = load_insn 8 (l_ext L_LB)"
  "executeLh = load_insn 16 (l_ext L_LH)"
  "executeLw = load_insn 32 (l_ext L_LW)"
  "executeLd = load_insn 64 (l_ext L_LD)"
  "executeLbu = load_insn 8 (l_ext L_LBU)"
  "executeLhu = load_insn 16 (l_ext L_LHU)"
  "executeLwu = load_insn 32 (l_ext L_LWU)"
  unfolding executeLb_def executeLh_def executeLw_def executeLd_def executeLbu_def executeLhu_def
    executeLwu_def
  by (rule arg_cong [where f = "load_insn _"], rule ext, simp only: l_ext.simps ext_masks)+

lemmas mem_sem = decode_enc decode_mem enc_unpack imm_i_enc imm_s_enc load_insn_def store_insn_def
  xbind_load xbind_store Let_def

lemma refine_Load:
  "archr (executor_execute c (rv_encode (Load op rd rs1 i))) = rv_step (Load op rd rs1 i) (arch c)"
proof (cases op)
  case L_LB
  then show ?thesis
    by (intro executor_arch [where f = executeLb])
      (simp_all add: mem_sem load_insns, auto intro!: xbind_not_None split: option.splits)
next
  case L_LH
  then show ?thesis
    by (intro executor_arch [where f = executeLh])
      (simp_all add: mem_sem load_insns, auto intro!: xbind_not_None split: option.splits)
next
  case L_LW
  then show ?thesis
    by (intro executor_arch [where f = executeLw])
      (simp_all add: mem_sem load_insns, auto intro!: xbind_not_None split: option.splits)
next
  case L_LD
  then show ?thesis
    by (intro executor_arch [where f = executeLd])
      (simp_all add: mem_sem load_insns, auto intro!: xbind_not_None split: option.splits)
next
  case L_LBU
  then show ?thesis
    by (intro executor_arch [where f = executeLbu])
      (simp_all add: mem_sem load_insns, auto intro!: xbind_not_None split: option.splits)
next
  case L_LHU
  then show ?thesis
    by (intro executor_arch [where f = executeLhu])
      (simp_all add: mem_sem load_insns, auto intro!: xbind_not_None split: option.splits)
next
  case L_LWU
  then show ?thesis
    by (intro executor_arch [where f = executeLwu])
      (simp_all add: mem_sem load_insns, auto intro!: xbind_not_None split: option.splits)
qed

lemma refine_Store:
  "archr (executor_execute c (rv_encode (Store op rs1 rs2 i))) = rv_step (Store op rs1 rs2 i) (arch c)"
proof (cases op)
  case S_SB
  then show ?thesis
    by (intro executor_arch [where f = executeStoreByte])
      (simp_all add: mem_sem executeStoreByte_def xbind_not_None)
next
  case S_SH
  then show ?thesis
    by (intro executor_arch [where f = executeStoreHalf])
      (simp_all add: mem_sem executeStoreHalf_def xbind_not_None)
next
  case S_SW
  then show ?thesis
    by (intro executor_arch [where f = executeStoreWord])
      (simp_all add: mem_sem executeStoreWord_def xbind_not_None)
next
  case S_SD
  then show ?thesis
    by (intro executor_arch [where f = executeStoreDouble])
      (simp_all add: mem_sem executeStoreDouble_def xbind_not_None)
qed

lemma enc_b_unpack:
  "decode (enc_b b rs2 rs1 f3 opc) = decode_fields (ucast opc) (ucast f3)
     (ucast (push_bit 6 (ucast (drop_bit 11 b)) OR take_bit 6 (ucast (drop_bit 4 b)) :: 7 word))"
  "\<exists>r. unpackInstruction (enc_b b rs2 rs1 f3 opc) = (r, ucast rs1, ucast rs2)"
  by (simp_all only: enc_b_def decode_enc enc_unpack) auto

lemma refine_Branch:
  "archr (executor_execute c (rv_encode (Branch op rs1 rs2 b))) = rv_step (Branch op rs1 rs2 b) (arch c)"
proof -
  obtain r where u: "unpackInstruction (enc_b b rs2 rs1 (b_fields op) 0x63) = (r, ucast rs1, ucast rs2)"
    using enc_b_unpack(2) by blast
  note sem = enc_b_unpack(1) decode_ctl u imm_b_enc branch_def archr_ret_next0 arch_id
    word_sless_alt word_sle_eq
  show ?thesis
  proof (cases op)
    case B_EQ
    then show ?thesis using u
      by (intro executor_arch [where f = executeBEQ]) (simp_all add: sem executeBEQ_def)
  next
    case B_NE
    then show ?thesis using u
      by (intro executor_arch [where f = executeBNE]) (simp_all add: sem executeBNE_def)
  next
    case B_LT
    then show ?thesis using u
      by (intro executor_arch [where f = executeBLT]) (simp_all add: sem executeBLT_def)
  next
    case B_GE
    then show ?thesis using u
      by (intro executor_arch [where f = executeBGE]) (simp_all add: sem executeBGE_def)
  next
    case B_LTU
    then show ?thesis using u
      by (intro executor_arch [where f = executeBLTU]) (simp_all add: sem executeBLTU_def)
  next
    case B_GEU
    then show ?thesis using u
      by (intro executor_arch [where f = executeBGEU]) (simp_all add: sem executeBGEU_def)
  qed
qed

lemma enc_u_unpack: "\<exists>a b. unpackInstruction (enc_u i rd opc) = (ucast rd, a, b)"
  using enc_u_fields(2) [of i rd opc] by (cases "unpackInstruction (enc_u i rd opc)") auto

lemma decode_u:
  "decode (enc_u i rd 0x37) = Some executeLui" "decode (enc_u i rd 0x17) = Some executeAUIPC"
  "decode (enc_u i rd 0x6f) = Some executeJAL"
  by (simp_all add: decode_def enc_u_fields opcodeTable_def Let_def)

lemma refine_U:
  "archr (executor_execute c (rv_encode (Lui rd i))) = rv_step (Lui rd i) (arch c)"
  "archr (executor_execute c (rv_encode (Auipc rd i))) = rv_step (Auipc rd i) (arch c)"
  "archr (executor_execute c (rv_encode (Jal rd i))) = rv_step (Jal rd i) (arch c)"
proof -
  obtain a b where u: "unpackInstruction (enc_u i rd 0x37) = (ucast rd, a, b)" using enc_u_unpack by blast
  show "archr (executor_execute c (rv_encode (Lui rd i))) = rv_step (Lui rd i) (arch c)"
    by (rule executor_arch [where f = executeLui])
      (simp_all add: decode_u executeLui_def u imm_u_enc archr_ret_next)
next
  obtain a b where u: "unpackInstruction (enc_u i rd 0x17) = (ucast rd, a, b)" using enc_u_unpack by blast
  show "archr (executor_execute c (rv_encode (Auipc rd i))) = rv_step (Auipc rd i) (arch c)"
    by (rule executor_arch [where f = executeAUIPC])
      (simp_all add: decode_u executeAUIPC_def u imm_u_enc archr_ret_next)
next
  obtain a b where u: "unpackInstruction (enc_j i rd 0x6f) = (ucast rd, a, b)"
    unfolding enc_j_def using enc_u_unpack by blast
  show "archr (executor_execute c (rv_encode (Jal rd i))) = rv_step (Jal rd i) (arch c)"
    by (rule executor_arch [where f = executeJAL])
      (simp_all add: executeJAL_def u imm_j_enc arch_wX, simp add: enc_j_def decode_u)
qed

lemma refine_Jalr:
  "archr (executor_execute c (rv_encode (Jalr rd rs1 i))) = rv_step (Jalr rd rs1 i) (arch c)"
  by (rule executor_arch [where f = executeJALR])
    (simp_all add: decode_enc decode_ctl enc_unpack executeJALR_def imm_i_enc arch_wX Let_def)

lemma csr_addr_enc: "insn_csr_addr (enc f7 rs2 rs1 f3 rd opc) = word_cat f7 rs2"
  by (rule bit_word_eqI)
    (simp only: insn_csr_addr_def imm_bits, auto dest: bit_imp_le_length)

lemma csr_wX: "cpu_csr (wX r v c) = cpu_csr c" "set_csr a x (wX r v c) = wX r v (set_csr a x c)"
  "cpu_regs (set_csr a x c) = cpu_regs c" "cpu_pc (set_csr a x c) = cpu_pc c"
  by (simp_all add: wX_def set_csr_def)

lemma wX_other: "rd \<noteq> rs \<Longrightarrow> cpu_regs (wX (ucast (rd :: reg)) v c) rs = cpu_regs c rs"
  by (simp add: wX_def)

lemma rv_csr_eq:
  "rv_csr rd a f c = rv_next (rv_write rd (csr_load (cpu_csr c) a)
     (set_csr a (f (csr_load (cpu_csr c) a)) c))"
  by (simp add: rv_csr_def set_csr_def Let_def)

lemmas csr_sem = decode_enc decode_sys enc_unpack csr_addr_enc csr_wX wX_other rv_csr_eq
  archr_ret_next Let_def

lemma refine_Csr:
  "archr (executor_execute c (rv_encode (Csrrw rd rs1 a))) = rv_step (Csrrw rd rs1 a) (arch c)"
  "rd \<noteq> rs1 \<Longrightarrow> archr (executor_execute c (rv_encode (Csrrs rd rs1 a))) = rv_step (Csrrs rd rs1 a) (arch c)"
  "rd \<noteq> rs1 \<Longrightarrow> archr (executor_execute c (rv_encode (Csrrc rd rs1 a))) = rv_step (Csrrc rd rs1 a) (arch c)"
  "archr (executor_execute c (rv_encode (Csrrwi rd rs1 a))) = rv_step (Csrrwi rd rs1 a) (arch c)"
proof -
  show "archr (executor_execute c (rv_encode (Csrrw rd rs1 a))) = rv_step (Csrrw rd rs1 a) (arch c)"
    by (rule executor_arch [where f = executeCSR_RW]) (simp_all add: csr_sem executeCSR_RW_def)
  show "archr (executor_execute c (rv_encode (Csrrwi rd rs1 a))) = rv_step (Csrrwi rd rs1 a) (arch c)"
    by (rule executor_arch [where f = executeCSR_RWI]) (simp_all add: csr_sem executeCSR_RWI_def)
  assume "rd \<noteq> rs1"
  then show "archr (executor_execute c (rv_encode (Csrrs rd rs1 a))) = rv_step (Csrrs rd rs1 a) (arch c)"
    by (intro executor_arch [where f = executeCSR_RS]) (simp_all add: csr_sem executeCSR_RS_def)
  from \<open>rd \<noteq> rs1\<close>
  show "archr (executor_execute c (rv_encode (Csrrc rd rs1 a))) = rv_step (Csrrc rd rs1 a) (arch c)"
    by (intro executor_arch [where f = executeCSR_RC]) (simp_all add: csr_sem executeCSR_RC_def)
qed

lemma refine_sys:
  "archr (executor_execute c (rv_encode Fence)) = rv_step Fence (arch c)"
  "archr (executor_execute c (rv_encode (Sfence_vma rs1 rs2))) = rv_step (Sfence_vma rs1 rs2) (arch c)"
  "archr (executor_execute c (rv_encode Ecall)) = rv_step Ecall (arch c)"
proof -
  have "decode 0x0ff0000f = Some executeFence"
    by (simp add: decode_def opcodeTable_def instructionMap_def Let_def)
  then show "archr (executor_execute c (rv_encode Fence)) = rv_step Fence (arch c)"
    by (intro executor_arch [where f = executeFence]) (simp_all add: executeFence_def archr_ret_next0)
  show "archr (executor_execute c (rv_encode (Sfence_vma rs1 rs2))) = rv_step (Sfence_vma rs1 rs2) (arch c)"
    by (rule executor_arch [where f = executeSFENCE_VMA])
      (simp_all add: decode_enc decode_sys executeSFENCE_VMA_def archr_ret_next0)
  have "decode 0x73 = Some executeECALL"
    by (simp add: decode_def opcodeTable_def instructionMap_def instruction2Map_def Let_def)
  then show "archr (executor_execute c (rv_encode Ecall)) = rv_step Ecall (arch c)"
    by (intro executor_arch [where f = executeECALL]) (simp_all add: executeECALL_def)
qed



end
