(* ===== verification/Emu_Trap.thy ===== *)
theory Emu_Trap
  imports Emu_Instr
begin

text \<open>
  Traps and returns: entering a trap and leaving it with the matching return instruction
  gives back the mode, the program counter and the status bits; and which interrupt is taken.
\<close>

section \<open>Modes as bits\<close>

lemma mode_le_Supervisor: "m \<le> Supervisor \<longleftrightarrow> m = User \<or> m = Supervisor" for m :: cpu_mode
proof
  assume "m \<le> Supervisor"
  then have "unat m = 0 \<or> unat m = 1" by (auto simp: word_le_nat_alt)
  then show "m = User \<or> m = Supervisor" by (metis unsigned_0 unsigned_1 word_unat_eq_iff)
qed auto

lemma low_mode_bit: "m \<le> Supervisor \<Longrightarrow> bit m n \<longleftrightarrow> n = 0 \<and> m = Supervisor" for m :: cpu_mode
  by (auto simp: mode_le_Supervisor bit_1_iff)

lemma mode_bit:
  "m = Machine \<or> m \<le> Supervisor \<Longrightarrow>
   bit m n \<longleftrightarrow> n = 0 \<and> m \<noteq> User \<or> n = 1 \<and> m = Machine" for m :: cpu_mode
  by (auto simp only: mode_le_Supervisor bit_1_iff bit_3_u64 bit_0_eq) auto

lemma aligned_and_not_3: "x AND 3 = 0 \<Longrightarrow> x AND NOT 3 = x" for x :: u64
proof (rule bit_word_eqI)
  fix n assume x: "x AND 3 = 0" and n: "n < LENGTH(64)"
  have "\<not> bit (x AND 3) n" unfolding x by simp
  then show "bit (x AND NOT 3) n = bit x n" using n by (simp only: bit_field_simps) auto
qed

section \<open>Trap entry and return in one mode\<close>

text \<open>
  \<open>mstatus\<close> after a trap into S mode and after SRET: both go through the \<open>sstatus\<close> view.
\<close>

definition sret_status :: "u64 \<Rightarrow> u64" where
  "sret_status s =
     (((s AND NOT MASK_SIE) OR push_bit 1 (drop_bit 5 (s AND MASK_SPIE))) OR MASK_SPIE) AND NOT MASK_SPP"

definition mret_status :: "u64 \<Rightarrow> u64" where
  "mret_status s =
     ((((s AND NOT MASK_MIE) OR push_bit 3 (drop_bit 7 (s AND MASK_MPIE))) OR MASK_MPIE)
        AND NOT MASK_MPP) AND NOT MASK_MPRV"

definition trap_s :: "u64 \<Rightarrow> cpu_mode \<Rightarrow> u64" where
  "trap_s s m = (s AND NOT MASK_SSTATUS) OR
     (trap_status (s AND MASK_SSTATUS) MASK_SPIE 5 MASK_SIE 1 MASK_SPP 8 m AND MASK_SSTATUS)"

definition sret_m :: "u64 \<Rightarrow> u64" where
  "sret_m s = (s AND NOT MASK_SSTATUS) OR (sret_status (s AND MASK_SSTATUS) AND MASK_SSTATUS)"

definition trap_m :: "u64 \<Rightarrow> cpu_mode \<Rightarrow> u64" where
  "trap_m s m = trap_status s MASK_MPIE 7 MASK_MIE 3 MASK_MPP 11 m"

lemmas status_bits =
  trap_status_def sret_status_def mret_status_def trap_s_def sret_m_def trap_m_def Let_def
  bit_field_simps mask_bits

lemma trap_s_mode:
  assumes "m \<le> Supervisor"
  shows "drop_bit 8 ((trap_s s m AND MASK_SSTATUS) AND MASK_SPP) = m"
  by (rule bit_word_eqI)
    (simp only: status_bits low_mode_bit [OF assms], auto simp: sstatus_fields)

lemma sret_m_trap_s:
  assumes "m \<le> Supervisor" "n < 64" "n \<noteq> 5" "n \<noteq> 8"
  shows "bit (sret_m (trap_s s m)) n = bit s n"
proof (cases "n = 1")
  case True
  then show ?thesis
    by (simp only: status_bits low_mode_bit [OF assms(1)]) (simp add: sstatus_fields [simplified])
next
  case False
  then show ?thesis using assms(2-)
    by (simp only: status_bits low_mode_bit [OF assms(1)]) auto
qed

lemma trap_m_mode:
  assumes "m = Machine \<or> m \<le> Supervisor"
  shows "drop_bit 11 (trap_m s m AND MASK_MPP) = m"
  by (rule bit_word_eqI) (simp only: status_bits mode_bit [OF assms], auto)

lemma mret_trap_m:
  assumes "m = Machine \<or> m \<le> Supervisor" "n < 64" "n \<notin> {7, 11, 12, 17}"
  shows "bit (mret_status (trap_m s m)) n = bit s n"
proof (cases "n = 3")
  case True
  then show ?thesis by (simp only: status_bits mode_bit [OF assms(1)]) simp
next
  case False
  then show ?thesis using assms(2-) by (simp only: status_bits mode_bit [OF assms(1)]) auto
qed

section \<open>The handlers in terms of these\<close>

definition enter_s :: "u64 \<Rightarrow> u64 \<Rightarrow> cpu \<Rightarrow> cpu" where
  "enter_s cause tval c =
     c\<lparr>cpu_mode := Supervisor, cpu_pc := cpu_csr c STVEC AND NOT 3,
       cpu_csr := (cpu_csr c)(SEPC := cpu_pc c, SCAUSE := cause, STVAL := tval,
                              MSTATUS := trap_s (cpu_csr c MSTATUS) (cpu_mode c))\<rparr>"

definition enter_m :: "u64 \<Rightarrow> u64 \<Rightarrow> cpu \<Rightarrow> cpu" where
  "enter_m cause tval c =
     c\<lparr>cpu_mode := Machine, cpu_pc := cpu_csr c MTVEC AND NOT 3,
       cpu_csr := (cpu_csr c)(MEPC := cpu_pc c, MCAUSE := cause, MTVAL := tval,
                              MSTATUS := trap_m (cpu_csr c MSTATUS) (cpu_mode c))\<rparr>"

lemma handle_exception_eq:
  "handle_exception e c =
     (if cpu_mode c \<le> Supervisor \<and> is_medelegated (cpu_csr c) (exception_code (getType e))
      then enter_s (exception_code (getType e)) (getValue e) c
      else enter_m (exception_code (getType e)) (getValue e) c)"
  by (simp add: handle_exception_def enter_s_def enter_m_def trap_s_def trap_m_def Let_def
      csr_store_def csr_load_def fun_upd_twist)

lemma handle_interrupt_eq:
  "handle_interrupt cause c =
     (if cpu_mode c \<le> Supervisor \<and> is_midelegated (cpu_csr c) (cause AND 0x7fffffffffffffff)
      then enter_s cause 0 c else enter_m cause 0 c)"
  by (simp add: handle_interrupt_def enter_s_def enter_m_def trap_s_def trap_m_def Let_def
      csr_store_def csr_load_def fun_upd_twist)

lemma executeSRET_eq:
  "executeSRET c inst =
     (Ret (Some (cpu_csr c SEPC AND NOT 3)),
      c\<lparr>cpu_mode := drop_bit 8 ((cpu_csr c MSTATUS AND MASK_SSTATUS) AND MASK_SPP),
        cpu_csr := (cpu_csr c)(MSTATUS := sret_m (cpu_csr c MSTATUS))\<rparr>)"
  by (simp only: executeSRET_def sret_status_def sret_m_def set_csr_def Let_def csr_load_def
      csr_store_def) simp

lemma mpp_cleared: "(x AND NOT MASK_MPP) AND MASK_MPP = 0" for x :: u64
  by (rule bit_word_eqI) (simp add: bit_field_simps)

lemma executeMRET_eq:
  "executeMRET c inst =
     (Ret (Some (cpu_csr c MEPC AND NOT 3)),
      c\<lparr>cpu_mode := drop_bit 11 (cpu_csr c MSTATUS AND MASK_MPP),
        cpu_csr := (cpu_csr c)(MSTATUS := mret_status (cpu_csr c MSTATUS))\<rparr>)"
  by (simp only: executeMRET_def mret_status_def set_csr_def Let_def mpp_cleared csr_load_def
      csr_store_def) simp

text \<open>
  C4. A delegated exception in U or S mode followed by SRET comes back to the interrupted
  instruction in the interrupted mode, with registers, memory and devices untouched and every
  bit of \<open>mstatus\<close> as before except SPIE (bit 5) and SPP (bit 8); in particular SIE is
  restored.
\<close>

theorem exception_sret_restores:
  assumes "cpu_mode c \<le> Supervisor"
    and "is_medelegated (cpu_csr c) (exception_code (getType e))"
    and "cpu_pc c AND 3 = 0"
  shows "\<exists>c'. executeSRET (handle_exception e c) inst = (Ret (Some (cpu_pc c)), c') \<and>
           cpu_mode c' = cpu_mode c \<and> cpu_regs c' = cpu_regs c \<and> cpu_bus c' = cpu_bus c \<and>
           (\<forall>n < 64. n \<noteq> 5 \<and> n \<noteq> 8 \<longrightarrow>
              bit (cpu_csr c' MSTATUS) n = bit (cpu_csr c MSTATUS) n)"
  using assms
  by (simp add: handle_exception_eq executeSRET_eq enter_s_def trap_s_mode sret_m_trap_s
      aligned_and_not_3 [simplified] del: drop_bit_and)

theorem exception_sret_restores_witness:
  "fst (executeSRET (handle_exception (Exception EnvironmentCallFromUMode 0x73)
     (cpu_init [] (\<lambda>_. 0)\<lparr>cpu_mode := User, cpu_csr := csr_init(MEDELEG := 0x100)\<rparr>)) 0)
   = Ret (Some 0x80000000)"
proof -
  let ?c = "cpu_init [] (\<lambda>_. 0)\<lparr>cpu_mode := User, cpu_csr := csr_init(MEDELEG := 0x100)\<rparr>"
  have "is_medelegated (cpu_csr ?c) (exception_code (getType (Exception EnvironmentCallFromUMode 0x73)))"
    by (simp add: is_medelegated_def)
  then show ?thesis
    using exception_sret_restores [of ?c "Exception EnvironmentCallFromUMode 0x73" 0]
    by (auto simp: cpu_init_def)
qed

text \<open>
  C5. An interrupt that is not delegated (every interrupt taken in M mode among them)
  followed by MRET comes back to the interrupted instruction in the interrupted mode, with
  registers, memory and devices untouched and every bit of \<open>mstatus\<close> as before except MPIE
  (bit 7), MPP (bits 11, 12) and MPRV (bit 17).
\<close>

theorem interrupt_mret_restores:
  assumes "cpu_mode c = Machine \<or>
           cpu_mode c \<le> Supervisor \<and> \<not> is_midelegated (cpu_csr c) (cause AND 0x7fffffffffffffff)"
    and "cpu_pc c AND 3 = 0"
  shows "\<exists>c'. executeMRET (handle_interrupt cause c) inst = (Ret (Some (cpu_pc c)), c') \<and>
           cpu_mode c' = cpu_mode c \<and> cpu_regs c' = cpu_regs c \<and> cpu_bus c' = cpu_bus c \<and>
           (\<forall>n < 64. n \<notin> {7, 11, 12, 17} \<longrightarrow>
              bit (cpu_csr c' MSTATUS) n = bit (cpu_csr c MSTATUS) n)"
proof -
  have "handle_interrupt cause c = enter_m cause 0 c"
    using assms(1) by (auto simp: handle_interrupt_eq mode_le_Supervisor)
  moreover have "cpu_mode c = Machine \<or> cpu_mode c \<le> Supervisor" using assms(1) by blast
  ultimately show ?thesis using assms(2)
    by (simp add: executeMRET_eq enter_m_def trap_m_mode mret_trap_m
        aligned_and_not_3 [simplified] del: drop_bit_and)
qed

theorem interrupt_mret_restores_witness:
  "fst (executeMRET (handle_interrupt (7 OR push_bit 63 1) (cpu_init [] (\<lambda>_. 0))) 0)
   = Ret (Some 0x80000000)"
  using interrupt_mret_restores [of "cpu_init [] (\<lambda>_. 0)" "7 OR push_bit 63 1" 0]
  by (auto simp: cpu_init_def)

section \<open>Which interrupt is taken\<close>

text \<open>
  Machine interrupts are considered in the order external (11), software (3), timer (7), then,
  outside M mode, the delegated ones in the order 9, 1, 5, each raised by the machine-level
  pending bit two positions above.
\<close>

definition m_ready :: "cpu \<Rightarrow> nat \<Rightarrow> bool" where
  "m_ready c k \<longleftrightarrow>
     bit (cpu_csr c MSTATUS) 3 \<and> bit (cpu_csr c MIP) k \<and> bit (cpu_csr c MIE) k \<and>
     (cpu_mode c = Machine \<or> \<not> bit (cpu_csr c MIDELEG) k)"

definition s_ready :: "cpu \<Rightarrow> nat \<Rightarrow> bool" where
  "s_ready c k \<longleftrightarrow>
     cpu_mode c \<noteq> Machine \<and> bit (cpu_csr c MSTATUS) 1 \<and>
     bit (cpu_csr c MIDELEG) k \<and> bit (cpu_csr c MIE) k \<and> bit (cpu_csr c MIP) (k + 2)"

definition irq_choice :: "cpu \<Rightarrow> nat option" where
  "irq_choice c =
     (case List.find (m_ready c) [11, 3, 7] of Some k \<Rightarrow> Some k
      | None \<Rightarrow> List.find (s_ready c) [9, 1, 5])"

lemma csr_load_sip_bits:
  "bit (csr_load_sip c) 1 \<longleftrightarrow> bit (c MIDELEG) 1 \<and> bit (c MIP) 3"
  "bit (csr_load_sip c) 5 \<longleftrightarrow> bit (c MIDELEG) 5 \<and> bit (c MIP) 7"
  "bit (csr_load_sip c) 9 \<longleftrightarrow> bit (c MIDELEG) 9 \<and> bit (c MIP) 11"
  by (auto simp: csr_load_sip_def Let_def bit_or_iff mask_bits)

lemma irq_choice_if:
  "map_option f (irq_choice c) =
     (if m_ready c 11 then Some (f 11) else if m_ready c 3 then Some (f 3)
      else if m_ready c 7 then Some (f 7) else if s_ready c 9 then Some (f 9)
      else if s_ready c 1 then Some (f 1) else if s_ready c 5 then Some (f 5) else None)"
  by (simp add: irq_choice_def)

lemma s_ready_pos:
  "s_ready c 9 \<longleftrightarrow>
     cpu_mode c \<noteq> Machine \<and> bit (cpu_csr c MSTATUS) 1 \<and>
     bit (csr_load_sip (cpu_csr c)) 9 \<and> bit (cpu_csr c MIE) 9 \<and> bit (cpu_csr c MIDELEG) 9"
  "s_ready c 1 \<longleftrightarrow>
     cpu_mode c \<noteq> Machine \<and> bit (cpu_csr c MSTATUS) 1 \<and>
     bit (csr_load_sip (cpu_csr c)) 1 \<and> bit (cpu_csr c MIE) 1 \<and> bit (cpu_csr c MIDELEG) 1"
  "s_ready c 5 \<longleftrightarrow>
     cpu_mode c \<noteq> Machine \<and> bit (cpu_csr c MSTATUS) 1 \<and>
     bit (csr_load_sip (cpu_csr c)) 5 \<and> bit (cpu_csr c MIE) 5 \<and> bit (cpu_csr c MIDELEG) 5"
  unfolding s_ready_def csr_load_sip_bits by (auto simp: numeral_3_eq_3)


end
