(* ===== verification/Os_Block.thy ===== *)
theory Os_Block
  imports Emu_Bus
begin

text \<open>
  The block driver (\<^verbatim>\<open>kernel/block.c\<close>) on the emulator's bus: sectors of 512 bytes moved
  through the device's data window, eight bytes at a time.  A buffer is a list of bytes, the
  null pointer is None.
\<close>

abbreviation (input) BLOCK_REG_SECTOR :: u64 where "BLOCK_REG_SECTOR \<equiv> 0x10001000"
abbreviation (input) BLOCK_REG_CMD :: u64 where "BLOCK_REG_CMD \<equiv> 0x10001008"
abbreviation (input) BLOCK_REG_STATUS :: u64 where "BLOCK_REG_STATUS \<equiv> 0x1000100c"
abbreviation (input) BLOCK_DATA :: u64 where "BLOCK_DATA \<equiv> 0x10001100"

text \<open>A 64-bit element of a byte buffer.\<close>

definition buf_get64 :: "u8 list \<Rightarrow> nat \<Rightarrow> u64" where
  "buf_get64 buf off = le_load 8 (\<lambda>i. buf ! (off + i))"

definition buf_put64 :: "u8 list \<Rightarrow> nat \<Rightarrow> u64 \<Rightarrow> u8 list" where
  "buf_put64 buf off v = le_store (\<lambda>b i x. b[i := x]) 8 (\<lambda>i. off + i) v buf"

text \<open>A read of a device register by the kernel.\<close>

definition mmio_load :: "bus \<Rightarrow> u64 \<Rightarrow> u64 \<Rightarrow> u64 outcome \<times> bus" where
  "mmio_load b addr sz =
     xbind (bus_load b addr sz) (\<lambda>v b. case v of Some v \<Rightarrow> (Ret v, b) | None \<Rightarrow> (Undefined, b))"

text \<open>The copy loops, for the first \<open>n\<close> elements.\<close>

primrec copy_from_window :: "nat \<Rightarrow> bus \<Rightarrow> u8 list \<Rightarrow> u8 list outcome \<times> bus" where
  "copy_from_window 0 b buf = (Ret buf, b)"
| "copy_from_window (Suc n) b buf =
     xbind (copy_from_window n b buf) (\<lambda>buf b.
     xbind (mmio_load b (BLOCK_DATA + 8 * of_nat n) 64) (\<lambda>v b.
       (Ret (buf_put64 buf (8 * n) v), b)))"

primrec copy_to_window :: "nat \<Rightarrow> bus \<Rightarrow> u8 list \<Rightarrow> unit outcome \<times> bus" where
  "copy_to_window 0 b buf = (Ret (), b)"
| "copy_to_window (Suc n) b buf =
     xbind (copy_to_window n b buf) (\<lambda>_ b.
     xbind (bus_store b (BLOCK_DATA + 8 * of_nat n) 64 (buf_get64 buf (8 * n))) (\<lambda>_ b. (Ret (), b)))"

definition block_read :: "bus \<Rightarrow> u32 \<Rightarrow> u8 list option \<Rightarrow> (int \<times> u8 list option) outcome \<times> bus" where
  "block_read b sector buffer =
     (case buffer of None \<Rightarrow> (Ret (-1, None), b)
      | Some buf \<Rightarrow>
        if ucast sector \<ge> BLOCK_SECTOR_COUNT then (Ret (-1, buffer), b)
        else xbind (bus_store b BLOCK_REG_SECTOR 64 (ucast sector)) (\<lambda>_ b.
             xbind (bus_store b BLOCK_REG_CMD 32 1) (\<lambda>_ b.
             xbind (mmio_load b BLOCK_REG_STATUS 32) (\<lambda>st b.
               if st \<noteq> 0 then (Ret (-1, buffer), b)
               else xbind (copy_from_window 64 b buf) (\<lambda>buf b. (Ret (0, Some buf), b))))))"

definition block_write :: "bus \<Rightarrow> u32 \<Rightarrow> u8 list option \<Rightarrow> int outcome \<times> bus" where
  "block_write b sector buffer =
     (case buffer of None \<Rightarrow> (Ret (-1), b)
      | Some buf \<Rightarrow>
        if ucast sector \<ge> BLOCK_SECTOR_COUNT then (Ret (-1), b)
        else xbind (copy_to_window 64 b buf) (\<lambda>_ b.
             xbind (bus_store b BLOCK_REG_SECTOR 64 (ucast sector)) (\<lambda>_ b.
             xbind (bus_store b BLOCK_REG_CMD 32 2) (\<lambda>_ b.
             xbind (mmio_load b BLOCK_REG_STATUS 32) (\<lambda>st b.
               (Ret (if st = 0 then 0 else -1), b))))))"

section \<open>Buffers\<close>

interpretation buffer: byte_store "\<lambda>b i. b ! i" "\<lambda>b i x. b[i := x]" "\<lambda>b i. i < length b"
  by unfold_locales auto

lemma length_buf_put64 [simp]: "length (buf_put64 buf off v) = length buf"
proof -
  have "length (le_store (\<lambda>b i x. b[i := x]) n adr v buf) = length buf" for n adr
    by (induction n) (simp_all add: le_store_Suc)
  then show ?thesis by (simp add: buf_put64_def)
qed

lemma nth_buf_put64:
  assumes "off + 8 \<le> length buf"
  shows "buf_put64 buf off v ! k = (if off \<le> k \<and> k < off + 8 then le_byte v (k - off) else buf ! k)"
proof (cases "off \<le> k \<and> k < off + 8")
  case True
  then have "buf_put64 buf off v ! (off + (k - off)) = le_byte v (k - off)"
    unfolding buf_put64_def
    by (intro buffer.get_le_store_same) (use assms in \<open>auto simp: inj_on_def\<close>)
  then show ?thesis using True by simp
next
  case False
  then have "k \<notin> (\<lambda>i. off + i) ` {..<8}" by auto
  then show ?thesis unfolding buf_put64_def using False buffer.get_le_store_other by auto
qed

lemma le_byte_buf_get64: "i < 8 \<Longrightarrow> le_byte (buf_get64 buf off) i = buf ! (off + i)"
  unfolding buf_get64_def by (simp add: le_byte_le_load)

section \<open>The device behind the bus\<close>

text \<open>What the disk holds: sector \<open>s\<close> as a list of 512 bytes.\<close>

definition disk_sector :: "bus \<Rightarrow> u32 \<Rightarrow> u8 list" where
  "disk_sector b s = map (\<lambda>i. bd_storage (bus_block b) (ucast s * 512 + of_nat i)) [0..<512]"

text \<open>The machine without the block device.\<close>

definition rest_of :: "bus \<Rightarrow> dram \<times> uart \<times> clint \<times> plic \<times> bool" where
  "rest_of b = (bus_dram b, bus_uart b, bus_clint b, bus_plic b, bus_halted b)"

lemma unat_window:
  assumes "n < 64"
  shows "unat (0x10001100 + 8 * of_nat n :: u64) = 0x10001100 + 8 * n"
    "unat (8 * of_nat n :: u64) = 8 * n" "unat (8 * of_nat n + 8 :: u64) = 8 * n + 8"
    "unat (256 + 8 * of_nat n :: u64) = 256 + 8 * n"
  using assms unat_of_nat_u64 [of "0x10001100 + 8 * n"] unat_of_nat_u64 [of "8 * n"]
    unat_of_nat_u64 [of "8 * n + 8"] unat_of_nat_u64 [of "256 + 8 * n"]
  by simp_all

lemma window_offset: "n < 64 \<Longrightarrow> 256 + 8 * of_nat n \<noteq> (0 :: u64)"
  using unat_window(4) [of n] by (metis add_is_0 unat_0 zero_neq_numeral)

lemmas window_arith = unat_window window_offset word_le_nat_alt word_less_nat_alt Let_def

lemma window_load:
  assumes "n < 64"
  shows "mmio_load b (BLOCK_DATA + 8 * of_nat n) 64 = (Ret (read_le (bd_window (bus_block b)) (8 * of_nat n) 64), b)"
  using assms by (simp add: mmio_load_def bus_load_def block_load_def window_arith)

lemma window_store:
  assumes "n < 64"
  shows "bus_store b (BLOCK_DATA + 8 * of_nat n) 64 v =
    (Ret True, b\<lparr>bus_block := (bus_block b)\<lparr>bd_window := write_le (bd_window (bus_block b)) (8 * of_nat n) 64 v\<rparr>\<rparr>)"
  using assms by (simp add: bus_store_def block_store_def window_arith)

lemma register_access:
  "bus_store b BLOCK_REG_SECTOR 64 v = (Ret True, b\<lparr>bus_block := (bus_block b)\<lparr>bd_sector := v\<rparr>\<rparr>)"
  "bus_store b BLOCK_REG_CMD 32 v = (Ret True, b\<lparr>bus_block := block_execute (bus_block b) (ucast v)\<rparr>)"
  "mmio_load b BLOCK_REG_STATUS 32 = (Ret (ucast (bd_status (bus_block b))), b)"
  by (simp_all add: mmio_load_def bus_store_def bus_load_def block_store_def block_load_def)

section \<open>The copy loops\<close>

lemma copy_from_window_eq:
  assumes "n \<le> 64" and "length buf = 512"
  shows "\<exists>buf'. copy_from_window n b buf = (Ret buf', b) \<and> length buf' = 512 \<and>
    (\<forall>i < 512. buf' ! i = (if i < 8 * n then bd_window (bus_block b) (of_nat i) else buf ! i))"
  using assms(1)
proof (induction n)
  case 0
  then show ?case using assms by simp
next
  case (Suc n)
  then obtain buf' where buf': "copy_from_window n b buf = (Ret buf', b)" "length buf' = 512"
    "\<forall>i < 512. buf' ! i = (if i < 8 * n then bd_window (bus_block b) (of_nat i) else buf ! i)"
    by auto
  have byte: "le_byte (read_le (bd_window (bus_block b)) (8 * of_nat n) 64) (i - 8 * n)
      = bd_window (bus_block b) (of_nat i)" if "8 * n \<le> i" "i < 8 * n + 8" for i
  proof -
    have "8 * of_nat n + of_nat (i - 8 * n) = (of_nat i :: u64)"
      using that(1) by (metis le_add_diff_inverse of_nat_add of_nat_mult of_nat_numeral)
    with that show ?thesis by (simp add: read_le_def le_byte_le_load)
  qed
  show ?case
    using Suc.prems buf' byte by (auto simp: window_load nth_buf_put64)
qed

lemma copy_to_window_eq:
  assumes "n \<le> 64"
  shows "\<exists>w. copy_to_window n b buf = (Ret (), b\<lparr>bus_block := (bus_block b)\<lparr>bd_window := w\<rparr>\<rparr>) \<and>
    (\<forall>i < 8 * n. w (of_nat i) = buf ! i)"
  using assms
proof (induction n)
  case 0
  then show ?case by (intro exI [of _ "bd_window (bus_block b)"]) simp
next
  case (Suc n)
  then obtain w where w: "copy_to_window n b buf = (Ret (), b\<lparr>bus_block := (bus_block b)\<lparr>bd_window := w\<rparr>\<rparr>)"
    "\<forall>i < 8 * n. w (of_nat i) = buf ! i" by auto
  let ?w = "write_le w (8 * of_nat n) 64 (buf_get64 buf (8 * n))"
  have "?w (of_nat i) = buf ! i" if "i < 8 * Suc n" for i
  proof (cases "i < 8 * n")
    case True
    have "(of_nat i :: u64) \<notin> (\<lambda>i. 8 * of_nat n + of_nat i) ` {..<8}"
    proof
      assume "(of_nat i :: u64) \<in> (\<lambda>i. 8 * of_nat n + of_nat i) ` {..<8}"
      then obtain j where "j < 8" "(of_nat i :: u64) = of_nat (8 * n + j)" by auto
      then show False using True Suc.prems unat_of_nat_u64 [of i] unat_of_nat_u64 [of "8 * n + j"] by auto
    qed
    then show ?thesis using w(2) True by (simp add: write_le_def window_bytes.get_le_store_other)
  next
    case False
    have "inj_on (\<lambda>i. 8 * of_nat n + of_nat i :: u64) {..<8}"
      using offset_inj [of 8 "8 * of_nat n"] by simp
    then have "?w (8 * of_nat n + of_nat (i - 8 * n)) = le_byte (buf_get64 buf (8 * n)) (i - 8 * n)"
      unfolding write_le_def using that False by (intro window_bytes.get_le_store_same) auto
    moreover have "8 * of_nat n + of_nat (i - 8 * n) = (of_nat i :: u64)"
      using False by (metis le_add_diff_inverse not_less of_nat_add of_nat_mult of_nat_numeral)
    ultimately show ?thesis using that False by (simp add: le_byte_buf_get64)
  qed
  then show ?case
    using Suc.prems w(1) by (auto simp: window_store intro!: exI [of _ ?w])
qed

section \<open>The driver as a disk\<close>

text \<open>
  The disk the file system sees: a map from sectors to their 512 bytes, out-of-range sectors
  refused with -1.
\<close>

type_synonym disk = "u32 \<Rightarrow> u8 list"

definition disk_read :: "disk \<Rightarrow> u32 \<Rightarrow> u8 list \<Rightarrow> int \<times> u8 list" where
  "disk_read d s buf = (if ucast s \<ge> BLOCK_SECTOR_COUNT then (-1, buf) else (0, d s))"

definition disk_write :: "disk \<Rightarrow> u32 \<Rightarrow> u8 list \<Rightarrow> int \<times> disk" where
  "disk_write d s buf = (if ucast s \<ge> BLOCK_SECTOR_COUNT then (-1, d) else (0, d(s := buf)))"

lemma unat_ucast_u32 [simp]: "unat (ucast (s :: u32) :: u64) = unat s"
  by (simp add: unsigned_ucast_eq take_bit_nat_eq_self)
    (rule take_bit_nat_eq_self, rule less_trans [OF unsigned_less], simp)

lemma sector_offset:
  fixes s :: u32
  shows "unat (ucast s * 512 :: u64) = unat s * 512"
    "i \<le> 512 \<Longrightarrow> unat (ucast s * 512 + of_nat i :: u64) = unat s * 512 + i"
proof -
  have s: "unat s < 4294967296" using unsigned_less [of s, where ?'a = nat] by simp
  then show *: "unat (ucast s * 512 :: u64) = unat s * 512" by (simp add: unat_word_ariths)
  show "unat (ucast s * 512 + of_nat i :: u64) = unat s * 512 + i" if "i \<le> 512"
    using s that by (subst unat_offset) (simp_all add: *)
qed

lemma sector_le: "(ucast (s :: u32) :: u64) \<ge> BLOCK_SECTOR_COUNT \<longleftrightarrow> 16384 \<le> unat s"
  by (simp add: word_le_nat_alt)


lemma disk_sector_length [simp]: "length (disk_sector b s) = 512"
  by (simp add: disk_sector_def)

lemma nth_disk_sector: "i < 512 \<Longrightarrow> disk_sector b s ! i = bd_storage (bus_block b) (ucast s * 512 + of_nat i)"
  by (simp add: disk_sector_def)

lemma in_sector_iff:
  assumes "i < 512"
  shows "ucast s * 512 \<le> ucast t * 512 + (of_nat i :: u64) \<and> ucast t * 512 + (of_nat i :: u64) < ucast s * 512 + 512
    \<longleftrightarrow> (t :: u32) = s"
proof -
  have "unat (ucast s * 512 + 512 :: u64) = unat s * 512 + 512" using sector_offset(2) [of 512 s] by simp
  then have "?thesis \<longleftrightarrow> (unat s * 512 \<le> unat t * 512 + i \<and> unat t * 512 + i < unat s * 512 + 512 \<longleftrightarrow> unat t = unat s)"
    using assms by (simp add: word_le_nat_alt word_less_nat_alt sector_offset word_unat_eq_iff)
  then show ?thesis using assms by auto
qed

lemma execute_read:
  fixes s :: u32
  assumes "unat s < 16384"
  shows "block_execute (k\<lparr>bd_sector := ucast s\<rparr>) 1 =
    k\<lparr>bd_sector := ucast s, bd_status := 0,
      bd_window := (\<lambda>i. if i < 512 then bd_storage k (ucast s * 512 + i) else bd_window k i)\<rparr>"
  using assms by (cases k) (simp add: block_execute_def sector_le Let_def cong: if_cong)

lemma execute_write:
  fixes s :: u32
  assumes "unat s < 16384"
  shows "block_execute (k\<lparr>bd_sector := ucast s\<rparr>) 2 =
    k\<lparr>bd_sector := ucast s, bd_status := 0,
      bd_storage := (\<lambda>a. if ucast s * 512 \<le> a \<and> a < ucast s * 512 + 512
        then bd_window k (a - ucast s * 512) else bd_storage k a)\<rparr>"
  using assms by (cases k) (simp add: block_execute_def sector_le Let_def cong: if_cong)

lemma block_read_disk:
  assumes "length buf = 512"
  shows "\<exists>r buf' b'. block_read b s (Some buf) = (Ret (r, Some buf'), b') \<and>
    disk_read (disk_sector b) s buf = (r, buf') \<and> length buf' = 512 \<and>
    disk_sector b' = disk_sector b \<and> rest_of b' = rest_of b"
proof (cases "16384 \<le> unat s")
  case True
  then show ?thesis using assms by (simp add: block_read_def disk_read_def sector_le)
next
  case False
  define b1 where "b1 = b\<lparr>bus_block := block_execute ((bus_block b)\<lparr>bd_sector := ucast s\<rparr>) 1\<rparr>"
  have win: "bd_window (bus_block b1) (of_nat i) = disk_sector b s ! i" if "i < 512" for i
    using False that unat_of_nat_u64 [of i]
    by (simp add: b1_def execute_read nth_disk_sector word_less_nat_alt)
  obtain buf' where buf': "copy_from_window 64 b1 buf = (Ret buf', b1)" "length buf' = 512"
    "\<forall>i < 512. buf' ! i = bd_window (bus_block b1) (of_nat i)"
    using copy_from_window_eq [of 64 buf b1] assms by auto
  have eq: "buf' = disk_sector b s" by (rule nth_equalityI) (simp_all add: buf' win)
  have "block_read b s (Some buf) = (Ret (0, Some buf'), b1)"
    using False buf'(1) by (simp add: block_read_def sector_le register_access execute_read b1_def)
  moreover have "disk_sector b1 = disk_sector b" "rest_of b1 = rest_of b"
    using False by (auto simp: fun_eq_iff disk_sector_def rest_of_def b1_def execute_read)
  ultimately show ?thesis using False eq by (simp add: disk_read_def sector_le)
qed

lemma block_write_disk:
  assumes "length buf = 512"
  shows "\<exists>r b'. block_write b s (Some buf) = (Ret r, b') \<and>
    disk_write (disk_sector b) s buf = (r, disk_sector b') \<and> rest_of b' = rest_of b"
proof (cases "16384 \<le> unat s")
  case True
  then show ?thesis by (simp add: block_write_def disk_write_def sector_le)
next
  case False
  obtain w where w: "copy_to_window 64 b buf = (Ret (), b\<lparr>bus_block := (bus_block b)\<lparr>bd_window := w\<rparr>\<rparr>)"
    "\<forall>i < 512. w (of_nat i) = buf ! i"
    using copy_to_window_eq [of 64 b buf] by auto
  define b1 where "b1 = b\<lparr>bus_block := block_execute ((bus_block b)\<lparr>bd_window := w, bd_sector := ucast s\<rparr>) 2\<rparr>"
  have "block_write b s (Some buf) = (Ret 0, b1)"
    using False w(1) by (simp add: block_write_def sector_le register_access execute_write b1_def cong: if_cong)
  moreover have "disk_sector b1 t = ((disk_sector b)(s := buf)) t" for t
  proof (rule nth_equalityI)
    fix i assume "i < length (disk_sector b1 t)"
    then have i: "i < 512" by simp
    have "disk_sector b1 t ! i = (if t = s then w (of_nat i) else disk_sector b t ! i)"
      using False in_sector_iff [OF i, of s t] i by (auto simp: b1_def execute_write nth_disk_sector)
    then show "disk_sector b1 t ! i = ((disk_sector b)(s := buf)) t ! i" using w(2) i by simp
  qed (use assms in simp)
  moreover have "rest_of b1 = rest_of b" using False by (simp add: rest_of_def b1_def execute_write)
  ultimately show ?thesis using False by (auto simp: disk_write_def sector_le)
qed

section \<open>Histories of sector operations\<close>

text \<open>
  A client issues reads and writes; the results are the codes and, for reads, the bytes.
\<close>

datatype sector_op = SRead u32 | SWrite u32 "u8 list"

primrec op_ok :: "sector_op \<Rightarrow> bool" where
  "op_ok (SRead s) = True"
| "op_ok (SWrite s buf) = (length buf = 512)"

primrec disk_step :: "sector_op \<Rightarrow> disk \<Rightarrow> (int \<times> u8 list) \<times> disk" where
  "disk_step (SRead s) d = (disk_read d s (replicate 512 0), d)"
| "disk_step (SWrite s buf) d = (let (r, d) = disk_write d s buf in ((r, []), d))"

primrec disk_run :: "sector_op list \<Rightarrow> disk \<Rightarrow> (int \<times> u8 list) list \<times> disk" where
  "disk_run [] d = ([], d)"
| "disk_run (x # xs) d =
     (let (r, d) = disk_step x d; (rs, d) = disk_run xs d in (r # rs, d))"

primrec driver_step :: "sector_op \<Rightarrow> bus \<Rightarrow> (int \<times> u8 list) outcome \<times> bus" where
  "driver_step (SRead s) b =
     xbind (block_read b s (Some (replicate 512 0))) (\<lambda>(r, buf) b. (Ret (r, case buf of Some x \<Rightarrow> x | None \<Rightarrow> []), b))"
| "driver_step (SWrite s buf) b = xbind (block_write b s (Some buf)) (\<lambda>r b. (Ret (r, []), b))"

primrec device_run :: "(sector_op \<Rightarrow> 's \<Rightarrow> (int \<times> u8 list) outcome \<times> 's) \<Rightarrow> sector_op list \<Rightarrow> 's \<Rightarrow>
    (int \<times> u8 list) list outcome \<times> 's" where
  "device_run step [] b = (Ret [], b)"
| "device_run step (x # xs) b =
     xbind (step x b) (\<lambda>r b. xbind (device_run step xs b) (\<lambda>rs b. (Ret (r # rs), b)))"

text \<open>What a sector device promises: each operation acts on its image as on the disk.\<close>

locale sector_device =
  fixes step :: "sector_op \<Rightarrow> 's \<Rightarrow> (int \<times> u8 list) outcome \<times> 's"
    and image_of :: "'s \<Rightarrow> disk"
    and frame :: "'s \<Rightarrow> 'r"
  assumes step_image: "op_ok x \<Longrightarrow>
    \<exists>b'. step x b = (Ret (fst (disk_step x (image_of b))), b') \<and>
      image_of b' = snd (disk_step x (image_of b)) \<and> frame b' = frame b"
begin

lemma run_image:
  "list_all op_ok xs \<Longrightarrow>
   \<exists>b'. device_run step xs b = (Ret (fst (disk_run xs (image_of b))), b') \<and>
     image_of b' = snd (disk_run xs (image_of b)) \<and> frame b' = frame b"
proof (induction xs arbitrary: b)
  case (Cons x xs)
  then obtain b' where b': "step x b = (Ret (fst (disk_step x (image_of b))), b')"
    "image_of b' = snd (disk_step x (image_of b))" "frame b' = frame b"
    using step_image [of x b] by auto
  obtain b'' where "device_run step xs b' = (Ret (fst (disk_run xs (image_of b'))), b'')"
    "image_of b'' = snd (disk_run xs (image_of b'))" "frame b'' = frame b'"
    using Cons by fastforce
  with b' show ?case by (simp add: split_beta Let_def)
qed simp

end

interpretation driver: sector_device driver_step disk_sector rest_of
proof
  fix x b assume "op_ok x"
  then show "\<exists>b'. driver_step x b = (Ret (fst (disk_step x (disk_sector b))), b') \<and>
      disk_sector b' = snd (disk_step x (disk_sector b)) \<and> rest_of b' = rest_of b"
  proof (cases x)
    case (SRead s)
    then show ?thesis using block_read_disk [of "replicate 512 0" b s] by fastforce
  next
    case (SWrite s buf)
    with \<open>op_ok x\<close> show ?thesis using block_write_disk [of buf b s] by (fastforce simp: Let_def)
  qed
qed

text \<open>
  C13. The block driver on the emulator's bus implements a disk.  For every sequence of sector
  reads and writes (write buffers of 512 bytes), block_read and block_write return, without a
  bus fault, the codes and bytes the abstract disk returns; the device then holds exactly the
  disk's new contents, and no other part of the machine has changed.
\<close>

theorem driver_refines_disk:
  assumes "list_all op_ok ops"
  shows "\<exists>b'. device_run driver_step ops b = (Ret (fst (disk_run ops (disk_sector b))), b') \<and>
    disk_sector b' = snd (disk_run ops (disk_sector b)) \<and> rest_of b' = rest_of b"
  by (rule driver.run_image [OF assms])

theorem driver_refines_disk_witness:
  "\<exists>b'. device_run driver_step [SWrite 3 (replicate 512 7), SRead 3, SRead 16384] (bus_init [] (\<lambda>_. 0)) =
     (Ret [(0, []), (0, replicate 512 7), (-1, replicate 512 0)], b')"
proof -
  let ?ops = "[SWrite 3 (replicate 512 7), SRead 3, SRead 16384]"
  have ok: "list_all op_ok ?ops" by simp
  have "fst (disk_run ?ops d) = [(0, []), (0, replicate 512 7), (-1, replicate 512 0)]" for d
    by (simp add: disk_read_def disk_write_def)
  with driver_refines_disk [OF ok, of "bus_init [] (\<lambda>_. 0)"] show ?thesis by auto
qed

end
