(* ===== verification/Os_Uart.thy ===== *)
theory Os_Uart
  imports Os_Block
begin

text \<open>
  The UART driver (\<^verbatim>\<open>kernel/uart.c\<close> on \<^verbatim>\<open>platform/cemu/platform_uart.c\<close>) on the emulator's bus.  A polling
  loop may not return: output polls are a partial function, and a loop that waits for input runs
  against a schedule that says before which polls the emulator's listener thread delivers a byte of
  the standard input; the end of the schedule is the value None.
\<close>

section \<open>Output\<close>

partial_function (option) platform_uart_putc :: "u8 \<Rightarrow> bus \<Rightarrow> (unit outcome \<times> bus) option" where
  "platform_uart_putc c b =
     (case mmio_load b (UART_BASE + 5) 8 of
        (Ret lsr, b) \<Rightarrow>
          if lsr AND 0x20 = 0 then platform_uart_putc c b
          else Some (xbind (bus_store b UART_BASE 8 (ucast c)) (\<lambda>_ b. (Ret (), b)))
      | (Throw e, b) \<Rightarrow> Some (Throw e, b)
      | (Undefined, b) \<Rightarrow> Some (Undefined, b))"

primrec uart_puts :: "u8 list \<Rightarrow> bus \<Rightarrow> (unit outcome \<times> bus) option" where
  "uart_puts [] b = Some (Ret (), b)"
| "uart_puts (c # s) b =
     (case platform_uart_putc c b of
        Some (Ret _, b) \<Rightarrow> uart_puts s b
      | Some (Throw e, b) \<Rightarrow> Some (Throw e, b)
      | Some (Undefined, b) \<Rightarrow> Some (Undefined, b)
      | None \<Rightarrow> None)"

section \<open>Input\<close>

definition platform_uart_getc_nonblock :: "bus \<Rightarrow> int outcome \<times> bus" where
  "platform_uart_getc_nonblock b =
     xbind (mmio_load b (UART_BASE + 5) 8) (\<lambda>lsr b.
       if lsr AND 1 \<noteq> 0 then xbind (mmio_load b UART_BASE 8) (\<lambda>rhr b. (Ret (uint rhr), b))
       else (Ret (-1), b))"

text \<open>The result and the new \<^verbatim>\<open>peek_char\<close>.\<close>

definition uart_has_data :: "int \<Rightarrow> bus \<Rightarrow> (int \<times> int) outcome \<times> bus" where
  "uart_has_data peek_char b =
     (if peek_char \<ge> 0 then (Ret (1, peek_char), b)
      else xbind (platform_uart_getc_nonblock b) (\<lambda>ch b.
        if ch \<ge> 0 then (Ret (1, ch), b) else (Ret (0, peek_char), b)))"

definition listen :: "bool \<Rightarrow> bus \<times> u8 list \<Rightarrow> bus \<times> u8 list" where
  "listen delivers bi =
     (case bi of (b, c # stdin) \<Rightarrow>
        (case (if delivers then uart_receive (bus_uart b) c else None) of
           Some u \<Rightarrow> (b\<lparr>bus_uart := u\<rparr>, stdin) | None \<Rightarrow> (b, c # stdin))
      | (b, []) \<Rightarrow> (b, []))"

primrec getc_loop :: "bool list \<Rightarrow> bus \<times> u8 list \<Rightarrow> (u8 outcome \<times> bus \<times> u8 list) option" where
  "getc_loop [] bi = None"
| "getc_loop (d # ds) bi =
     (let (b, stdin) = listen d bi
      in case platform_uart_getc_nonblock b of
           (Ret ch, b) \<Rightarrow> if ch \<ge> 0 then Some (Ret (of_int ch), b, stdin) else getc_loop ds (b, stdin)
         | (Throw e, b) \<Rightarrow> Some (Throw e, b, stdin)
         | (Undefined, b) \<Rightarrow> Some (Undefined, b, stdin))"

definition uart_getc :: "bool list \<Rightarrow> int \<Rightarrow> bus \<times> u8 list \<Rightarrow> (u8 outcome \<times> int \<times> bus \<times> u8 list) option" where
  "uart_getc ds peek_char bi =
     (if peek_char \<ge> 0 then Some (Ret (of_int peek_char), -1, bi)
      else map_option (\<lambda>(r, bi). (r, peek_char, bi)) (getc_loop ds bi))"

section \<open>The registers through the bus\<close>

abbreviation lsr :: "bus \<Rightarrow> u8" where "lsr b \<equiv> uart_regs (bus_uart b) UART_LSR"
abbreviation rhr :: "bus \<Rightarrow> u8" where "rhr b \<equiv> uart_regs (bus_uart b) UART_RHR"

lemma load_lsr [simp]: "mmio_load b 0x10000005 8 = (Ret (ucast (lsr b)), b)"
  by (simp add: mmio_load_def bus_load_def uart_load_def Let_def)

lemma load_rhr [simp]:
  "mmio_load b 0x10000000 8 =
     (Ret (ucast (rhr b)), b\<lparr>bus_uart := (bus_uart b)\<lparr>uart_regs := (uart_regs (bus_uart b))(UART_LSR := lsr b AND NOT 1)\<rparr>\<rparr>)"
  by (simp add: mmio_load_def bus_load_def uart_load_def Let_def)

lemma store_thr [simp]:
  "bus_store b 0x10000000 8 v = (Ret True, b\<lparr>bus_uart := (bus_uart b)\<lparr>uart_out := uart_out (bus_uart b) @ [ucast v]\<rparr>\<rparr>)"
  by (simp add: bus_store_def uart_store_def Let_def)

lemma ucast_8_64: "ucast (ucast (c :: u8) :: u64) = c"
  by (rule bit_word_eqI) (auto simp: bit_simps)

lemma ucast_and_1: "ucast (x :: u8) AND (1 :: u64) \<noteq> 0 \<longleftrightarrow> x AND 1 = 1" "ucast (x :: u8) AND (0x20 :: u64) = 0 \<longleftrightarrow> x AND 0x20 = 0"
proof -
  have "ucast x AND (1 :: u64) = ucast (x AND 1)" "ucast x AND (0x20 :: u64) = ucast (x AND 0x20)"
    by (simp_all add: unsigned_and_eq)
  moreover have "ucast y = (0 :: u64) \<longleftrightarrow> y = 0" for y :: u8
    using ucast_8_64 [of y] by auto
  moreover have "x AND 1 = 0 \<or> x AND 1 = 1" by (simp add: and_one_eq mod2_eq_if)
  ultimately show "ucast x AND (1 :: u64) \<noteq> 0 \<longleftrightarrow> x AND 1 = 1" "ucast x AND (0x20 :: u64) = 0 \<longleftrightarrow> x AND 0x20 = 0"
    by auto
qed

text \<open>
  C18. Output always gets out: on the emulator's UART, whose transmitter is always ready, \<open>uart_puts\<close> returns
  and sends exactly the bytes of the string, in order, and changes nothing else.
\<close>

theorem uart_puts_output:
  assumes "lsr b AND 0x20 \<noteq> 0"
  shows "uart_puts s b = Some (Ret (), b\<lparr>bus_uart := (bus_uart b)\<lparr>uart_out := uart_out (bus_uart b) @ s\<rparr>\<rparr>)"
  using assms
proof (induction s arbitrary: b)
  case (Cons c s)
  have "platform_uart_putc c b = Some (Ret (), b\<lparr>bus_uart := (bus_uart b)\<lparr>uart_out := uart_out (bus_uart b) @ [c]\<rparr>\<rparr>)"
    using Cons.prems by (subst platform_uart_putc.simps) (simp add: ucast_and_1 ucast_8_64)
  then show ?case using Cons by simp
qed simp

theorem uart_puts_output_witness:
  "uart_puts [104, 105] (bus_init [] (\<lambda>_. 0)) =
   Some (Ret (), (bus_init [] (\<lambda>_. 0))\<lparr>bus_uart := uart_init\<lparr>uart_out := [104, 105]\<rparr>\<rparr>)"
  using uart_puts_output [of "bus_init [] (\<lambda>_. 0)" "[104, 105]"] by (simp add: bus_init_def uart_init_def)

section \<open>The input stream\<close>

text \<open>The bytes still to be read: the one peeked at, the one in the receive register, the standard input.\<close>

definition input_view :: "int \<Rightarrow> bus \<times> u8 list \<Rightarrow> u8 list" where
  "input_view peek_char bi =
     (if peek_char \<ge> 0 then [of_int peek_char] else []) @ (if lsr (fst bi) AND 1 = 1 then [rhr (fst bi)] else []) @ snd bi"

lemma listen_view: "input_view p (listen d bi) = input_view p bi"
  by (auto simp: input_view_def listen_def uart_receive_def split: prod.split list.split option.split if_splits)

lemma getc_view:
  "platform_uart_getc_nonblock b = (if lsr b AND 1 = 1
     then (Ret (uint (rhr b)), b\<lparr>bus_uart := (bus_uart b)\<lparr>uart_regs := (uart_regs (bus_uart b))(UART_LSR := lsr b AND NOT 1)\<rparr>\<rparr>)
     else (Ret (-1), b))"
  using ucast_and_1(1) [of "lsr b"] by (auto simp: platform_uart_getc_nonblock_def uint_up_ucast is_up)

lemma getc_loop_view:
  "getc_loop ds bi = Some (r, bi') \<Longrightarrow> \<exists>c. r = Ret c \<and> input_view (-1) bi = c # input_view (-1) bi'"
proof (induction ds arbitrary: bi)
  case (Cons d ds)
  obtain b stdin where l: "listen d bi = (b, stdin)" by (metis surj_pair)
  have v: "input_view (-1) bi = input_view (-1) (b, stdin)" using listen_view [of "-1" d bi] l by simp
  show ?case
  proof (cases "lsr b AND 1 = 1")
    case True
    then show ?thesis using Cons.prems v by (auto simp: l getc_view input_view_def and.assoc)
  next
    case False
    then show ?thesis using Cons.prems Cons.IH v by (simp add: l getc_view)
  qed
qed simp

lemma getc_loop_returns:
  "lsr (fst bi) AND 1 = 1 \<Longrightarrow> ds \<noteq> [] \<Longrightarrow> getc_loop ds bi \<noteq> None"
  "snd bi \<noteq> [] \<Longrightarrow> True \<in> set ds \<Longrightarrow> getc_loop ds bi \<noteq> None"
proof -
  show *: "lsr (fst bi) AND 1 = 1 \<Longrightarrow> ds \<noteq> [] \<Longrightarrow> getc_loop ds bi \<noteq> None" for bi ds
    by (cases ds; cases bi; cases "snd bi") (auto simp: listen_def uart_receive_def getc_view)
  show "snd bi \<noteq> [] \<Longrightarrow> True \<in> set ds \<Longrightarrow> getc_loop ds bi \<noteq> None"
  proof (induction ds arbitrary: bi)
    case (Cons d ds)
    obtain b c stdin where bi: "bi = (b, c # stdin)" using Cons.prems by (cases bi; cases "snd bi") auto
    show ?case
    proof (cases "lsr b AND 1 = 1")
      case True
      then show ?thesis using * [of bi "d # ds"] bi by simp
    next
      case False
      then show ?thesis using Cons bi
        by (cases d) (auto simp: listen_def uart_receive_def getc_view bit.conj_disj_distrib2)
    qed
  qed simp
qed

text \<open>
  C19. The driver reads the input stream without losing, duplicating or reordering a byte: \<open>uart_has_data\<close>
  leaves the stream as it is and answers 1 exactly when a byte is at hand, and a byte that \<open>uart_getc\<close>
  returns is the first of the stream, which continues with the bytes after it.  \<open>uart_has_data\<close> keeps the
  peeked byte in the range of a byte.
\<close>

theorem uart_input_stream:
  assumes "- 1 \<le> p" "p < 256"
  shows "(\<exists>r p' b'. uart_has_data p b = (Ret (r, p'), b') \<and> - 1 \<le> p' \<and> p' < 256 \<and>
            input_view p' (b', stdin) = input_view p (b, stdin) \<and> r = (if p' \<ge> 0 then 1 else 0) \<and>
            (r = 1 \<longleftrightarrow> input_view p (b, []) \<noteq> [])) \<and>
         (\<forall>ds r p' bi'. uart_getc ds p (b, stdin) = Some (r, p', bi') \<longrightarrow>
            p' = - 1 \<and> (\<exists>c. r = Ret c \<and> input_view p (b, stdin) = c # input_view p' bi'))"
proof (intro conjI allI impI)
  have "- 1 \<le> uint (rhr b)" "uint (rhr b) < 256"
    using uint_lt2p [of "rhr b"] order_trans [of "- 1" 0 "uint (rhr b)"] by simp_all
  then show "\<exists>r p' b'. uart_has_data p b = (Ret (r, p'), b') \<and> - 1 \<le> p' \<and> p' < 256 \<and>
           input_view p' (b', stdin) = input_view p (b, stdin) \<and> r = (if p' \<ge> 0 then 1 else 0) \<and>
           (r = 1 \<longleftrightarrow> input_view p (b, []) \<noteq> [])"
    using assms by (auto simp: uart_has_data_def getc_view input_view_def and.assoc)
next
  fix ds r p' bi' assume g: "uart_getc ds p (b, stdin) = Some (r, p', bi')"
  have "p \<ge> 0 \<or> p = - 1" using assms by arith
  then show "p' = - 1" "\<exists>c. r = Ret c \<and> input_view p (b, stdin) = c # input_view p' bi'"
    using g getc_loop_view [of ds "(b, stdin)" r bi'] by (auto simp: uart_getc_def input_view_def)
qed

theorem uart_input_stream_witness:
  "uart_getc [True] (- 1) (bus_init [] (\<lambda>_. 0), [104, 105]) \<noteq> None \<and>
   (\<exists>r p' b'. uart_has_data (- 1) (bus_init [] (\<lambda>_. 0)) = (Ret (r, p'), b') \<and> input_view p' (b', [104, 105]) = [104, 105])"
proof -
  have "input_view (- 1) (bus_init [] (\<lambda>_. 0), [104, 105]) = [104, 105]"
    by (simp add: input_view_def bus_init_def uart_init_def)
  then show ?thesis
    using uart_input_stream [of "- 1" "bus_init [] (\<lambda>_. 0)" "[104, 105]"]
      getc_loop_returns(2) [of "(bus_init [] (\<lambda>_. 0), [104, 105])" "[True]"]
    by (auto simp: uart_getc_def)
qed

text \<open>
  C20. Reading does not hang while there is input: \<open>uart_getc\<close> returns when a byte was peeked, when the receive
  register holds one and it polls at all, and when the standard input has one and the listener delivers it
  before one of the polls.
\<close>

theorem uart_getc_returns:
  assumes "p \<ge> 0 \<or> (lsr (fst bi) AND 1 = 1 \<and> ds \<noteq> []) \<or> (snd bi \<noteq> [] \<and> True \<in> set ds)"
  shows "\<exists>c p' bi'. uart_getc ds p bi = Some (Ret c, p', bi')"
proof (cases "p \<ge> 0")
  case False
  then have "getc_loop ds bi \<noteq> None" using assms getc_loop_returns(1) [of bi ds] getc_loop_returns(2) [of bi ds] by argo
  then obtain r bi' where "getc_loop ds bi = Some (r, bi')" by fast
  then show ?thesis using False getc_loop_view by (fastforce simp: uart_getc_def)
qed (simp add: uart_getc_def)

theorem uart_getc_returns_witness:
  "\<exists>c p' bi'. uart_getc [False, False, True] (- 1) (bus_init [] (\<lambda>_. 0), [104]) = Some (Ret c, p', bi')"
  using uart_getc_returns [of "- 1" "(bus_init [] (\<lambda>_. 0), [104])" "[False, False, True]"] by simp

end
