(* ===== verification/Os_Mem.thy ===== *)
theory Os_Mem
  imports Prelude
begin

text \<open>
  Kernel memory and the physical page allocator (\<^verbatim>\<open>kernel/mem.c\<close>).  Memory is a
  function from addresses to bytes; free pages are linked through their first eight bytes.
  \<open>_kernel_start\<close> and \<open>_stack_top\<close> have the values of \<^verbatim>\<open>linker.ld\<close>; \<open>_kernel_end\<close>, which
  depends on the size of the linked kernel, is a parameter.
\<close>

section \<open>Memory\<close>

type_synonym bytes = "u64 \<Rightarrow> u8"

definition put_byte :: "bytes \<Rightarrow> u64 \<Rightarrow> u8 \<Rightarrow> bytes" where
  "put_byte m a b = m(a := b)"

definition load64 :: "bytes \<Rightarrow> u64 \<Rightarrow> u64" where
  "load64 m a = le_load 8 (\<lambda>i. m (a + of_nat i))"

definition store64 :: "bytes \<Rightarrow> u64 \<Rightarrow> u64 \<Rightarrow> bytes" where
  "store64 m a v = le_store put_byte 8 (\<lambda>i. a + of_nat i) v m"

interpretation ram: byte_store "\<lambda>m a. m a" put_byte "\<lambda>_ _. True"
  by unfold_locales (auto simp: put_byte_def)

section \<open>The allocator\<close>

abbreviation (input) PAGE_SIZE :: u64 where "PAGE_SIZE \<equiv> 4096"
abbreviation (input) STACK_GUARD :: u64 where "STACK_GUARD \<equiv> 262144"
abbreviation (input) kernel_start :: u64 where "kernel_start \<equiv> 0x80200000"
abbreviation (input) stack_top :: u64 where "stack_top \<equiv> 0x88000000"

record mem_state =
  ram_bytes :: bytes
  free_list :: u64
  total_free :: u64
  bump_ptr :: u64
  heap_end :: u64

definition align_up :: "u64 \<Rightarrow> u64 \<Rightarrow> u64" where
  "align_up addr align = (addr + align - 1) AND NOT (align - 1)"

definition mem_init :: "u64 \<Rightarrow> mem_state \<Rightarrow> mem_state" where
  "mem_init kernel_end s =
     (let bump = align_up kernel_end PAGE_SIZE;
          hend = (stack_top - STACK_GUARD) AND NOT (PAGE_SIZE - 1)
      in s\<lparr>bump_ptr := bump, heap_end := hend, free_list := 0,
           total_free := (if hend > bump then (hend - bump) div PAGE_SIZE else 0)\<rparr>)"

definition kalloc :: "mem_state \<Rightarrow> u64 \<times> mem_state" where
  "kalloc s =
     (if free_list s \<noteq> 0 then
        (let page = free_list s
         in (page, s\<lparr>free_list := load64 (ram_bytes s) page, total_free := total_free s - 1\<rparr>))
      else if bump_ptr s + PAGE_SIZE > heap_end s then (0, s)
      else (let page = bump_ptr s
        in (page, s\<lparr>bump_ptr := bump_ptr s + PAGE_SIZE, total_free := total_free s - 1\<rparr>)))"

definition kfree :: "mem_state \<Rightarrow> u64 \<Rightarrow> mem_state" where
  "kfree s addr =
     (if addr = 0 then s
      else if addr AND (PAGE_SIZE - 1) \<noteq> 0 then s
      else if addr < kernel_start \<or> addr \<ge> stack_top then s
      else s\<lparr>ram_bytes := store64 (ram_bytes s) addr (free_list s), free_list := addr,
             total_free := total_free s + 1\<rparr>)"

definition mem_free_pages :: "mem_state \<Rightarrow> u64" where
  "mem_free_pages s = total_free s"

section \<open>Words in memory\<close>

lemma offset_inj8: "inj_on (\<lambda>i. x + of_nat i :: u64) {..<8}"
  by (rule offset_inj) simp

lemma load64_store64 [simp]: "load64 (store64 m a v) a = v"
  unfolding load64_def store64_def
  by (subst ram.load_store) (simp_all add: offset_inj8 take_bit_word_eq_self)

lemma load64_store64_other:
  assumes "unat a + 8 \<le> unat b \<or> unat b + 8 \<le> unat a" and "unat a + 8 \<le> 2 ^ 64" "unat b + 8 \<le> 2 ^ 64"
  shows "load64 (store64 m a v) b = load64 m b"
  unfolding load64_def store64_def
  using assms offset_disjoint [of a 8 b 8] offset_disjoint [of b 8 a 8]
  by (intro ram.load_store_other) auto

lemma store64_outside: "b \<notin> (\<lambda>i. a + of_nat i) ` {..<8} \<Longrightarrow> store64 m a v b = m b"
  unfolding store64_def by (rule ram.get_le_store_other)

lemma load64_cong: "(\<And>i. i < 8 \<Longrightarrow> m (a + of_nat i) = m' (a + of_nat i)) \<Longrightarrow> load64 m a = load64 m' a"
  unfolding load64_def by (rule le_load_cong) auto

section \<open>Pages\<close>

definition page_aligned :: "u64 \<Rightarrow> bool" where
  "page_aligned a \<longleftrightarrow> 4096 dvd unat a"

lemma page_aligned_and: "a AND (PAGE_SIZE - 1) = 0 \<longleftrightarrow> page_aligned a"
proof -
  have "a AND (PAGE_SIZE - 1) = take_bit 12 a" by (simp add: take_bit_eq_mask mask_eq_exp_minus_1)
  moreover have "unat (take_bit 12 a) = unat a mod 4096"
    by (simp only: unsigned_take_bit_eq) (simp add: take_bit_eq_mod)
  ultimately show ?thesis
    unfolding page_aligned_def dvd_eq_mod_eq_0 by (metis unsigned_0 unsigned_word_eqI)
qed

lemma aligned_apart:
  assumes "page_aligned a" "page_aligned b" "unat a < unat b" shows "unat a + 4096 \<le> unat b"
proof -
  obtain x y where "unat a = 4096 * x" "unat b = 4096 * y"
    using assms(1,2) unfolding page_aligned_def by (auto elim!: dvdE)
  then show ?thesis using assms(3) by simp
qed

text \<open>The chain of free pages starting at \<open>p\<close>.\<close>

fun free_chain :: "bytes \<Rightarrow> u64 \<Rightarrow> u64 list \<Rightarrow> bool" where
  "free_chain m p [] \<longleftrightarrow> p = 0"
| "free_chain m p (x # xs) \<longleftrightarrow> p = x \<and> x \<noteq> 0 \<and> free_chain m (load64 m x) xs"

text \<open>The pages from \<open>b\<close> up to \<open>e\<close>.\<close>

definition page_range :: "u64 \<Rightarrow> u64 \<Rightarrow> u64 set" where
  "page_range b e = {p. page_aligned p \<and> b \<le> p \<and> p < e}"

text \<open>
  \<open>mem_rep s F\<close>: the allocator's free pages are exactly \<open>F\<close>, the pages on the chain and those
  not yet reached by the bump pointer, and \<open>total_free\<close> counts them.
\<close>

definition mem_rep :: "mem_state \<Rightarrow> u64 set \<Rightarrow> bool" where
  "mem_rep s F \<longleftrightarrow>
     (\<exists>xs. free_chain (ram_bytes s) (free_list s) xs \<and> distinct xs \<and>
        set xs \<subseteq> page_range kernel_start (bump_ptr s) \<and>
        F = set xs \<union> page_range (bump_ptr s) (heap_end s) \<and>
        page_aligned (bump_ptr s) \<and> page_aligned (heap_end s) \<and>
        kernel_start \<le> bump_ptr s \<and> bump_ptr s \<le> heap_end s \<and> heap_end s \<le> stack_top \<and>
        total_free s = of_nat (card F))"

section \<open>Page ranges\<close>

lemma finite_page_range [simp]: "finite (page_range b e)"
  by (rule finite_subset [OF subset_UNIV]) simp

lemma page_range_less:
  "p \<in> page_range b e \<longleftrightarrow> page_aligned p \<and> unat b \<le> unat p \<and> unat p < unat e"
  by (auto simp: page_range_def word_le_nat_alt word_less_nat_alt)

lemma page_range_empty [simp]: "page_range b b = {}"
  by (auto simp: page_range_def)

lemma page_range_step:
  assumes "page_aligned b" "page_aligned e" "unat b < unat e" "unat e \<le> 0x88000000"
  shows "b \<in> page_range b e" "page_range (b + PAGE_SIZE) e = page_range b e - {b}"
    "unat (b + PAGE_SIZE) = unat b + 4096" "unat b + 4096 \<le> unat e"
proof -
  show le: "unat b + 4096 \<le> unat e" using assms by (intro aligned_apart) auto
  have "unat (b + of_nat 4096) = unat b + 4096" by (rule unat_offset) (use le assms in simp)
  then show u: "unat (b + PAGE_SIZE) = unat b + 4096" by simp
  show "b \<in> page_range b e" using assms by (simp add: page_range_less)
  have "unat b + 4096 \<le> unat p \<longleftrightarrow> unat b \<le> unat p \<and> p \<noteq> b" if "page_aligned p" for p
  proof
    assume "unat b \<le> unat p \<and> p \<noteq> b"
    then have "unat b < unat p" by (auto simp: le_less word_unat_eq_iff)
    then show "unat b + 4096 \<le> unat p" by (rule aligned_apart [OF assms(1) that])
  qed auto
  then show "page_range (b + PAGE_SIZE) e = page_range b e - {b}"
    unfolding set_eq_iff by (auto simp: page_range_less u)
qed

lemma card_page_range:
  assumes "page_aligned b" "page_aligned e" "unat b \<le> unat e"
  shows "card (page_range b e) = (unat e - unat b) div 4096"
proof -
  obtain x y where xy: "unat b = 4096 * x" "unat e = 4096 * y"
    using assms(1,2) unfolding page_aligned_def by (auto elim!: dvdE)
  have "bij_betw (\<lambda>p. unat p div 4096) (page_range b e) {x ..< y}"
  proof (rule bij_betw_imageI)
    show "inj_on (\<lambda>p. unat p div 4096) (page_range b e)"
      by (rule inj_onI) (auto simp: page_range_less page_aligned_def word_unat_eq_iff elim!: dvdE)
    show "(\<lambda>p. unat p div 4096) ` page_range b e = {x ..< y}"
    proof (intro set_eqI iffI)
      fix k assume "k \<in> {x ..< y}"
      then have k: "x \<le> k" "k < y" by auto
      then have "4096 * k < 2 ^ 64" using xy unsigned_less [of e, where ?'a = nat] by simp
      then have u: "unat (of_nat (4096 * k) :: u64) = 4096 * k" by (rule unat_of_nat_u64)
      then have "(of_nat (4096 * k) :: u64) \<in> page_range b e"
        using k xy by (simp add: page_range_less page_aligned_def del: of_nat_mult)
      then show "k \<in> (\<lambda>p. unat p div 4096) ` page_range b e"
        using u by (intro image_eqI [where x = "of_nat (4096 * k)"]) (simp_all del: of_nat_mult)
    qed (auto simp: page_range_less page_aligned_def xy elim!: dvdE)
  qed
  then have "card (page_range b e) = y - x" by (simp add: bij_betw_same_card)
  also have "\<dots> = (unat e - unat b) div 4096" by (simp add: xy flip: diff_mult_distrib2)
  finally show ?thesis .
qed

section \<open>The free set\<close>

lemma free_chain_cong:
  assumes "free_chain m p xs" "\<And>x i. x \<in> set xs \<Longrightarrow> i < 8 \<Longrightarrow> m' (x + of_nat i) = m (x + of_nat i)"
  shows "free_chain m' p xs"
  using assms
proof (induction xs arbitrary: p)
  case (Cons x xs)
  moreover have "load64 m' x = load64 m x" by (rule load64_cong) (simp add: Cons.prems)
  ultimately show ?case by simp
qed simp

lemma mem_rep_bytes:
  assumes "mem_rep s F" "\<And>x i. x \<in> F \<Longrightarrow> i < 8 \<Longrightarrow> m' (x + of_nat i) = ram_bytes s (x + of_nat i)"
  shows "mem_rep (s\<lparr>ram_bytes := m'\<rparr>) F"
proof -
  from assms(1) obtain xs where "free_chain (ram_bytes s) (free_list s) xs" and F: "set xs \<subseteq> F"
    and rest: "distinct xs" "set xs \<subseteq> page_range kernel_start (bump_ptr s)"
        "F = set xs \<union> page_range (bump_ptr s) (heap_end s)"
        "page_aligned (bump_ptr s)" "page_aligned (heap_end s)"
        "kernel_start \<le> bump_ptr s" "bump_ptr s \<le> heap_end s" "heap_end s \<le> stack_top"
        "total_free s = of_nat (card F)"
    unfolding mem_rep_def by blast
  then have "free_chain m' (free_list s) xs" using assms(2) by (blast intro: free_chain_cong)
  then show ?thesis using rest unfolding mem_rep_def by (intro exI [of _ xs]) simp
qed

lemma finite_rep: "mem_rep s F \<Longrightarrow> finite F"
  unfolding mem_rep_def by auto

lemma of_nat_card_diff:
  "finite F \<Longrightarrow> p \<in> F \<Longrightarrow> (of_nat (card F) :: u64) - 1 = of_nat (card (F - {p}))"
  by (subst card.remove [of F p]) auto

lemma rep_pages:
  assumes "mem_rep s F" "p \<in> F"
  shows "page_aligned p" "kernel_start \<le> p" "p < stack_top"
  using assms unfolding mem_rep_def
  by (auto simp: page_range_def intro: order.trans order.strict_trans2)

lemma bit_4095: "bit (4095 :: u64) n \<longleftrightarrow> n < 12"
proof -
  have "(4095 :: u64) = mask 12" by (simp add: mask_eq_exp_minus_1)
  then show ?thesis by (simp only: bit_mask_iff) auto
qed

lemma unat_page_floor: "unat (x AND NOT 4095) = 4096 * (unat x div 4096)" for x :: u64
proof -
  have "x AND NOT 4095 = push_bit 12 (drop_bit 12 x)"
    by (rule bit_word_eqI) (simp only: bit_field_simps bit_4095, auto)
  moreover have "unat (push_bit 12 (drop_bit 12 x)) = take_bit 64 (push_bit 12 (drop_bit 12 (take_bit 64 (unat x))))"
    by (simp only: unsigned_push_bit_eq unsigned_drop_bit_eq) simp
  moreover have "take_bit 64 (unat x) = unat x" 
    using unsigned_less [of x, where ?'a = nat] by (simp add: take_bit_nat_eq_self)
  moreover have "4096 * (unat x div 4096) < 2 ^ 64"
    using unsigned_less [of x, where ?'a = nat] times_div_less_eq_dividend [of 4096 "unat x"] by simp
  ultimately show ?thesis by (simp add: push_bit_nat_def drop_bit_nat_def take_bit_nat_eq_self mult.commute)
qed

lemma align_up_page:
  assumes "unat a \<le> 0x88000000"
  shows "page_aligned (align_up a PAGE_SIZE)" "unat a \<le> unat (align_up a PAGE_SIZE)"
    "page_aligned e \<Longrightarrow> unat a \<le> unat e \<Longrightarrow> unat (align_up a PAGE_SIZE) \<le> unat e"
proof -
  have "unat (a + of_nat 4095) = unat a + 4095" by (rule unat_offset) (use assms in simp)
  then have u: "unat (align_up a PAGE_SIZE) = 4096 * ((unat a + 4095) div 4096)"
    using unat_page_floor [of "a + 4095"] by (simp add: align_up_def add.commute)
  show "page_aligned (align_up a PAGE_SIZE)" unfolding page_aligned_def u by simp
  show "unat a \<le> unat (align_up a PAGE_SIZE)" unfolding u by linarith
  assume "page_aligned e" "unat a \<le> unat e"
  then obtain k where "unat e = 4096 * k" "unat a \<le> 4096 * k" by (auto simp: page_aligned_def elim!: dvdE)
  then show "unat (align_up a PAGE_SIZE) \<le> unat e" unfolding u by simp
qed

lemma mem_init_rep:
  assumes "kernel_start \<le> kernel_end" "kernel_end \<le> 0x87FC0000"
  shows "mem_rep (mem_init kernel_end s) (page_range (align_up kernel_end PAGE_SIZE) 0x87FC0000)"
proof -
  let ?b = "align_up kernel_end PAGE_SIZE" and ?e = "0x87FC0000 :: u64"
  have e: "page_aligned ?e" by (simp add: page_aligned_def)
  have ke: "unat kernel_end \<le> unat ?e" "unat kernel_end \<le> 0x88000000"
    using assms(2) by (simp_all add: word_le_nat_alt)
  note b = align_up_page [OF ke(2)]
  have be: "unat ?b \<le> unat ?e" by (rule b(3) [OF e ke(1)])
  have "(if ?e > ?b then (?e - ?b) div PAGE_SIZE else 0) = of_nat (card (page_range ?b ?e))"
  proof (cases "?e > ?b")
    case True
    then have "unat ((?e - ?b) div PAGE_SIZE) = (unat ?e - unat ?b) div 4096"
      by (simp add: unat_div unat_sub)
    moreover have "unat (of_nat ((unat ?e - unat ?b) div 4096) :: u64) = (unat ?e - unat ?b) div 4096"
      by (rule unat_of_nat_u64) simp
    ultimately show ?thesis using True card_page_range [OF b(1) e be] by (simp add: word_unat_eq_iff)
  next
    case False
    then have "?b = ?e" using be by (simp add: word_less_nat_alt word_unat_eq_iff)
    then show ?thesis by simp
  qed
  moreover have "kernel_start \<le> ?b" "?b \<le> ?e"
    using assms(1) b(2) be by (simp_all add: word_le_nat_alt)
  ultimately show ?thesis
    using b(1) e unfolding mem_rep_def by (intro exI [of _ "[]"]) (simp add: mem_init_def Let_def)
qed

lemma kalloc_rep:
  assumes "mem_rep s F" "kalloc s = (p, s')"
  shows "ram_bytes s' = ram_bytes s"
    and "F = {} \<Longrightarrow> p = 0 \<and> s' = s"
    and "F \<noteq> {} \<Longrightarrow> p \<in> F \<and> p \<noteq> 0 \<and> mem_rep s' (F - {p})"
proof -
  show "ram_bytes s' = ram_bytes s"
    using assms(2) by (auto simp: kalloc_def Let_def split: if_splits)
  from assms(1) obtain xs where xs: "free_chain (ram_bytes s) (free_list s) xs" "distinct xs"
      "set xs \<subseteq> page_range kernel_start (bump_ptr s)"
      "F = set xs \<union> page_range (bump_ptr s) (heap_end s)"
    and al: "page_aligned (bump_ptr s)" "page_aligned (heap_end s)"
      "kernel_start \<le> bump_ptr s" "bump_ptr s \<le> heap_end s" "heap_end s \<le> stack_top"
    and tot: "total_free s = of_nat (card F)"
    unfolding mem_rep_def by blast
  have le: "unat (bump_ptr s) \<le> unat (heap_end s)" "unat (heap_end s) \<le> 0x88000000"
    using al by (simp_all add: word_le_nat_alt)
  show "F = {} \<Longrightarrow> p = 0 \<and> s' = s"
  proof -
    assume "F = {}"
    with xs have "xs = []" "page_range (bump_ptr s) (heap_end s) = {}" by auto
    moreover from this have "\<not> unat (bump_ptr s) < unat (heap_end s)"
      using page_range_step(1) al(1,2) le by blast
    with le have "bump_ptr s = heap_end s" by (simp add: word_unat_eq_iff)
    moreover have "heap_end s < heap_end s + PAGE_SIZE"
    proof -
      have "unat (heap_end s + of_nat 4096) = unat (heap_end s) + 4096" by (rule unat_offset) (use le in simp)
      then show ?thesis by (simp add: word_less_nat_alt)
    qed
    ultimately show "p = 0 \<and> s' = s" using assms(2) xs(1) by (auto simp: kalloc_def split: if_splits)
  qed
  assume "F \<noteq> {}"
  show "p \<in> F \<and> p \<noteq> 0 \<and> mem_rep s' (F - {p})"
  proof (cases xs)
    case (Cons x ys)
    then have p: "p = x" "s' = s\<lparr>free_list := load64 (ram_bytes s) x, total_free := total_free s - 1\<rparr>"
      using assms(2) xs(1) by (auto simp: kalloc_def Let_def)
    have "x \<notin> page_range (bump_ptr s) (heap_end s)" using xs(3) Cons by (auto simp: page_range_def)
    then have "F - {x} = set ys \<union> page_range (bump_ptr s) (heap_end s)" using xs(2,4) Cons by auto
    moreover have "total_free s - 1 = of_nat (card (F - {x}))"
      unfolding tot by (rule of_nat_card_diff) (use finite_rep [OF assms(1)] xs(4) Cons in auto)
    ultimately have "mem_rep s' (F - {x})"
      unfolding mem_rep_def using xs al Cons p(2) by (intro exI [of _ ys]) auto
    then show ?thesis using p(1) xs(1,4) Cons by auto
  next
    case Nil
    then have F: "F = page_range (bump_ptr s) (heap_end s)" using xs(4) by simp
    have lt: "unat (bump_ptr s) < unat (heap_end s)"
      using \<open>F \<noteq> {}\<close> unfolding F by (auto simp: page_range_less)
    note step = page_range_step [OF al(1,2) lt le(2)]
    have "\<not> bump_ptr s + PAGE_SIZE > heap_end s"
      using step(3,4) by (simp add: word_less_nat_alt)
    then have p: "p = bump_ptr s" "s' = s\<lparr>bump_ptr := bump_ptr s + PAGE_SIZE, total_free := total_free s - 1\<rparr>"
      using assms(2) xs(1) Nil by (auto simp: kalloc_def Let_def split: if_splits)
    have "total_free s - 1 = of_nat (card (F - {p}))"
      unfolding tot by (rule of_nat_card_diff) (use step(1) F p in auto)
    moreover have "page_aligned (bump_ptr s + PAGE_SIZE)"
      using al(1) step(3) by (simp add: page_aligned_def)
    moreover have "kernel_start \<le> bump_ptr s + PAGE_SIZE" "bump_ptr s + PAGE_SIZE \<le> heap_end s"
      using al(3) step(3,4) by (simp_all add: word_le_nat_alt)
    ultimately have "mem_rep s' (F - {p})"
      unfolding mem_rep_def using al xs(1) Nil p step(2) F by (intro exI [of _ "[]"]) auto
    moreover have "p \<noteq> 0" using al(3) p(1) by auto
    ultimately show ?thesis using step(1) F p(1) by auto
  qed
qed

lemma kfree_rep:
  assumes "mem_rep s F" "page_aligned p" "kernel_start \<le> p" "p < bump_ptr s" "p \<notin> F"
  shows "mem_rep (kfree s p) (insert p F)"
    and "ram_bytes (kfree s p) = store64 (ram_bytes s) p (free_list s)"
proof -
  from assms(1) obtain xs where xs: "free_chain (ram_bytes s) (free_list s) xs" "distinct xs"
      "set xs \<subseteq> page_range kernel_start (bump_ptr s)"
      "F = set xs \<union> page_range (bump_ptr s) (heap_end s)"
    and al: "page_aligned (bump_ptr s)" "page_aligned (heap_end s)"
      "kernel_start \<le> bump_ptr s" "bump_ptr s \<le> heap_end s" "heap_end s \<le> stack_top"
    and tot: "total_free s = of_nat (card F)"
    unfolding mem_rep_def by blast
  have top: "p < stack_top" using assms(4) al(4,5) by (meson order.strict_trans2 order.trans)
  have s': "kfree s p = s\<lparr>ram_bytes := store64 (ram_bytes s) p (free_list s), free_list := p,
             total_free := total_free s + 1\<rparr>"
    using assms(2,3) top page_aligned_and [of p] by (auto simp: kfree_def)
  then show "ram_bytes (kfree s p) = store64 (ram_bytes s) p (free_list s)" by simp
  have keep: "store64 (ram_bytes s) p (free_list s) (x + of_nat i) = ram_bytes s (x + of_nat i)"
    if "x \<in> set xs" "i < 8" for x i
  proof (rule store64_outside)
    have x: "page_aligned x" "unat x < 0x88000000"
      using that(1) rep_pages [OF assms(1), of x] xs(4) by (auto simp: word_less_nat_alt)
    have "x \<noteq> p" using that(1) assms(5) xs(4) by auto
    then have "unat x < unat p \<or> unat p < unat x" by (simp add: word_unat_eq_iff neq_iff)
    then have "unat x + 8 \<le> unat p \<or> unat p + 8 \<le> unat x"
      using aligned_apart [OF x(1) assms(2)] aligned_apart [OF assms(2) x(1)] by linarith
    then show "x + of_nat i \<notin> (\<lambda>i. p + of_nat i) ` {..<8}"
      using offset_disjoint [of x 8 p 8] offset_disjoint [of p 8 x 8] that(2) x(2) top
      by (auto simp: word_less_nat_alt)
  qed
  have "free_chain (store64 (ram_bytes s) p (free_list s)) (free_list s) xs"
    by (rule free_chain_cong [OF xs(1)]) (rule keep)
  moreover have "p \<noteq> 0" using assms(3) by auto
  moreover have "p \<in> page_range kernel_start (bump_ptr s)" using assms(2-4) by (simp add: page_range_def)
  moreover have "total_free s + 1 = of_nat (card (insert p F))"
    using tot finite_rep [OF assms(1)] assms(5) by simp
  ultimately show "mem_rep (kfree s p) (insert p F)"
    using xs al assms(5) unfolding mem_rep_def s' by (intro exI [of _ "p # xs"]) auto
qed

section \<open>The contract of a page allocator\<close>

text \<open>
  \<open>rep s F U\<close> says that in state \<open>s\<close> the pages \<open>F\<close> are free and the pages \<open>U\<close> are handed
  out.  An allocation moves a page from \<open>F\<close> to \<open>U\<close> and returns the null page only when \<open>F\<close>
  is empty; releasing a page that is handed out moves it back.
\<close>

locale page_allocator =
  fixes alloc :: "'s \<Rightarrow> u64 \<times> 's"
    and release :: "'s \<Rightarrow> u64 \<Rightarrow> 's"
    and rep :: "'s \<Rightarrow> u64 set \<Rightarrow> u64 set \<Rightarrow> bool"
  assumes alloc_none: "rep s {} U \<Longrightarrow> alloc s = (0, s)"
    and alloc_page: "rep s F U \<Longrightarrow> F \<noteq> {} \<Longrightarrow> alloc s = (p, s') \<Longrightarrow>
          p \<noteq> 0 \<and> p \<in> F \<and> rep s' (F - {p}) (insert p U)"
    and release_page: "rep s F U \<Longrightarrow> p \<in> U \<Longrightarrow> rep (release s p) (insert p F) (U - {p})"
    and rep_disjoint: "rep s F U \<Longrightarrow> F \<inter> U = {} \<and> finite F \<and> finite U"
begin

lemma alloc_cases:
  assumes "rep s F U" "alloc s = (p, s')"
  obtains "F = {}" "p = 0" "s' = s"
  | "p \<noteq> 0" "p \<in> F" "p \<notin> U" "rep s' (F - {p}) (insert p U)"
  using assms alloc_none [of s U] alloc_page [of s F U p s'] rep_disjoint [OF assms(1)]
  by (cases "F = {}") auto

text \<open>Pages allocated one after the other are different pages.\<close>

primrec alloc_many :: "nat \<Rightarrow> 's \<Rightarrow> u64 list \<times> 's" where
  "alloc_many 0 s = ([], s)"
| "alloc_many (Suc n) s =
     (case alloc s of (p, s) \<Rightarrow> (case alloc_many n s of (ps, s) \<Rightarrow> (p # ps, s)))"

lemma alloc_many_distinct:
  "rep s F U \<Longrightarrow> n \<le> card F \<Longrightarrow> alloc_many n s = (ps, s') \<Longrightarrow>
     distinct ps \<and> length ps = n \<and> set ps \<subseteq> F \<and> 0 \<notin> set ps \<and> rep s' (F - set ps) (U \<union> set ps)"
proof (induction n arbitrary: s F U ps)
  case (Suc n)
  obtain p s1 ps1 where a: "alloc s = (p, s1)" "alloc_many n s1 = (ps1, s')" "ps = p # ps1"
    using Suc.prems(3) by (auto split: prod.splits)
  from Suc.prems(1) a(1) show ?case
  proof (cases rule: alloc_cases)
    case 2
    have "n \<le> card (F - {p})" using Suc.prems(1,2) 2 rep_disjoint by (simp add: card_Diff_singleton)
    moreover have "F - set ps = F - {p} - set ps1" "U \<union> set ps = insert p U \<union> set ps1"
      using a(3) by auto
    ultimately show ?thesis using Suc.IH [OF 2(4) _ a(2)] 2(1,2) a(3) by auto
  qed (use Suc.prems(2) in auto)
qed auto

text \<open>A history of allocations and releases of handed-out pages.\<close>

primrec step :: "u64 option \<Rightarrow> 's \<times> u64 set \<Rightarrow> 's \<times> u64 set" where
  "step None su = (case su of (s, U) \<Rightarrow> (case alloc s of (p, s') \<Rightarrow> (s', if p = 0 then U else insert p U)))"
| "step (Some p) su = (case su of (s, U) \<Rightarrow> if p \<in> U then (release s p, U - {p}) else (s, U))"

lemma history:
  "rep s F U \<Longrightarrow> fold step ops (s, U) = (s', U') \<Longrightarrow>
     \<exists>F'. rep s' F' U' \<and> F' \<union> U' = F \<union> U \<and> card F' + card U' = card F + card U"
proof (induction ops arbitrary: s F U)
  case (Cons op ops)
  show ?case
  proof (cases op)
    case None
    obtain p s1 where a: "alloc s = (p, s1)" by (cases "alloc s")
    from Cons.prems(1) a show ?thesis
    proof (cases rule: alloc_cases)
      case 1
      then show ?thesis using Cons.IH [of s F U] Cons.prems a None by simp
    next
      case 2
      then have "fold step ops (s1, insert p U) = (s', U')" using Cons.prems(2) a None by simp
      note IH = Cons.IH [OF 2(4) this]
      have "F - {p} \<union> insert p U = F \<union> U" using 2(2) by auto
      moreover have "card (F - {p}) + card (insert p U) = card F + card U"
        using 2(2,3) rep_disjoint [OF Cons.prems(1)] card_Suc_Diff1 [of F p] by simp
      ultimately show ?thesis using IH by simp
    qed
  next
    case (Some p)
    show ?thesis
    proof (cases "p \<in> U")
      case True
      then have "fold step ops (release s p, U - {p}) = (s', U')" using Cons.prems(2) Some by simp
      note IH = Cons.IH [OF release_page [OF Cons.prems(1) True] this]
      have "insert p F \<union> (U - {p}) = F \<union> U" using True by auto
      moreover have "p \<notin> F" "finite F" "finite U" using True rep_disjoint [OF Cons.prems(1)] by auto
      then have "card (insert p F) + card (U - {p}) = card F + card U"
        using True card_Suc_Diff1 [of U p] by simp
      ultimately show ?thesis using IH by simp
    next
      case False
      then show ?thesis using Cons.IH [of s F U] Cons.prems Some by simp
    qed
  qed
qed auto

end

text \<open>The kernel's allocator meets the contract.\<close>

definition heap_rep :: "mem_state \<Rightarrow> u64 set \<Rightarrow> u64 set \<Rightarrow> bool" where
  "heap_rep s F U \<longleftrightarrow> mem_rep s F \<and> U \<subseteq> page_range kernel_start (bump_ptr s) \<and> F \<inter> U = {}"

lemma kalloc_bump:
  assumes "kalloc s = (p, s')" "mem_rep s F" "F \<noteq> {}"
  shows "p \<in> page_range kernel_start (bump_ptr s')" "bump_ptr s \<le> bump_ptr s'"
proof -
  obtain xs where xs: "free_chain (ram_bytes s) (free_list s) xs"
      "set xs \<subseteq> page_range kernel_start (bump_ptr s)"
    and al: "page_aligned (bump_ptr s)" "kernel_start \<le> bump_ptr s" "bump_ptr s \<le> heap_end s"
      "heap_end s \<le> stack_top"
    using assms(2) unfolding mem_rep_def by blast
  have "unat (bump_ptr s) \<le> 0x88000000" using al(3,4) by (simp add: word_le_nat_alt)
  then have "unat (bump_ptr s + of_nat 4096) = unat (bump_ptr s) + 4096" by (intro unat_offset) simp
  then have up: "bump_ptr s < bump_ptr s + PAGE_SIZE" by (simp add: word_less_nat_alt)
  have "p \<noteq> 0" using kalloc_rep(3) [OF assms(2,1,3)] by simp
  then consider "p = free_list s" "free_list s \<noteq> 0" "bump_ptr s' = bump_ptr s"
    | "p = bump_ptr s" "bump_ptr s' = bump_ptr s + PAGE_SIZE"
    using assms(1) by (auto simp: kalloc_def Let_def split: if_splits)
  then have "p \<in> page_range kernel_start (bump_ptr s') \<and> bump_ptr s \<le> bump_ptr s'"
  proof cases
    case 1
    then show ?thesis using xs by (cases xs) auto
  next
    case 2
    then show ?thesis using al up by (simp add: page_range_def order.strict_implies_order)
  qed
  then show "p \<in> page_range kernel_start (bump_ptr s')" "bump_ptr s \<le> bump_ptr s'" by auto
qed

lemma heap_rep_alloc:
  assumes "heap_rep s F U" "F \<noteq> {}" "kalloc s = (p, s')"
  shows "p \<noteq> 0 \<and> p \<in> F \<and> heap_rep s' (F - {p}) (insert p U)"
proof -
  have rep: "mem_rep s F" "U \<subseteq> page_range kernel_start (bump_ptr s)" "F \<inter> U = {}"
    using assms(1) by (auto simp: heap_rep_def)
  note p = kalloc_rep(3) [OF rep(1) assms(3,2)] kalloc_bump [OF assms(3) rep(1) assms(2)]
  have "page_range kernel_start (bump_ptr s) \<subseteq> page_range kernel_start (bump_ptr s')"
    using p(3) by (auto simp: page_range_def intro: order.strict_trans2)
  then show ?thesis using p rep unfolding heap_rep_def by blast
qed

lemma heap_rep_free:
  assumes "heap_rep s F U" "p \<in> U"
  shows "heap_rep (kfree s p) (insert p F) (U - {p})"
proof -
  have rep: "mem_rep s F" "U \<subseteq> page_range kernel_start (bump_ptr s)" "F \<inter> U = {}"
    using assms(1) by (auto simp: heap_rep_def)
  then have "page_aligned p" "kernel_start \<le> p" "p < bump_ptr s" "p \<notin> F"
    using assms(2) by (auto simp: page_range_def)
  then have "mem_rep (kfree s p) (insert p F)" by (rule kfree_rep(1) [OF rep(1)])
  moreover have "bump_ptr (kfree s p) = bump_ptr s" by (simp add: kfree_def)
  ultimately show ?thesis using rep(2,3) assms(2) unfolding heap_rep_def by auto
qed

interpretation heap: page_allocator kalloc kfree heap_rep
proof
  fix s F U p s'
  show "kalloc s = (0, s)" if "heap_rep s {} U"
    using that kalloc_rep(2) [of s "{}"] by (cases "kalloc s") (auto simp: heap_rep_def)
  show "F \<inter> U = {} \<and> finite F \<and> finite U" if "heap_rep s F U"
    using that finite_rep finite_subset finite_page_range unfolding heap_rep_def by blast
qed (use heap_rep_alloc heap_rep_free in blast)+

section \<open>Properties of the allocator\<close>

text \<open>
  C7. \<open>kalloc\<close> hands out a free page, or the null pointer exactly when no page is free; it
  changes no byte of memory, takes that page and no other out of the free set, and the count
  of free pages stays right.
\<close>

theorem kalloc_spec:
  assumes "heap_rep s F U"
  shows "case kalloc s of (p, s') \<Rightarrow>
           ram_bytes s' = ram_bytes s \<and>
           (if F = {} then p = 0 \<and> s' = s
            else p \<in> F \<and> p \<noteq> 0 \<and> heap_rep s' (F - {p}) (insert p U) \<and>
                 mem_free_pages s' = of_nat (card F - 1))"
proof -
  obtain p s' where k: "kalloc s = (p, s')" by (cases "kalloc s")
  have rep: "mem_rep s F" using assms by (simp add: heap_rep_def)
  have "mem_free_pages s' = of_nat (card F - 1)" if "p \<in> F" "heap_rep s' (F - {p}) (insert p U)"
    using that finite_rep [OF rep] by (auto simp: heap_rep_def mem_rep_def mem_free_pages_def)
  then show ?thesis
    using k kalloc_rep(1,2) [OF rep k] heap.alloc_page [OF assms _ k] by auto
qed

theorem kalloc_spec_witness:
  "case kalloc (mem_init 0x80300000 \<lparr>ram_bytes = (\<lambda>_. 0), free_list = 0, total_free = 0, bump_ptr = 0, heap_end = 0\<rparr>)
   of (p, s') \<Rightarrow> p \<in> page_range 0x80300000 0x87FC0000"
proof -
  let ?s = "mem_init 0x80300000 \<lparr>ram_bytes = (\<lambda>_. 0), free_list = 0, total_free = 0, bump_ptr = 0, heap_end = 0\<rparr>"
  have "heap_rep ?s (page_range 0x80300000 0x87FC0000) {}"
    using mem_init_rep [of "0x80300000"] by (simp add: heap_rep_def align_up_def)
  from kalloc_spec [OF this] have "case kalloc ?s of (p, s') \<Rightarrow>
      if page_range 0x80300000 0x87FC0000 = {} then s' = ?s else p \<in> page_range 0x80300000 0x87FC0000"
    by (auto split: prod.splits if_splits)
  moreover have "page_range 0x80300000 0x87FC0000 \<noteq> {}"
    using page_range_step(1) [of "0x80300000" "0x87FC0000"] by (auto simp: page_aligned_def)
  ultimately show ?thesis by (auto split: prod.splits)
qed

text \<open>
  C8. Freeing a page that is handed out puts exactly that page back into the free set, and the
  next \<open>kalloc\<close> returns it again; only its first eight bytes change.
\<close>

theorem kfree_spec:
  assumes "heap_rep s F U" "p \<in> U"
  shows "heap_rep (kfree s p) (insert p F) (U - {p}) \<and>
         fst (kalloc (kfree s p)) = p \<and> mem_free_pages (kfree s p) = mem_free_pages s + 1 \<and>
         (\<forall>a. a \<notin> (\<lambda>i. p + of_nat i) ` {..<8} \<longrightarrow> ram_bytes (kfree s p) a = ram_bytes s a)"
proof -
  have rep: "mem_rep s F" and p: "page_aligned p" "kernel_start \<le> p" "p < bump_ptr s" "p \<notin> F"
    using assms by (auto simp: heap_rep_def page_range_def)
  have "bump_ptr s \<le> stack_top" using rep by (auto simp: mem_rep_def)
  then have "p < stack_top" using p(3) by (rule order.strict_trans2 [rotated])
  then have k: "kfree s p = s\<lparr>ram_bytes := store64 (ram_bytes s) p (free_list s), free_list := p,
                  total_free := total_free s + 1\<rparr>" and "p \<noteq> 0"
    using p page_aligned_and [of p] by (auto simp: kfree_def)
  then show ?thesis
    using heap_rep_free [OF assms] by (simp add: kalloc_def mem_free_pages_def store64_outside)
qed

theorem kfree_spec_witness:
  "\<exists>s F U p. heap_rep s F U \<and> p \<in> U \<and> fst (kalloc (kfree s p)) = p"
proof -
  let ?s = "mem_init 0x80300000 \<lparr>ram_bytes = (\<lambda>_. 0), free_list = 0, total_free = 0, bump_ptr = 0, heap_end = 0\<rparr>"
  let ?F = "page_range 0x80300000 0x87FC0000"
  have rep: "heap_rep ?s ?F {}"
    using mem_init_rep [of "0x80300000"] by (simp add: heap_rep_def align_up_def)
  have "?F \<noteq> {}"
    using page_range_step(1) [of "0x80300000" "0x87FC0000"] by (auto simp: page_aligned_def)
  then obtain p s' where "heap_rep s' (?F - {p}) {p}"
    using heap.alloc_page [OF rep] by (cases "kalloc ?s") auto
  then show ?thesis using kfree_spec [of s' "?F - {p}" "{p}" p] by blast
qed

text \<open>
  C9. From boot on, whatever sequence of allocations and of frees of handed-out pages the
  kernel performs: the pages handed out lie between the end of the kernel and the stack guard,
  the count of free pages plus the pages handed out is the number of pages of the heap, and a
  further \<open>kalloc\<close> never returns a page that is still in use.  (\<open>None\<close> stands for a \<open>kalloc\<close>,
  \<open>Some p\<close> for freeing \<open>p\<close>.)
\<close>

theorem heap_history:
  assumes "kernel_start \<le> kernel_end" "kernel_end \<le> 0x87FC0000"
    and "fold heap.step ops (mem_init kernel_end s0, {}) = (s, U)"
  defines "pages \<equiv> page_range (align_up kernel_end PAGE_SIZE) 0x87FC0000"
  shows "U \<subseteq> pages \<and> unat (mem_free_pages s) + card U = card pages \<and>
         (\<forall>p s'. kalloc s = (p, s') \<longrightarrow> p = 0 \<or> p \<in> pages - U)"
proof -
  have "heap_rep (mem_init kernel_end s0) pages {}"
    using mem_init_rep [OF assms(1,2)] by (simp add: heap_rep_def pages_def)
  from heap.history [OF this assms(3)] obtain F where F: "heap_rep s F U" "F \<union> U = pages"
      "card F + card U = card pages" by auto
  have "card pages < 2 ^ 64"
  proof -
    have "pages \<subseteq> page_range 0 0x88000000" by (auto simp: pages_def page_range_less)
    then have "card pages \<le> card (page_range 0 0x88000000)" by (intro card_mono) auto
    also have "\<dots> < 2 ^ 64" by (subst card_page_range) (simp_all add: page_aligned_def)
    finally show ?thesis .
  qed
  then have "unat (mem_free_pages s) = card F"
    using F(1,3) unat_of_nat_u64 [of "card F"] by (auto simp: heap_rep_def mem_rep_def mem_free_pages_def)
  moreover have "p = 0 \<or> p \<in> pages - U" if "kalloc s = (p, s')" for p s'
    using F(1) that by (cases rule: heap.alloc_cases) (use F(2) in auto)
  ultimately show ?thesis using F by auto
qed

theorem heap_history_witness:
  "case fold heap.step [None, None] (mem_init 0x80300000 \<lparr>ram_bytes = (\<lambda>_. 0), free_list = 0,
       total_free = 0, bump_ptr = 0, heap_end = 0\<rparr>, {}) of (s, U) \<Rightarrow>
     unat (mem_free_pages s) + card U = card (page_range 0x80300000 0x87FC0000)"
  using heap_history [of "0x80300000" "[None, None]"]
  by (simp add: align_up_def split: prod.splits)

end
