(* ===== verification/Os_Vm.thy ===== *)
theory Os_Vm
  imports Os_Mem Emu_Mmu
begin

text \<open>
  The kernel's page tables (\<^verbatim>\<open>kernel/vm.c\<close>): \<open>vm_init\<close> builds the Sv39 tables in pages of the
  allocator and switches translation on.  Page tables are walked by the emulator's MMU, whose
  DRAM is the kernel's memory shifted by \<open>DRAM_BASE\<close>.
\<close>

section \<open>Page-table entries\<close>

definition PTE :: "u64 \<Rightarrow> u64 \<Rightarrow> u64" where
  "PTE ppn_val flags = push_bit 10 ppn_val OR flags"

abbreviation (input) SATP_SV39 :: u64 where "SATP_SV39 \<equiv> 0x8000000000000000"
abbreviation (input) MEGAPAGE :: u64 where "MEGAPAGE \<equiv> 0x200000"

text \<open>Entry \<open>i\<close> of a table of 512 words.\<close>

definition entry_addr :: "u64 \<Rightarrow> nat \<Rightarrow> u64" where
  "entry_addr table i = table + of_nat (8 * i)"

definition put_entry64 :: "u64 \<Rightarrow> nat \<Rightarrow> u64 \<Rightarrow> bytes \<Rightarrow> bytes" where
  "put_entry64 table i v m = store64 m (entry_addr table i) v"

definition get_entry64 :: "bytes \<Rightarrow> u64 \<Rightarrow> nat \<Rightarrow> u64" where
  "get_entry64 m table i = load64 m (entry_addr table i)"

section \<open>vm\_init\<close>

text \<open>The page-table pointers the kernel keeps.\<close>

record kernel_tables =
  kernel_l2 :: u64
  kernel_l1_dram :: u64
  kernel_l1_mmio :: u64

definition clear_tables :: "u64 \<Rightarrow> u64 \<Rightarrow> u64 \<Rightarrow> bytes \<Rightarrow> bytes" where
  "clear_tables l2 l1_dram l1_mmio =
     for_each 512 (\<lambda>i m. put_entry64 l1_mmio i 0 (put_entry64 l1_dram i 0 (put_entry64 l2 i 0 m)))"

definition map_dram :: "u64 \<Rightarrow> bytes \<Rightarrow> bytes" where
  "map_dram l1_dram =
     for_each 64 (\<lambda>i. put_entry64 l1_dram i
       (PTE (drop_bit 12 (DRAM_BASE + of_nat i * MEGAPAGE)) (PTE_V OR PTE_R OR PTE_W OR PTE_X)))"

definition map_plic :: "u64 \<Rightarrow> bytes \<Rightarrow> bytes" where
  "map_plic l1_mmio =
     for_each 32 (\<lambda>i. put_entry64 l1_mmio (96 + i)
       (PTE (drop_bit 12 (PLIC_BASE + of_nat i * MEGAPAGE)) (PTE_V OR PTE_R OR PTE_W)))"

definition build_tables :: "u64 \<Rightarrow> u64 \<Rightarrow> u64 \<Rightarrow> bytes \<Rightarrow> bytes" where
  "build_tables l2 l1_dram l1_mmio m =
     (let m = clear_tables l2 l1_dram l1_mmio m;
          m = put_entry64 l2 0 (PTE (drop_bit 12 l1_mmio) PTE_V) m;
          m = put_entry64 l2 2 (PTE (drop_bit 12 l1_dram) PTE_V) m;
          m = map_dram l1_dram m;
          m = put_entry64 l1_mmio 16 (PTE (drop_bit 12 CLINT_BASE) (PTE_V OR PTE_R OR PTE_W)) m;
          m = map_plic l1_mmio m;
          m = put_entry64 l1_mmio 128 (PTE (drop_bit 12 UART_BASE) (PTE_V OR PTE_R OR PTE_W)) m
      in put_entry64 l1_mmio 0 (PTE 0 (PTE_V OR PTE_R OR PTE_W)) m)"

definition vm_init :: "mem_state \<times> csr \<times> kernel_tables \<Rightarrow> mem_state \<times> csr \<times> kernel_tables" where
  "vm_init k =
     (let (s, c, g) = k;
          (l2, s) = kalloc s;
          (l1_dram, s) = kalloc s;
          (l1_mmio, s) = kalloc s
      in if l2 = 0 \<or> l1_dram = 0 \<or> l1_mmio = 0 then (s, c, g)
         else (s\<lparr>ram_bytes := build_tables l2 l1_dram l1_mmio (ram_bytes s)\<rparr>,
               csr_store c SATP (SATP_SV39 OR drop_bit 12 l2),
               \<lparr>kernel_l2 = l2, kernel_l1_dram = l1_dram, kernel_l1_mmio = l1_mmio\<rparr>))"

section \<open>The MMU on kernel memory\<close>

definition dram_view :: "bytes \<Rightarrow> dram" where
  "dram_view m = (\<lambda>i. m (i + DRAM_BASE))"

definition in_dram :: "u64 \<Rightarrow> nat \<Rightarrow> bool" where
  "in_dram a n \<longleftrightarrow> 0x80000000 \<le> unat a \<and> unat a + n \<le> 0x88000000"

lemma in_dram_ok: "in_dram a 8 \<Longrightarrow> dram_ok a 64"
proof -
  assume a: "in_dram a 8"
  then have "DRAM_BASE \<le> a" by (simp add: in_dram_def word_le_nat_alt)
  then have "unat (a - DRAM_BASE) = unat a - 0x80000000" by (simp add: unat_sub)
  then show ?thesis using a unfolding dram_ok_def in_dram_def by simp linarith
qed

lemma dram_load_view: "in_dram a 8 \<Longrightarrow> dram_load (dram_view m) a 64 = Ret (Some (load64 m a))"
  using dram_load_ok [OF in_dram_ok, of a "dram_view m"] by (simp add: load64_def dram_view_def)

lemma le_store_view:
  "le_store dram_put n (\<lambda>i. a - DRAM_BASE + of_nat i) v (dram_view m) = dram_view (le_store put_byte n (\<lambda>i. a + of_nat i) v m)"
proof (induction n)
  case (Suc n)
  then show ?case
    by (auto simp: le_store_Suc dram_put_def put_byte_def dram_view_def algebra_simps)
qed simp

lemma dram_store_view: "in_dram a 8 \<Longrightarrow> dram_store (dram_view m) a 64 v = (Ret True, dram_view (store64 m a v))"
  by (simp add: dram_store_ok in_dram_ok store64_def le_store_view)


section \<open>Tables\<close>

text \<open>A page of DRAM that holds 512 entries.\<close>

definition table_page :: "u64 \<Rightarrow> bool" where
  "table_page p \<longleftrightarrow> page_aligned p \<and> in_dram p 4096"

lemma unat_entry_addr: "table_page p \<Longrightarrow> i < 512 \<Longrightarrow> unat (entry_addr p i) = unat p + 8 * i"
  unfolding entry_addr_def by (rule unat_offset) (simp add: table_page_def in_dram_def)

lemma entry_in_dram: "table_page p \<Longrightarrow> i < 512 \<Longrightarrow> in_dram (entry_addr p i) 8"
  unfolding in_dram_def unat_entry_addr by (simp add: table_page_def in_dram_def)

lemma entries_apart:
  assumes "table_page p" "table_page q" "i < 512" "j < 512" "p \<noteq> q \<or> i \<noteq> j"
  shows "unat p + 8 * i + 8 \<le> unat q + 8 * j \<or> unat q + 8 * j + 8 \<le> unat p + 8 * i"
proof (cases "p = q")
  case True
  then show ?thesis using assms(5) by auto
next
  case False
  then have "unat p < unat q \<or> unat q < unat p" by (metis linorder_less_linear unsigned_word_eqI)
  then show ?thesis using aligned_apart assms(1-4) unfolding table_page_def by fastforce
qed

lemma get_put_entry:
  assumes "table_page p" "table_page q" "i < 512" "j < 512"
  shows "get_entry64 (put_entry64 p i v m) q j = (if p = q \<and> i = j then v else get_entry64 m q j)"
proof (cases "p = q \<and> i = j")
  case False
  have "unat p + 4096 \<le> 0x88000000" "unat q + 4096 \<le> 0x88000000"
    using assms(1,2) by (simp_all add: table_page_def in_dram_def)
  then show ?thesis
    using False entries_apart [OF assms] unat_entry_addr assms load64_store64_other [of "entry_addr p i" "entry_addr q j"]
    unfolding get_entry64_def put_entry64_def by auto
qed (simp add: get_entry64_def put_entry64_def)

lemma put_entry_outside:
  assumes "table_page p" "i < 512" "unat a < unat p + 8 * i \<or> unat p + 8 * i + 8 \<le> unat a"
  shows "put_entry64 p i v m a = m a"
  unfolding put_entry64_def
proof (rule store64_outside)
  have "unat (entry_addr p i + of_nat k) = unat p + 8 * i + k" if "k < 8" for k
    using unat_offset [of "entry_addr p i" k] unat_entry_addr [OF assms(1,2)] assms(1,2) that
    by (simp add: table_page_def in_dram_def)
  then show "a \<notin> (\<lambda>i'. entry_addr p i + of_nat i') ` {..<8}" using assms(3) by auto
qed

section \<open>Walking a table\<close>

definition vpn :: "nat \<Rightarrow> u64 \<Rightarrow> nat" where
  "vpn k va = unat (drop_bit (12 + 9 * k) va AND 0x1FF)"

lemma vpn_less [simp]: "vpn k va < 512"
proof -
  have "drop_bit (12 + 9 * k) va AND 0x1FF \<le> 0x1FF" by (rule word_and_le1)
  then show ?thesis by (simp add: vpn_def word_le_nat_alt)
qed

definition table_of :: "u64 \<Rightarrow> u64" where
  "table_of pte = drop_bit 10 pte * 4096"

abbreviation is_leaf :: "u64 \<Rightarrow> bool" where
  "is_leaf pte \<equiv> pte AND (PTE_R OR PTE_W OR PTE_X) \<noteq> 0"

abbreviation is_valid :: "u64 \<Rightarrow> bool" where
  "is_valid pte \<equiv> pte AND PTE_V \<noteq> 0"

text \<open>
  The leaf a virtual address leads to: the table and index of its entry, the entry and the
  physical page number; None when the walk meets an invalid entry or a 1 GiB leaf.
\<close>

definition pt_walk :: "bytes \<Rightarrow> u64 \<Rightarrow> u64 \<Rightarrow> (u64 \<times> nat \<times> u64 \<times> u64) option" where
  "pt_walk m root va =
     (let e2 = get_entry64 m root (vpn 2 va)
      in if \<not> is_valid e2 \<or> is_leaf e2 then None
         else let t1 = table_of e2; e1 = get_entry64 m t1 (vpn 1 va)
           in if \<not> is_valid e1 then None
              else if is_leaf e1 then Some (t1, vpn 1 va, e1, (drop_bit 10 e1 AND NOT 0x1FF) OR of_nat (vpn 0 va))
              else let t0 = table_of e1; e0 = get_entry64 m t0 (vpn 0 va)
                in if \<not> is_valid e0 then None else Some (t0, vpn 0 va, e0, drop_bit 10 e0))"

text \<open>The tables the walk visits are pages of DRAM.\<close>

definition walk_ok :: "bytes \<Rightarrow> u64 \<Rightarrow> u64 \<Rightarrow> bool" where
  "walk_ok m root va \<longleftrightarrow> table_page root \<and>
     (let e2 = get_entry64 m root (vpn 2 va); t1 = table_of e2; e1 = get_entry64 m t1 (vpn 1 va)
      in is_valid e2 \<and> \<not> is_leaf e2 \<longrightarrow> table_page t1 \<and> (is_valid e1 \<and> \<not> is_leaf e1 \<longrightarrow> table_page (table_of e1)))"

definition touched :: "u64 \<Rightarrow> AccessType \<Rightarrow> u64" where
  "touched pte type = (if type = AccStore then pte OR PTE_A OR PTE_D else pte OR PTE_A)"

lemma pte_read_view:
  "table_page t \<Longrightarrow> i < 512 \<Longrightarrow>
   pte_read (dram_view m) (entry_addr t i) va =
     (if is_valid (get_entry64 m t i) then Ret (get_entry64 m t i) else Throw (Exception LoadPageFault va))"
  by (simp add: pte_read_def dram_load_view entry_in_dram get_entry64_def)

lemma leaf_access_view:
  "table_page t \<Longrightarrow> i < 512 \<Longrightarrow>
   leaf_access (dram_view m) (entry_addr t i) pte va type mode ppn =
     (case leaf_check pte va type mode of
        Ret _ \<Rightarrow> (Ret (ppn * 4096 OR (va AND 0xFFF)), dram_view (put_entry64 t i (touched pte type) m))
      | Throw e \<Rightarrow> (Throw e, dram_view m) | Undefined \<Rightarrow> (Undefined, dram_view m))"
  by (cases "leaf_check pte va type mode")
    (simp_all add: leaf_access_def Let_def dram_store_view entry_in_dram put_entry64_def touched_def or.assoc)

lemma entry_addr_vpn:
  "t + (drop_bit 30 va AND 0x1FF) * 8 = entry_addr t (vpn 2 va)"
  "t + (drop_bit 21 va AND 0x1FF) * 8 = entry_addr t (vpn 1 va)"
  "t + (drop_bit 12 va AND 0x1FF) * 8 = entry_addr t (vpn 0 va)"
  by (simp_all add: entry_addr_def vpn_def)

text \<open>Page numbers and entries, bit by bit.\<close>

lemma small_bit: "unat w < 2 ^ n \<Longrightarrow> n \<le> k \<Longrightarrow> \<not> bit w k" for w :: u64
proof -
  assume a: "unat w < 2 ^ n" "n \<le> k"
  have "\<not> bit (unat w) k" using a by (metis (no_types, lifting) bit_take_bit_iff linorder_not_less take_bit_nat_eq_self)
  then show ?thesis by (simp add: bit_unsigned_iff)
qed

lemma table_page_small: "table_page p \<Longrightarrow> unat p < 2 ^ 32"
  by (simp add: table_page_def in_dram_def)

lemma drop_page: "page_aligned p \<Longrightarrow> drop_bit 12 p * 4096 = p"
proof (rule word_unat_eq_iff [THEN iffD2])
  assume "page_aligned p"
  then have "4096 * (unat p div 4096) = unat p" by (simp add: page_aligned_def)
  moreover have "unat p < 2 ^ LENGTH(64)" by (rule unsigned_less)
  ultimately show "unat (drop_bit 12 p * 4096) = unat p"
    using div_le_dividend [of "unat p" 4096]
    by (simp add: unat_word_ariths unat_drop_bit_eq drop_bit_eq_div mult.commute)
qed

lemma bit_PTE: "bit (PTE n fl) k \<longleftrightarrow> (10 \<le> k \<and> k < 64 \<and> bit n (k - 10)) \<or> bit fl k"
  by (auto simp: PTE_def bit_simps)

lemma drop_PTE:
  assumes "unat n < 2 ^ 54" "unat fl < 2 ^ 10" shows "drop_bit 10 (PTE n fl) = n"
proof (rule bit_word_eqI)
  fix k :: nat
  show "bit (drop_bit 10 (PTE n fl)) k = bit n k"
    using small_bit [OF assms(1), of k] small_bit [OF assms(2), of "10 + k"]
    by (cases "54 \<le> k") (auto simp: bit_PTE bit_simps)
qed

lemma PTE_flags:
  assumes "unat fl < 2 ^ 10" "unat x < 2 ^ 10" shows "PTE n fl AND x = fl AND x"
  by (rule bit_word_eqI) (use small_bit [OF assms(1)] small_bit [OF assms(2)] in \<open>auto simp: bit_PTE bit_simps\<close>)

lemma table_of_PTE:
  assumes "table_page t" "unat fl < 2 ^ 10" shows "table_of (PTE (drop_bit 12 t) fl) = t"
proof -
  have "unat (drop_bit 12 t) < 2 ^ 54"
    using table_page_small [OF assms(1)] div_le_dividend [of "unat t" 4096]
    by (simp add: unat_drop_bit_eq drop_bit_eq_div unat_div)
  then show ?thesis using drop_PTE assms drop_page by (simp add: table_of_def table_page_def)
qed

lemma satp_root:
  assumes "csr_load c SATP = SATP_SV39 OR drop_bit 12 root" "table_page root"
  shows "mmu_is_enabled c" "(csr_load c SATP AND 0xFFFFFFFFFFF) * 4096 = root"
proof -
  have b: "bit (SATP_SV39 :: u64) k \<longleftrightarrow> k = 63" for k
  proof -
    have e: "SATP_SV39 = push_bit 63 (1 :: u64)" by simp
    show ?thesis unfolding e bit_push_bit_iff by (auto simp: bit_1_iff)
  qed
  show "mmu_is_enabled c"
    unfolding mmu_is_enabled_def assms(1) by (rule bit_word_eqI) (auto simp: bit_simps b)
  have m: "(0xFFFFFFFFFFF :: u64) = mask 44" by (simp add: mask_eq_exp_minus_1)
  have "csr_load c SATP AND 0xFFFFFFFFFFF = drop_bit 12 root"
    unfolding assms(1) m
  proof (rule bit_word_eqI)
    fix k :: nat
    show "bit ((SATP_SV39 OR drop_bit 12 root) AND mask 44) k = bit (drop_bit 12 root) k"
      using small_bit [of root 32 "12 + k"] table_page_small [OF assms(2)] b [of k]
      by (cases "44 \<le> k") (auto simp: bit_simps)
  qed
  then show "(csr_load c SATP AND 0xFFFFFFFFFFF) * 4096 = root"
    using drop_page assms(2) by (simp add: table_page_def)
qed

lemma mmu_pt_walk:
  assumes "csr_load c SATP = SATP_SV39 OR drop_bit 12 root" "walk_ok m root va"
  shows "mmu_translate c (dram_view m) va type mode =
    (case pt_walk m root va of None \<Rightarrow> (Throw (Exception LoadPageFault va), dram_view m)
     | Some (t, i, pte, ppn) \<Rightarrow>
       (case leaf_check pte va type mode of
          Ret _ \<Rightarrow> (Ret (ppn * 4096 OR (va AND 0xFFF)), dram_view (put_entry64 t i (touched pte type) m))
        | Throw e \<Rightarrow> (Throw e, dram_view m) | Undefined \<Rightarrow> (Undefined, dram_view m)))"
proof -
  have root: "table_page root" using assms(2) by (simp add: walk_ok_def)
  note s = satp_root [OF assms(1) root]
  have w0: "of_nat (vpn 0 va) = drop_bit 12 va AND 0x1FF" by (simp add: vpn_def)
  let ?e2 = "get_entry64 m root (vpn 2 va)"
  show ?thesis
  proof (cases "is_valid ?e2 \<and> \<not> is_leaf ?e2")
    case False
    then show ?thesis
      using s root by (auto simp: mmu_translate_def Let_def entry_addr_vpn pte_read_view pt_walk_def)
  next
    case True
    then have t1: "table_page (table_of ?e2)" using assms(2) by (simp add: walk_ok_def Let_def)
    let ?e1 = "get_entry64 m (table_of ?e2) (vpn 1 va)"
    show ?thesis
    proof (cases "is_valid ?e1 \<and> \<not> is_leaf ?e1")
      case True2: True
      then have t0: "table_page (table_of ?e1)" using assms(2) True by (simp add: walk_ok_def Let_def)
      show ?thesis
        using s root t1 t0 True True2
        by (simp add: mmu_translate_def Let_def entry_addr_vpn pte_read_view pt_walk_def leaf_access_view table_of_def)
    next
      case False
      then show ?thesis
        using s root t1 True
        by (auto simp: mmu_translate_def Let_def entry_addr_vpn pte_read_view pt_walk_def leaf_access_view table_of_def w0 and.assoc)
    qed
  qed
qed

section \<open>The kernel's mapping\<close>

text \<open>The entries of the two second-level tables, the accessed and dirty bits aside.\<close>

definition dram_entry :: "nat \<Rightarrow> u64" where
  "dram_entry i = (if i < 64 then PTE (drop_bit 12 (DRAM_BASE + of_nat i * MEGAPAGE)) 0xF else 0)"

definition mmio_entry :: "nat \<Rightarrow> u64" where
  "mmio_entry i = (if i = 0 \<or> i = 16 \<or> 96 \<le> i \<and> i \<le> 128 then PTE (drop_bit 12 (of_nat i * MEGAPAGE)) 7 else 0)"

definition root_entry :: "u64 \<Rightarrow> u64 \<Rightarrow> nat \<Rightarrow> u64" where
  "root_entry l1_dram l1_mmio i =
     (if i = 0 then PTE (drop_bit 12 l1_mmio) PTE_V else if i = 2 then PTE (drop_bit 12 l1_dram) PTE_V else 0)"

definition clean :: "u64 \<Rightarrow> u64" where
  "clean pte = pte AND NOT (PTE_A OR PTE_D)"

definition kmap_ok :: "bytes \<Rightarrow> u64 \<Rightarrow> u64 \<Rightarrow> u64 \<Rightarrow> bool" where
  "kmap_ok m l2 l1_dram l1_mmio \<longleftrightarrow>
     table_page l2 \<and> table_page l1_dram \<and> table_page l1_mmio \<and> distinct [l2, l1_dram, l1_mmio] \<and>
     (\<forall>i < 512. get_entry64 m l2 i = root_entry l1_dram l1_mmio i \<and>
        clean (get_entry64 m l1_dram i) = dram_entry i \<and>
        clean (get_entry64 m l1_mmio i) = mmio_entry i)"

lemma put_loop_get:
  assumes "table_page t" "table_page q" "off + n \<le> 512" "j < 512"
  shows "get_entry64 (for_each n (\<lambda>i. put_entry64 t (off + i) (f i)) m) q j =
    (if q = t \<and> off \<le> j \<and> j < off + n then f (j - off) else get_entry64 m q j)"
  using assms(3)
proof (induction n)
  case (Suc n)
  then show ?case using assms(1,2,4) by (auto simp: for_each_Suc get_put_entry less_Suc_eq)
qed auto

lemma clear_tables_get:
  assumes "table_page a" "table_page b" "table_page c" "q \<in> {a, b, c}" "j < 512"
  shows "get_entry64 (clear_tables a b c m) q j = 0"
proof -
  have "n \<le> 512 \<Longrightarrow> j < n \<Longrightarrow> get_entry64 (for_each n (\<lambda>i m. put_entry64 c i 0 (put_entry64 b i 0 (put_entry64 a i 0 m))) m) q j = 0" for n
  proof (induction n)
    case (Suc n)
    then show ?case using assms by (auto simp: for_each_Suc get_put_entry)
  qed simp
  then show ?thesis using assms(5) by (simp add: clear_tables_def)
qed

lemma bit_AD: "bit (PTE_A :: u64) k \<longleftrightarrow> k = 6" "bit (PTE_D :: u64) k \<longleftrightarrow> k = 7"
proof -
  have e: "PTE_A = push_bit 6 (1 :: u64)" "PTE_D = push_bit 7 (1 :: u64)" by simp_all
  show "bit (PTE_A :: u64) k \<longleftrightarrow> k = 6" "bit (PTE_D :: u64) k \<longleftrightarrow> k = 7"
    unfolding e bit_push_bit_iff by (auto simp: bit_1_iff)
qed

lemma bit_clean: "bit (clean pte) k \<longleftrightarrow> bit pte k \<and> k \<noteq> 6 \<and> k \<noteq> 7"
  unfolding clean_def bit_and_iff bit_not_iff bit_or_iff bit_AD using bit_imp_le_length [of pte k] by auto

lemma bit_touched: "bit (touched pte type) k \<longleftrightarrow> bit pte k \<or> k = 6 \<or> type = AccStore \<and> k = 7"
proof (cases "type = AccStore")
  case True
  then have "touched pte type = pte OR PTE_A OR PTE_D" by (simp add: touched_def)
  then show ?thesis using True by (simp only: bit_or_iff bit_AD) blast
next
  case False
  then have "touched pte type = pte OR PTE_A" by (simp add: touched_def)
  then show ?thesis using False by (simp only: bit_or_iff bit_AD) blast
qed

lemma clean_0 [simp]: "clean 0 = 0"
  by (simp add: clean_def)

lemma clean_touched [simp]: "clean (touched pte type) = clean pte"
  by (rule bit_word_eqI) (auto simp: bit_clean bit_touched)

lemma clean_PTE:
  assumes "unat fl < 64" shows "clean (PTE n fl) = PTE n fl"
proof (rule bit_word_eqI)
  fix k :: nat
  show "bit (clean (PTE n fl)) k = bit (PTE n fl) k"
    using small_bit [of fl 6 k] assms by (auto simp: bit_clean bit_PTE)
qed

lemma build_tables_kmap:
  assumes "table_page a" "table_page b" "table_page c" "distinct [a, b, c]"
  shows "kmap_ok (build_tables a b c m) a b c"
proof -
  have plic: "drop_bit 12 (PLIC_BASE + of_nat (i - 96) * MEGAPAGE) = drop_bit 12 (of_nat i * MEGAPAGE)" if "96 \<le> i" for i
    using that by (simp add: of_nat_diff algebra_simps)
  have "get_entry64 (build_tables a b c m) a i = root_entry b c i \<and>
        clean (get_entry64 (build_tables a b c m) b i) = dram_entry i \<and>
        clean (get_entry64 (build_tables a b c m) c i) = mmio_entry i" if "i < 512" for i
  proof (intro conjI)
    note g = get_put_entry put_loop_get [where off = 0, simplified] put_loop_get [where off = 96 and n = 32, simplified] clear_tables_get
    show "get_entry64 (build_tables a b c m) a i = root_entry b c i"
      using assms that by (auto simp: build_tables_def Let_def map_dram_def map_plic_def g root_entry_def)
    show "clean (get_entry64 (build_tables a b c m) b i) = dram_entry i"
      using assms that clean_PTE [of "0xF"] by (auto simp: build_tables_def Let_def map_dram_def map_plic_def g dram_entry_def)
    have "get_entry64 (build_tables a b c m) c i = mmio_entry i"
      using assms that by (auto simp: build_tables_def Let_def map_dram_def map_plic_def g mmio_entry_def plic [simplified])
    then show "clean (get_entry64 (build_tables a b c m) c i) = mmio_entry i"
      using clean_PTE [of 7] by (simp add: mmio_entry_def)
  qed
  then show ?thesis using assms by (simp add: kmap_ok_def)
qed

text \<open>The fields of an address.\<close>

lemma vpn_nat: "vpn k va = unat va div 2 ^ (12 + 9 * k) mod 512"
proof -
  have m: "(0x1FF :: u64) = mask 9" by (simp add: mask_eq_exp_minus_1)
  show ?thesis unfolding vpn_def m take_bit_eq_mask [symmetric] unsigned_take_bit_eq unat_drop_bit_eq
    by (simp add: take_bit_eq_mod drop_bit_eq_div)
qed

lemma bit_vpn0: "bit (of_nat (vpn 0 va) :: u64) k \<longleftrightarrow> k < 9 \<and> bit va (k + 12)"
proof -
  have m: "(0x1FF :: u64) = mask 9" by (simp add: mask_eq_exp_minus_1)
  show ?thesis by (simp add: vpn_def m bit_simps ac_simps) (auto dest: bit_imp_le_length)
qed

text \<open>A 2 MiB leaf whose page number is that of the address itself translates it to itself.\<close>

lemma identity_leaf:
  assumes "clean pte = PTE (drop_bit 12 (va AND NOT 0x1FFFFF)) fl" "unat va < 2 ^ 39" "unat fl < 64"
  shows "((drop_bit 10 pte AND NOT 0x1FF) OR of_nat (vpn 0 va)) * 4096 OR (va AND 0xFFF) = va"
proof -
  have m: "(0x1FF :: u64) = mask 9" "(0xFFF :: u64) = mask 12" "(0x1FFFFF :: u64) = mask 21" "(4096 :: u64) = 2 ^ 12"
    by (simp_all add: mask_eq_exp_minus_1)
  have p: "bit pte (k + 10) \<longleftrightarrow> bit va (k + 12) \<and> 9 \<le> k" for k
  proof -
    have "bit pte (k + 10) \<longleftrightarrow> bit (clean pte) (k + 10)" by (simp add: bit_clean)
    also have "\<dots> \<longleftrightarrow> k + 10 < 64 \<and> bit va (k + 12) \<and> 9 \<le> k"
      unfolding assms(1) m bit_PTE using small_bit [of fl 6 "k + 10"] assms(3) bit_imp_le_length [of va "k + 12"]
      by (auto simp: bit_simps ac_simps)
    finally show ?thesis using small_bit [OF assms(2), of "k + 12"] by auto
  qed
  show ?thesis
  proof (rule bit_word_eqI)
    fix k :: nat assume "k < LENGTH(64)"
    then show "bit (((drop_bit 10 pte AND NOT 0x1FF) OR of_nat (vpn 0 va)) * 4096 OR (va AND 0xFFF)) k = bit va k"
      unfolding m push_bit_eq_mult [symmetric] bit_or_iff bit_and_iff bit_push_bit_iff bit_not_iff bit_mask_iff bit_drop_bit_eq bit_vpn0
      using p [of "k - 12"] by (cases "k < 12"; cases "k < 21") (auto simp: ac_simps)
  qed
qed

text \<open>The permissions of the kernel's mapping: all of DRAM, and the devices without execution.\<close>

definition kernel_flags :: "u64 \<Rightarrow> u64 option" where
  "kernel_flags va =
     (if 0x80000000 \<le> unat va \<and> unat va < 0x88000000 then Some 0xF
      else if unat va < 0x200000 \<or> 0x2000000 \<le> unat va \<and> unat va < 0x2200000 \<or> 0xC000000 \<le> unat va \<and> unat va < 0x10200000
      then Some 7 else None)"

lemma clean_and:
  assumes "x \<in> {1, 2, 4, 8, 16, 14 :: u64}" shows "pte AND x = clean pte AND x"
proof -
  have "unat x < 2 ^ 6" using assms by auto
  from small_bit [OF this] show ?thesis by (intro bit_word_eqI) (auto simp: bit_clean bit_and_iff)
qed

lemma clean_flags:
  assumes "clean pte = PTE n fl" "unat fl < 64"
  shows "pte AND PTE_V = fl AND PTE_V" "pte AND PTE_R = fl AND PTE_R" "pte AND PTE_W = fl AND PTE_W" "pte AND PTE_X = fl AND PTE_X"
    "pte AND PTE_U = fl AND PTE_U" "pte AND (PTE_R OR PTE_W OR PTE_X) = fl AND (PTE_R OR PTE_W OR PTE_X)"
  using clean_and [of 1 pte] clean_and [of 2 pte] clean_and [of 4 pte] clean_and [of 8 pte] clean_and [of 16 pte] clean_and [of 14 pte]
    PTE_flags [of fl _ n] assms by simp_all

lemma clean_invalid: "clean pte = 0 \<Longrightarrow> pte AND PTE_V = 0"
  using clean_and [of 1 pte] by simp

lemma mega_base: "of_nat (unat va div 2 ^ 21) * MEGAPAGE = va AND NOT 0x1FFFFF" for va :: u64
proof -
  have m: "(0x1FFFFF :: u64) = mask 21" "(0x200000 :: u64) = 2 ^ 21" by (simp_all add: mask_eq_exp_minus_1)
  have "of_nat (unat va div 2 ^ 21) = drop_bit 21 va"
    unfolding drop_bit_eq_div [symmetric] unat_drop_bit_eq [symmetric] by simp
  then show ?thesis unfolding m push_bit_eq_mult [symmetric]
    by (intro bit_word_eqI) (auto simp: bit_simps dest: bit_imp_le_length)
qed

lemma kmap_vpns:
  assumes "unat va < 2 ^ 39"
  shows "kernel_flags va = (if vpn 2 va = 2 \<and> vpn 1 va < 64 then Some 0xF
    else if vpn 2 va = 0 \<and> (vpn 1 va = 0 \<or> vpn 1 va = 16 \<or> 96 \<le> vpn 1 va \<and> vpn 1 va \<le> 128) then Some 7 else None)"
  "unat va div 2 ^ 21 = 512 * vpn 2 va + vpn 1 va"
proof -
  define q where "q = unat va div 2 ^ 21"
  have v2: "vpn 2 va = q div 512"
  proof -
    have "q div 512 < 512" using assms by (simp add: q_def div_mult2_eq [symmetric] div_less_iff_less_mult)
    then show ?thesis by (simp add: vpn_nat q_def div_mult2_eq [symmetric])
  qed
  have v1: "vpn 1 va = q mod 512" by (simp add: vpn_nat q_def)
  show e: "unat va div 2 ^ 21 = 512 * vpn 2 va + vpn 1 va" unfolding v1 v2 q_def [symmetric] by simp
  have lt: "unat va < k * 0x200000 \<longleftrightarrow> q < k" for k by (simp add: q_def div_less_iff_less_mult)
  have le: "k * 0x200000 \<le> unat va \<longleftrightarrow> k \<le> q" for k by (simp add: q_def less_eq_div_iff_mult_less_eq)
  have "kernel_flags va = (if 1024 \<le> q \<and> q < 1088 then Some 0xF
      else if q < 1 \<or> 16 \<le> q \<and> q < 17 \<or> 96 \<le> q \<and> q < 129 then Some 7 else None)"
    using lt [of 1088] lt [of 1] lt [of 17] lt [of 129] le [of 1024] le [of 16] le [of 96] by (simp add: kernel_flags_def)
  note flags = this
  have q: "q = 512 * vpn 2 va + vpn 1 va" "vpn 1 va < 512" using e vpn_less [of 1 va] by (simp_all add: q_def)
  consider "vpn 2 va = 0" | "vpn 2 va = 1" | "vpn 2 va = 2" | "3 \<le> vpn 2 va" by linarith
  then show "kernel_flags va = (if vpn 2 va = 2 \<and> vpn 1 va < 64 then Some 0xF
    else if vpn 2 va = 0 \<and> (vpn 1 va = 0 \<or> vpn 1 va = 16 \<or> 96 \<le> vpn 1 va \<and> vpn 1 va \<le> 128) then Some 7 else None)"
    unfolding flags using q by cases (auto simp del: vpn_less)
qed

lemma root_entry_walk:
  assumes "table_page b" "table_page c"
  shows "is_valid (root_entry b c i) \<longleftrightarrow> i = 0 \<or> i = 2" "\<not> is_leaf (root_entry b c i)"
    "table_of (root_entry b c 0) = c" "table_of (root_entry b c 2) = b"
  using assms PTE_flags [of 1] table_of_PTE [of _ 1] by (auto simp: root_entry_def)

lemma table_entry_cases:
  "dram_entry k = 0 \<or> (\<exists>n. dram_entry k = PTE n 0xF)" "mmio_entry k = 0 \<or> (\<exists>n. mmio_entry k = PTE n 7)"
  unfolding dram_entry_def mmio_entry_def by (metis (full_types))+

lemma clean_leaf: "clean e = PTE n fl \<Longrightarrow> fl \<in> {7, 0xF} \<Longrightarrow> is_leaf e \<and> is_valid e"
  using clean_flags(1,6) [of e n fl] by auto

text \<open>A 2 MiB leaf that maps the address to itself.\<close>

lemma mega_leaf:
  assumes "is_valid (get_entry64 m l2 (vpn 2 va))" "\<not> is_leaf (get_entry64 m l2 (vpn 2 va))"
    "table_of (get_entry64 m l2 (vpn 2 va)) = t"
    "clean (get_entry64 m t (vpn 1 va)) = PTE (drop_bit 12 (va AND NOT 0x1FFFFF)) fl" "fl \<in> {7, 0xF}" "unat va < 2 ^ 39"
  shows "\<exists>ppn. pt_walk m l2 va = Some (t, vpn 1 va, get_entry64 m t (vpn 1 va), ppn) \<and> ppn * 4096 OR (va AND 0xFFF) = va"
proof -
  let ?e = "get_entry64 m t (vpn 1 va)"
  have "unat fl < 64" using assms(5) by auto
  note f = identity_leaf [OF assms(4,6) this]
  have "is_valid ?e" "is_leaf ?e" using clean_leaf [OF assms(4,5)] by simp_all
  then have "pt_walk m l2 va = Some (t, vpn 1 va, ?e, (drop_bit 10 ?e AND NOT 0x1FF) OR of_nat (vpn 0 va))"
    using assms(1,2) by (simp add: pt_walk_def assms(3) Let_def)
  then show ?thesis using f by blast
qed

text \<open>
  A walk from a root with the entries of \<open>root_entry\<close>: only the entries on the way matter.
\<close>

lemma mega_walk:
  assumes t: "table_page l2" "table_page b" "table_page c" and r2: "get_entry64 m l2 (vpn 2 va) = root_entry b c (vpn 2 va)"
    and d: "vpn 2 va = 2 \<Longrightarrow> clean (get_entry64 m b (vpn 1 va)) = dram_entry (vpn 1 va)"
      "vpn 2 va = 0 \<Longrightarrow> clean (get_entry64 m c (vpn 1 va)) = mmio_entry (vpn 1 va)"
    and va: "unat va < 2 ^ 39"
  shows "walk_ok m l2 va"
    "kernel_flags va = None \<Longrightarrow> pt_walk m l2 va = None"
    "kernel_flags va = Some fl \<Longrightarrow> \<exists>t i pte ppn n. pt_walk m l2 va = Some (t, i, pte, ppn) \<and> t \<in> {b, c} \<and> i < 512 \<and> i = vpn 1 va \<and>
       (t = c \<longrightarrow> vpn 2 va = 0 \<or> b = c) \<and> get_entry64 m t i = pte \<and> clean pte = PTE n fl \<and> ppn * 4096 OR (va AND 0xFFF) = va"
proof -
  note w = root_entry_walk [OF t(2,3)]
  have l: "is_valid (get_entry64 m x (vpn 1 va)) \<Longrightarrow> is_leaf (get_entry64 m x (vpn 1 va))"
    if "vpn 2 va = 2 \<and> x = b \<or> vpn 2 va = 0 \<and> x = c" for x
    using that d table_entry_cases [of "vpn 1 va"] clean_leaf [of "get_entry64 m x (vpn 1 va)"] clean_invalid [of "get_entry64 m x (vpn 1 va)"]
    by (metis insertCI)
  show "walk_ok m l2 va"
    using t w l by (auto simp: walk_ok_def Let_def r2)
  show "kernel_flags va = None \<Longrightarrow> pt_walk m l2 va = None"
  proof -
    assume "kernel_flags va = None"
    then have none: "vpn 2 va = 2 \<Longrightarrow> dram_entry (vpn 1 va) = 0" "vpn 2 va = 0 \<Longrightarrow> mmio_entry (vpn 1 va) = 0"
      unfolding kmap_vpns(1) [OF va] by (auto simp: dram_entry_def mmio_entry_def split: if_splits)
    consider "vpn 2 va = 2" | "vpn 2 va = 0" | "\<not> is_valid (root_entry b c (vpn 2 va))" using w(1) [of "vpn 2 va"] by auto
    then show ?thesis
    proof cases
      case 1
      then have "\<not> is_valid (get_entry64 m b (vpn 1 va))" using d(1) none(1) clean_invalid by simp
      then show ?thesis using w(4) 1 r2 by (simp add: pt_walk_def Let_def)
    next
      case 2
      then have "\<not> is_valid (get_entry64 m c (vpn 1 va))" using d(2) none(2) clean_invalid by simp
      then show ?thesis using w(3) 2 r2 by (simp add: pt_walk_def Let_def)
    next
      case 3
      then show ?thesis using r2 by (simp add: pt_walk_def Let_def)
    qed
  qed
  show "kernel_flags va = Some fl \<Longrightarrow> \<exists>t i pte ppn n. pt_walk m l2 va = Some (t, i, pte, ppn) \<and> t \<in> {b, c} \<and> i < 512 \<and> i = vpn 1 va \<and>
       (t = c \<longrightarrow> vpn 2 va = 0 \<or> b = c) \<and> get_entry64 m t i = pte \<and> clean pte = PTE n fl \<and> ppn * 4096 OR (va AND 0xFFF) = va"
  proof -
    assume fl: "kernel_flags va = Some fl"
    have b: "of_nat (512 * vpn 2 va + vpn 1 va) * MEGAPAGE = va AND NOT 0x1FFFFF" by (simp only: mega_base flip: kmap_vpns(2) [OF va])
    have r: "is_valid (get_entry64 m l2 (vpn 2 va)) \<and> \<not> is_leaf (get_entry64 m l2 (vpn 2 va))" if "vpn 2 va \<in> {0, 2}"
      using that w(1,2) r2 by auto
    have *: ?thesis if "t = b \<or> t = c \<and> vpn 2 va = 0" "table_of (get_entry64 m l2 (vpn 2 va)) = t" "vpn 2 va \<in> {0, 2}"
      "clean (get_entry64 m t (vpn 1 va)) = PTE (drop_bit 12 (va AND NOT 0x1FFFFF)) fl" "fl \<in> {7, 0xF}" for t
      using mega_leaf [OF conjunct1 [OF r] conjunct2 [OF r] that(2,4,5) va] that(1,3,4) vpn_less by auto
    consider "vpn 2 va = 2" "vpn 1 va < 64" "fl = 0xF"
      | "vpn 2 va = 0" "vpn 1 va = 0 \<or> vpn 1 va = 16 \<or> 96 \<le> vpn 1 va \<and> vpn 1 va \<le> 128" "fl = 7"
      using fl unfolding kmap_vpns(1) [OF va] by (auto split: if_splits)
    then show ?thesis
    proof cases
      case 1
      have "DRAM_BASE + of_nat (vpn 1 va) * MEGAPAGE = va AND NOT 0x1FFFFF" using b 1(1) by (simp add: algebra_simps)
      then show ?thesis using * [of b] 1 d(1) w(4) r2 by (simp add: dram_entry_def)
    next
      case 2
      then show ?thesis using * [of c] 2 d(2) w(3) r2 b by (simp add: mmio_entry_def)
    qed
  qed
qed

lemma kmap_walk:
  assumes ok: "kmap_ok m l2 b c" and va: "unat va < 2 ^ 39"
  shows "walk_ok m l2 va"
    "kernel_flags va = None \<Longrightarrow> pt_walk m l2 va = None"
    "kernel_flags va = Some fl \<Longrightarrow> \<exists>t i pte ppn n. pt_walk m l2 va = Some (t, i, pte, ppn) \<and> t \<in> {b, c} \<and> i < 512 \<and>
       get_entry64 m t i = pte \<and> clean pte = PTE n fl \<and> ppn * 4096 OR (va AND 0xFFF) = va"
proof -
  have t: "table_page l2" "table_page b" "table_page c" and r2: "get_entry64 m l2 (vpn 2 va) = root_entry b c (vpn 2 va)"
    and d: "clean (get_entry64 m b (vpn 1 va)) = dram_entry (vpn 1 va)" "clean (get_entry64 m c (vpn 1 va)) = mmio_entry (vpn 1 va)"
    using ok unfolding kmap_ok_def by simp_all
  note w = mega_walk [OF t r2 d va]
  show "walk_ok m l2 va" by (rule w(1))
  show "pt_walk m l2 va = None" if "kernel_flags va = None" using that by (rule w(2))
  show "\<exists>t i pte ppn n. pt_walk m l2 va = Some (t, i, pte, ppn) \<and> t \<in> {b, c} \<and> i < 512 \<and>
       get_entry64 m t i = pte \<and> clean pte = PTE n fl \<and> ppn * 4096 OR (va AND 0xFFF) = va" if "kernel_flags va = Some fl"
    using w(3) [OF that] by (elim exE conjE) (intro exI conjI, assumption+)
qed

text \<open>The invariant survives translations.\<close>

lemma kmap_touch:
  assumes "kmap_ok m l2 b c" "t \<in> {b, c}" "i < 512" "pte = get_entry64 m t i"
  shows "kmap_ok (put_entry64 t i (touched pte type) m) l2 b c"
  using assms by (auto simp: kmap_ok_def get_put_entry)

primrec run_mmu :: "csr \<Rightarrow> (u64 \<times> AccessType \<times> cpu_mode) list \<Rightarrow> dram \<Rightarrow> dram" where
  "run_mmu c [] d = d"
| "run_mmu c (a # as) d = run_mmu c as (case a of (va, type, mode) \<Rightarrow> snd (mmu_translate c d va type mode))"

text \<open>What the mapping grants: mapped addresses outside user mode, device pages not for execution.\<close>

definition kernel_grants :: "u64 \<Rightarrow> AccessType \<Rightarrow> cpu_mode \<Rightarrow> bool" where
  "kernel_grants va type mode \<longleftrightarrow> mode \<noteq> User \<and>
     (case kernel_flags va of None \<Rightarrow> False | Some fl \<Rightarrow> type \<noteq> AccInstruction \<or> fl AND PTE_X \<noteq> 0)"

lemma kernel_flags_cases: "kernel_flags va = Some fl \<Longrightarrow> fl = 7 \<or> fl = 0xF"
  by (auto simp: kernel_flags_def split: if_splits)

lemma leaf_check_clean:
  assumes "clean pte = PTE n fl" "unat fl < 64" shows "leaf_check pte va type mode = leaf_check fl va type mode"
  unfolding leaf_check_def clean_flags [OF assms] ..

text \<open>The three exceptions of a failed translation, with the address that was accessed.\<close>

definition page_fault :: "u64 \<Rightarrow> 'a outcome \<Rightarrow> bool" where
  "page_fault va r \<longleftrightarrow>
     r = Throw (Exception InstructionPageFault va) \<or> r = Throw (Exception LoadPageFault va) \<or> r = Throw (Exception StoreAMOPageFault va)"

lemma leaf_check_kernel:
  assumes "kernel_flags v = Some fl"
  shows "if kernel_grants v type mode then leaf_check fl va type mode = Ret () else page_fault va (leaf_check fl va type mode)"
  using kernel_flags_cases [OF assms] assms by (cases type) (auto simp: kernel_grants_def leaf_check_def page_fault_def)

text \<open>The walk looks at the low 39 bits of an address only.\<close>

lemma low_vpn: "k \<le> 2 \<Longrightarrow> vpn k (take_bit 39 va) = vpn k va"
proof -
  assume "k \<le> 2"
  then have "drop_bit (12 + 9 * k) (take_bit 39 va) AND mask 9 = drop_bit (12 + 9 * k) va AND mask 9"
    by (intro bit_word_eqI) (auto simp: bit_simps)
  then show ?thesis by (simp add: vpn_def mask_eq_exp_minus_1)
qed

lemma low_walk: "pt_walk m root (take_bit 39 va) = pt_walk m root va" "walk_ok m root (take_bit 39 va) = walk_ok m root va"
  by (simp_all add: pt_walk_def walk_ok_def low_vpn Let_def)

lemma low_offset: "take_bit 39 va AND 0xFFF = va AND 0xFFF" for va :: u64
proof -
  have "take_bit 39 va AND mask 12 = va AND mask 12" by (rule bit_word_eqI) (auto simp: bit_simps)
  then show ?thesis by (simp add: mask_eq_exp_minus_1)
qed

lemma low_less: "unat (take_bit 39 va) < 2 ^ 39" for va :: u64
  by (simp add: unsigned_take_bit_eq take_bit_nat_def)

lemma kmap_translate:
  assumes ok: "kmap_ok m l2 b c" and satp: "csr_load cs SATP = SATP_SV39 OR drop_bit 12 l2"
  shows "\<exists>m'. kmap_ok m' l2 b c \<and> snd (mmu_translate cs (dram_view m) va type mode) = dram_view m' \<and>
    (if kernel_grants (take_bit 39 va) type mode then fst (mmu_translate cs (dram_view m) va type mode) = Ret (take_bit 39 va)
     else page_fault va (fst (mmu_translate cs (dram_view m) va type mode)))"
proof -
  note walk = kmap_walk [OF ok low_less [of va]]
  note mmu = mmu_pt_walk [OF satp walk(1) [unfolded low_walk(2)], of type mode]
  show ?thesis
  proof (cases "kernel_flags (take_bit 39 va)")
    case None
    then show ?thesis using mmu walk(2) ok by (auto simp: kernel_grants_def low_walk page_fault_def)
  next
    case (Some fl)
    then obtain t i pte ppn n where w: "pt_walk m l2 va = Some (t, i, pte, ppn)" "t \<in> {b, c}" "i < 512"
        "get_entry64 m t i = pte" "clean pte = PTE n fl" "ppn * 4096 OR (va AND 0xFFF) = take_bit 39 va"
      using walk(3) by (auto simp: low_walk low_offset)
    have "unat fl < 64" using kernel_flags_cases [OF Some] by auto
    note c = leaf_check_clean [OF w(5) this, of va type mode] leaf_check_kernel [OF Some, of type mode va]
    note k = kmap_touch [OF ok w(2,3) w(4) [symmetric], of type]
    show ?thesis using mmu w(1,6) c k ok by (auto simp: page_fault_def split: if_splits)
  qed
qed

lemma kmap_history:
  assumes "kmap_ok m l2 b c" "csr_load cs SATP = SATP_SV39 OR drop_bit 12 l2"
  shows "\<exists>m'. kmap_ok m' l2 b c \<and> run_mmu cs as (dram_view m) = dram_view m'"
  using assms(1)
proof (induction "as" arbitrary: m)
  case (Cons a "as")
  obtain va type mode where a: "a = (va, type, mode)" by (cases a)
  obtain m1 where "kmap_ok m1 l2 b c" "snd (mmu_translate cs (dram_view m) va type mode) = dram_view m1"
    using kmap_translate [OF Cons.prems(1) assms(2), of va type mode] by auto
  then show ?case using Cons a by simp
qed auto

lemma kernel_page_table: "p \<in> page_range kernel_start (bump_ptr s) \<Longrightarrow> mem_rep s F \<Longrightarrow> table_page p"
proof -
  assume p: "p \<in> page_range kernel_start (bump_ptr s)" and "mem_rep s F"
  then have "page_aligned p" "page_aligned (bump_ptr s)" "unat (bump_ptr s) \<le> 0x88000000" "unat p < unat (bump_ptr s)"
    "0x80200000 \<le> unat p"
    by (auto simp: mem_rep_def page_range_less word_le_nat_alt)
  then show ?thesis using aligned_apart [of p "bump_ptr s"] by (simp add: table_page_def in_dram_def)
qed

lemma for_each_keep: "(\<And>i m. i < n \<Longrightarrow> f i m a = m a) \<Longrightarrow> for_each n f m a = m a"
  by (induction n) (simp_all add: for_each_Suc)

definition in_page :: "u64 \<Rightarrow> u64 \<Rightarrow> bool" where
  "in_page a p \<longleftrightarrow> unat p \<le> unat a \<and> unat a < unat p + 4096"

lemma put_entry_page: "table_page p \<Longrightarrow> i < 512 \<Longrightarrow> \<not> in_page a p \<Longrightarrow> put_entry64 p i v m a = m a"
  by (rule put_entry_outside) (auto simp: in_page_def)

lemma in_page_unique:
  assumes "in_page a p" "in_page a q" "page_aligned p" "page_aligned q" shows "p = q"
proof (rule ccontr)
  assume "p \<noteq> q"
  then have "unat p < unat q \<or> unat q < unat p" by (metis linorder_less_linear unsigned_word_eqI)
  then show False using aligned_apart [OF assms(3,4)] aligned_apart [OF assms(4,3)] assms(1,2) by (auto simp: in_page_def)
qed

text \<open>Writes inside pages that are handed out leave the allocator's state alone.\<close>

lemma heap_rep_bytes:
  assumes "heap_rep s F U" "\<And>a. \<forall>p \<in> U. \<not> in_page a p \<Longrightarrow> m' a = ram_bytes s a"
  shows "heap_rep (s\<lparr>ram_bytes := m'\<rparr>) F U"
proof -
  have rep: "mem_rep s F" "U \<subseteq> page_range kernel_start (bump_ptr s)" "F \<inter> U = {}" using assms(1) by (auto simp: heap_rep_def)
  have "m' (x + of_nat i) = ram_bytes s (x + of_nat i)" if "x \<in> F" "i < 8" for x i
  proof (rule assms(2), rule ballI, rule notI)
    fix p assume p: "p \<in> U" "in_page (x + of_nat i) p"
    have x: "page_aligned x" "unat x < 0x88000000" using rep_pages [OF rep(1) that(1)] by (auto simp: word_less_nat_alt)
    have "unat (x + of_nat i) = unat x + i" by (rule unat_offset) (use x that(2) in simp)
    then have "in_page (x + of_nat i) x" using that(2) by (simp add: in_page_def)
    then have "x = p" using in_page_unique p(2) x(1) rep(2) p(1) by (auto simp: page_range_def)
    then show False using p(1) that(1) rep(3) by auto
  qed
  then show ?thesis using mem_rep_bytes [OF rep(1)] rep(2,3) by (simp add: heap_rep_def)
qed

lemma build_tables_keep:
  assumes "table_page p" "table_page q" "table_page r" "\<not> in_page a p" "\<not> in_page a q" "\<not> in_page a r"
  shows "build_tables p q r m a = m a"
proof -
  have "clear_tables p q r m a = m a" for m
    unfolding clear_tables_def by (rule for_each_keep) (simp add: put_entry_page assms)
  moreover have "map_dram q m a = m a" "map_plic r m a = m a" for m
    unfolding map_dram_def map_plic_def by (rule for_each_keep; simp add: put_entry_page assms)+
  ultimately show ?thesis by (simp add: build_tables_def Let_def put_entry_page assms)
qed

lemma vm_init_tables:
  assumes "heap_rep s F U" "3 \<le> card F" "vm_init (s, cs, g) = (s', cs', g')"
  shows "kmap_ok (ram_bytes s') (kernel_l2 g') (kernel_l1_dram g') (kernel_l1_mmio g')"
    "csr_load cs' SATP = SATP_SV39 OR drop_bit 12 (kernel_l2 g')" "\<exists>P \<subseteq> F. card P = 3 \<and> heap_rep s' (F - P) (U \<union> P)"
proof -
  obtain p q r s1 s2 s3 where a: "kalloc s = (p, s1)" "kalloc s1 = (q, s2)" "kalloc s2 = (r, s3)" by (metis surj_pair)
  then have "heap.alloc_many 3 s = ([p, q, r], s3)" by (simp add: numeral_3_eq_3)
  from heap.alloc_many_distinct [OF assms(1,2) this]
  have d: "distinct [p, q, r]" "{p, q, r} \<subseteq> F" "p \<noteq> 0" "q \<noteq> 0" "r \<noteq> 0" "heap_rep s3 (F - {p, q, r}) (U \<union> {p, q, r})" by auto
  have rep: "mem_rep s3 (F - {p, q, r})" "{p, q, r} \<subseteq> page_range kernel_start (bump_ptr s3)" using d(6) by (auto simp: heap_rep_def)
  have t: "table_page p" "table_page q" "table_page r" using kernel_page_table [OF _ rep(1)] rep(2) by auto
  have e: "s' = s3\<lparr>ram_bytes := build_tables p q r (ram_bytes s3)\<rparr>" "cs' = csr_store cs SATP (SATP_SV39 OR drop_bit 12 p)"
    "g' = \<lparr>kernel_l2 = p, kernel_l1_dram = q, kernel_l1_mmio = r\<rparr>"
    using assms(3) a d(3-5) by (auto simp: vm_init_def)
  show "kmap_ok (ram_bytes s') (kernel_l2 g') (kernel_l1_dram g') (kernel_l1_mmio g')"
    using build_tables_kmap [OF t d(1)] e by simp
  show "csr_load cs' SATP = SATP_SV39 OR drop_bit 12 (kernel_l2 g')" using e by simp
  have "heap_rep s' (F - {p, q, r}) (U \<union> {p, q, r})"
    unfolding e(1) by (rule heap_rep_bytes [OF d(6)]) (simp add: build_tables_keep t)
  then show "\<exists>P \<subseteq> F. card P = 3 \<and> heap_rep s' (F - P) (U \<union> P)" using d(1,2) by (intro exI [of _ "{p, q, r}"]) auto
qed

text \<open>A state after \<open>mem_init\<close>, for the witnesses.\<close>

definition boot_mem :: mem_state where
  "boot_mem = mem_init 0x80300000 \<lparr>ram_bytes = (\<lambda>_. 0), free_list = 0, total_free = 0, bump_ptr = 0, heap_end = 0\<rparr>"

lemma boot_mem_rep: "heap_rep boot_mem (page_range 0x80300000 0x87FC0000) {}" "31000 \<le> card (page_range 0x80300000 0x87FC0000)"
proof -
  show "heap_rep boot_mem (page_range 0x80300000 0x87FC0000) {}"
    using mem_init_rep [of "0x80300000"] by (simp add: heap_rep_def align_up_def boot_mem_def)
  show "31000 \<le> card (page_range 0x80300000 0x87FC0000)"
    by (subst card_page_range) (simp_all add: page_aligned_def)
qed



end
