(* ===== verification/Fs_Disk.thy ===== *)
theory Fs_Disk
  imports Os_Block
begin

text \<open>
  The block layer of MiniFS (\<^verbatim>\<open>kernel/minifs.c\<close>, lines 7-265): bitmaps, the inode table, block
  allocation and the map from a file's block index to a disk block.  The state is the disk, the
  two descriptor tables and the three static buffers of the file.  The disk is the abstract one
  that the block driver implements (theory Os_Block).
\<close>

abbreviation (input) MINIFS_MAGIC :: u32 where "MINIFS_MAGIC \<equiv> 0x4d465332"
abbreviation (input) MINIFS_VERSION :: u32 where "MINIFS_VERSION \<equiv> 2"
abbreviation (input) MINIFS_MAX_INODES :: nat where "MINIFS_MAX_INODES \<equiv> 256"
abbreviation (input) MINIFS_DIRECT_BLOCKS :: nat where "MINIFS_DIRECT_BLOCKS \<equiv> 10"
abbreviation (input) MINIFS_INDIRECT_BLOCKS :: nat where "MINIFS_INDIRECT_BLOCKS \<equiv> 128"
abbreviation (input) MINIFS_MAX_OPEN_FILES :: nat where "MINIFS_MAX_OPEN_FILES \<equiv> 64"
abbreviation (input) MINIFS_MAX_PROCESSES :: nat where "MINIFS_MAX_PROCESSES \<equiv> 16"
abbreviation (input) MINIFS_INODE_BITMAP_START :: u32 where "MINIFS_INODE_BITMAP_START \<equiv> 1"
abbreviation (input) MINIFS_DATA_BITMAP_START :: u32 where "MINIFS_DATA_BITMAP_START \<equiv> 2"
abbreviation (input) MINIFS_DATA_BITMAP_BLOCKS :: nat where "MINIFS_DATA_BITMAP_BLOCKS \<equiv> 4"
abbreviation (input) MINIFS_INODE_TABLE_START :: u32 where "MINIFS_INODE_TABLE_START \<equiv> 6"
abbreviation (input) MINIFS_DATA_START :: nat where "MINIFS_DATA_START \<equiv> 38"
abbreviation (input) MINIFS_BLOCK_COUNT :: nat where "MINIFS_BLOCK_COUNT \<equiv> 15360"
abbreviation (input) MINIFS_MAX_FILE_SIZE :: nat where "MINIFS_MAX_FILE_SIZE \<equiv> 65536"

section \<open>State\<close>

record minifs_inode =
  i_mode :: u32
  i_size :: u32
  i_parent :: u32
  i_links :: u32
  i_direct :: "u32 list"
  i_indirect :: u32
  i_reserved :: u32

record open_file =
  of_used :: bool
  of_refs :: int
  of_type :: int
  of_flags :: int
  of_inode :: u32
  of_offset :: u32

record process_fds =
  pf_used :: bool
  pf_pid :: int
  pf_fd :: "int list"
  pf_cloexec :: u16

record fs =
  fs_disk :: disk
  open_files :: "open_file list"
  fd_tables :: "process_fds list"
  block_buffer :: "u8 list"
  indirect_buffer :: "u8 list"
  bitmap_buffer :: "u8 list"

section \<open>Bytes\<close>

text \<open>\<open>copy_bytes buf off bytes\<close> stores \<open>bytes\<close> at \<open>off\<close>; \<open>bytes_at buf off n\<close> reads \<open>n\<close> bytes.\<close>

definition copy_bytes :: "u8 list \<Rightarrow> nat \<Rightarrow> u8 list \<Rightarrow> u8 list" where
  "copy_bytes buf off bytes = take off buf @ bytes @ drop (off + length bytes) buf"

definition bytes_at :: "u8 list \<Rightarrow> nat \<Rightarrow> nat \<Rightarrow> u8 list" where
  "bytes_at buf off n = take n (drop off buf)"

definition enc32 :: "u32 \<Rightarrow> u8 list" where
  "enc32 w = map (le_byte (ucast w)) [0..<4]"

definition get32 :: "u8 list \<Rightarrow> nat \<Rightarrow> u32" where
  "get32 buf off = ucast (le_load 4 (\<lambda>i. buf ! (off + i)))"

definition inode_words :: "minifs_inode \<Rightarrow> u32 list" where
  "inode_words ino = [i_mode ino, i_size ino, i_parent ino, i_links ino] @ i_direct ino
     @ [i_indirect ino, i_reserved ino]"

definition inode_bytes :: "minifs_inode \<Rightarrow> u8 list" where
  "inode_bytes ino = concat (map enc32 (inode_words ino))"

definition inode_of :: "u8 list \<Rightarrow> minifs_inode" where
  "inode_of bs = \<lparr>i_mode = get32 bs 0, i_size = get32 bs 4, i_parent = get32 bs 8, i_links = get32 bs 12,
     i_direct = map (\<lambda>k. get32 bs (16 + 4 * k)) [0..<10], i_indirect = get32 bs 56, i_reserved = get32 bs 60\<rparr>"

definition zero_inode :: minifs_inode where
  "zero_inode = \<lparr>i_mode = 0, i_size = 0, i_parent = 0, i_links = 0,
     i_direct = replicate 10 0, i_indirect = 0, i_reserved = 0\<rparr>"

section \<open>Operations\<close>

text \<open>\<open>block_read(sector, block_buffer)\<close> and the like.\<close>

definition bread :: "fs \<Rightarrow> u32 \<Rightarrow> int \<times> fs" where
  "bread s sector = (let (r, buf) = disk_read (fs_disk s) sector (block_buffer s) in (r, s\<lparr>block_buffer := buf\<rparr>))"

definition bwrite :: "fs \<Rightarrow> u32 \<Rightarrow> int \<times> fs" where
  "bwrite s sector = (let (r, d) = disk_write (fs_disk s) sector (block_buffer s) in (r, s\<lparr>fs_disk := d\<rparr>))"

definition iread :: "fs \<Rightarrow> u32 \<Rightarrow> int \<times> fs" where
  "iread s sector = (let (r, buf) = disk_read (fs_disk s) sector (indirect_buffer s) in (r, s\<lparr>indirect_buffer := buf\<rparr>))"

definition iwrite :: "fs \<Rightarrow> u32 \<Rightarrow> int \<times> fs" where
  "iwrite s sector = (let (r, d) = disk_write (fs_disk s) sector (indirect_buffer s) in (r, s\<lparr>fs_disk := d\<rparr>))"

definition bitmap_write :: "fs \<Rightarrow> nat \<Rightarrow> int \<times> fs" where
  "bitmap_write s k =
     (let (r, d) = disk_write (fs_disk s) (MINIFS_DATA_BITMAP_START + of_nat k) (bytes_at (bitmap_buffer s) (k * 512) 512)
      in (r, s\<lparr>fs_disk := d\<rparr>))"

definition bitmap_test :: "u8 list \<Rightarrow> nat \<Rightarrow> bool" where
  "bitmap_test bitmap i \<longleftrightarrow> drop_bit (i mod 8) (bitmap ! (i div 8)) AND 1 \<noteq> 0"

definition bitmap_set :: "u8 list \<Rightarrow> nat \<Rightarrow> bool \<Rightarrow> u8 list" where
  "bitmap_set bitmap i value =
     (let mask = push_bit (i mod 8) 1
      in bitmap[i div 8 := (if value then bitmap ! (i div 8) OR mask else bitmap ! (i div 8) AND NOT mask)])"

text \<open>The search loops of the allocators: the first clear bit from \<open>lo\<close> up to \<open>hi\<close>.\<close>

definition first_free :: "u8 list \<Rightarrow> nat \<Rightarrow> nat \<Rightarrow> nat option" where
  "first_free bitmap lo hi = find (\<lambda>i. \<not> bitmap_test bitmap i) [lo..<hi]"

definition read_inode :: "fs \<Rightarrow> u32 \<Rightarrow> (int \<times> minifs_inode) \<times> fs" where
  "read_inode s number =
     (if unat number \<ge> MINIFS_MAX_INODES then ((-1, zero_inode), s)
      else let block = MINIFS_INODE_TABLE_START + drop_bit 3 number;
               offset = unat (number AND 7) * 64;
               (r, s) = bread s block
        in if r < 0 then ((-1, zero_inode), s)
           else ((0, inode_of (bytes_at (block_buffer s) offset 64)), s))"

definition write_inode :: "fs \<Rightarrow> u32 \<Rightarrow> minifs_inode \<Rightarrow> int \<times> fs" where
  "write_inode s number inode =
     (if unat number \<ge> MINIFS_MAX_INODES then (-1, s)
      else let block = MINIFS_INODE_TABLE_START + drop_bit 3 number;
               offset = unat (number AND 7) * 64;
               (r, s) = bread s block
        in if r < 0 then (-1, s)
           else bwrite (s\<lparr>block_buffer := copy_bytes (block_buffer s) offset (inode_bytes inode)\<rparr>) block)"

primrec load_bitmap :: "nat list \<Rightarrow> fs \<Rightarrow> int \<times> fs" where
  "load_bitmap [] s = (0, s)"
| "load_bitmap (i # is) s =
     (let (r, buf) = disk_read (fs_disk s) (MINIFS_DATA_BITMAP_START + of_nat i) (bytes_at (bitmap_buffer s) (i * 512) 512);
          s = s\<lparr>bitmap_buffer := copy_bytes (bitmap_buffer s) (i * 512) buf\<rparr>
      in if r < 0 then (-1, s) else load_bitmap is s)"

definition alloc_inode :: "fs \<Rightarrow> int \<times> fs" where
  "alloc_inode s =
     (let (r, s) = bread s MINIFS_INODE_BITMAP_START
      in if r < 0 then (-1, s)
         else case first_free (block_buffer s) 1 MINIFS_MAX_INODES of
             None \<Rightarrow> (-1, s)
           | Some i \<Rightarrow>
             let s = s\<lparr>block_buffer := bitmap_set (block_buffer s) i True\<rparr>;
                 (r, s) = bwrite s MINIFS_INODE_BITMAP_START
             in if r < 0 then (-1, s) else (int i, s))"

definition free_inode_number :: "fs \<Rightarrow> u32 \<Rightarrow> fs" where
  "free_inode_number s inode =
     (if inode = 0 \<or> unat inode \<ge> MINIFS_MAX_INODES then s
      else let (r, s) = bread s MINIFS_INODE_BITMAP_START
        in if r < 0 then s
           else snd (bwrite (s\<lparr>block_buffer := bitmap_set (block_buffer s) (unat inode) False\<rparr>)
                  MINIFS_INODE_BITMAP_START))"

definition alloc_data_block :: "fs \<Rightarrow> int \<times> fs" where
  "alloc_data_block s =
     (case first_free (bitmap_buffer s) MINIFS_DATA_START MINIFS_BLOCK_COUNT of
        None \<Rightarrow> (-1, s)
      | Some i \<Rightarrow>
        let s = s\<lparr>bitmap_buffer := bitmap_set (bitmap_buffer s) i True\<rparr>;
            (r, s) = bitmap_write s (i div 4096)
        in if r < 0 then (-1, s)
           else let s = s\<lparr>block_buffer := replicate 512 0\<rparr>;
                    (r, s) = bwrite s (of_nat i)
             in if r < 0 then (-1, s) else (int i, s))"

definition free_data_block :: "fs \<Rightarrow> u32 \<Rightarrow> fs" where
  "free_data_block s block =
     (if unat block < MINIFS_DATA_START \<or> unat block \<ge> MINIFS_BLOCK_COUNT then s
      else snd (bitmap_write (s\<lparr>bitmap_buffer := bitmap_set (bitmap_buffer s) (unat block) False\<rparr>)
             (unat block div 4096)))"

definition inode_block :: "fs \<Rightarrow> minifs_inode \<Rightarrow> nat \<Rightarrow> u32 \<times> fs" where
  "inode_block s inode index =
     (if index < MINIFS_DIRECT_BLOCKS then (i_direct inode ! index, s)
      else if index \<ge> MINIFS_DIRECT_BLOCKS + MINIFS_INDIRECT_BLOCKS \<or> i_indirect inode = 0 then (0, s)
      else let (r, s) = bread s (i_indirect inode)
        in if r < 0 then (0, s)
           else (get32 (block_buffer s) (4 * (index - MINIFS_DIRECT_BLOCKS)), s))"

text \<open>\<^verbatim>\<open>ensure_inode_block\<close> updates the caller's inode; \<open>(int)\<close> of a \<^verbatim>\<open>uint32_t\<close> is \<^const>\<open>sint\<close>.\<close>

definition ensure_direct :: "fs \<Rightarrow> minifs_inode \<Rightarrow> nat \<Rightarrow> (int \<times> minifs_inode) \<times> fs" where
  "ensure_direct s inode index =
     (if i_direct inode ! index = 0 then
        let (block, s) = alloc_data_block s
        in if block < 0 then ((-1, inode), s)
           else let inode = inode\<lparr>i_direct := (i_direct inode)[index := of_int block]\<rparr>
             in ((sint (i_direct inode ! index), inode), s)
      else ((sint (i_direct inode ! index), inode), s))"

definition ensure_indirect :: "fs \<Rightarrow> minifs_inode \<Rightarrow> (int \<times> minifs_inode) \<times> fs" where
  "ensure_indirect s inode =
     (if i_indirect inode = 0 then
        let (block, s) = alloc_data_block s
        in if block < 0 then ((-1, inode), s) else ((0, inode\<lparr>i_indirect := of_int block\<rparr>), s)
      else ((0, inode), s))"

definition ensure_slot :: "fs \<Rightarrow> minifs_inode \<Rightarrow> nat \<Rightarrow> (int \<times> minifs_inode) \<times> fs" where
  "ensure_slot s inode slot =
     (let (r, s) = iread s (i_indirect inode)
      in if r < 0 then ((-1, inode), s)
         else if get32 (indirect_buffer s) (4 * slot) = 0 then
           let (block, s) = alloc_data_block s
           in if block < 0 then ((-1, inode), s)
              else let s = s\<lparr>indirect_buffer := copy_bytes (indirect_buffer s) (4 * slot) (enc32 (of_int block))\<rparr>;
                       (r, s) = iwrite s (i_indirect inode)
                in if r < 0 then ((-1, inode), s)
                   else ((sint (get32 (indirect_buffer s) (4 * slot)), inode), s)
         else ((sint (get32 (indirect_buffer s) (4 * slot)), inode), s))"

definition ensure_inode_block :: "fs \<Rightarrow> minifs_inode \<Rightarrow> nat \<Rightarrow> (int \<times> minifs_inode) \<times> fs" where
  "ensure_inode_block s inode index =
     (if index \<ge> MINIFS_DIRECT_BLOCKS + MINIFS_INDIRECT_BLOCKS then ((-1, inode), s)
      else if index < MINIFS_DIRECT_BLOCKS then ensure_direct s inode index
      else let ((r, inode), s) = ensure_indirect s inode
        in if r < 0 then ((-1, inode), s)
           else ensure_slot s inode (index - MINIFS_DIRECT_BLOCKS))"

definition indirect_entries :: "u8 list \<Rightarrow> u32 list" where
  "indirect_entries buf = map (\<lambda>k. get32 buf (4 * k)) [0..<MINIFS_INDIRECT_BLOCKS]"

definition truncate_inode :: "fs \<Rightarrow> minifs_inode \<Rightarrow> minifs_inode \<times> fs" where
  "truncate_inode s inode =
     (let s = fold (\<lambda>b s. free_data_block s b) (i_direct inode) s;
          direct = replicate MINIFS_DIRECT_BLOCKS 0;
          s = (if i_indirect inode \<noteq> 0 then
                 let (r, s) = iread s (i_indirect inode);
                     s = (if r = 0 then fold (\<lambda>b s. free_data_block s b) (indirect_entries (indirect_buffer s)) s else s)
                 in free_data_block s (i_indirect inode)
               else s)
      in (inode\<lparr>i_direct := direct, i_indirect := 0, i_size := 0\<rparr>, s))"

end
