(* ===== verification/Os_Space.thy ===== *)
theory Os_Space
  imports Os_Vm Fs_Disk "HOL-Library.Monad_Syntax"
begin

text \<open>
  User address spaces (\<^verbatim>\<open>kernel/user.c\<close>, lines 59-189 and 382-473, and the structures of
  \<^verbatim>\<open>kernel/task.h\<close>): page-table pages and user pages come from the allocator and are written
  through kernel memory.  Kernel buffers are byte lists.  The pointers to address spaces the
  functions take are addresses of variables, never null.
\<close>

abbreviation (input) USER_MAX_PAGES :: nat where "USER_MAX_PAGES \<equiv> 64"
abbreviation (input) USER_MIN_VA :: u64 where "USER_MIN_VA \<equiv> 0x10000"
abbreviation (input) USER_STACK_TOP :: u64 where "USER_STACK_TOP \<equiv> 0x200000"
abbreviation (input) USER_STACK_BOTTOM :: u64 where "USER_STACK_BOTTOM \<equiv> 0x1FC000"

record user_page_mapping =
  pm_va :: u64
  pm_page :: u64
  pm_flags :: u64

record task_address_space =
  as_root :: u64
  as_l1_mmio :: u64
  as_l0_user :: u64
  as_pages :: "user_page_mapping list"
  as_page_count :: nat
  as_satp :: u64

section \<open>Pages\<close>

definition zero_page :: "u64 \<Rightarrow> bytes \<Rightarrow> bytes" where
  "zero_page page = for_each 512 (\<lambda>i. put_entry64 page i 0)"

definition copy_page :: "u64 \<Rightarrow> u64 \<Rightarrow> bytes \<Rightarrow> bytes" where
  "copy_page destination source = for_each 512 (\<lambda>i m. put_entry64 destination i (get_entry64 m source i) m)"

definition put_bytes :: "u64 \<Rightarrow> u8 list \<Rightarrow> bytes \<Rightarrow> bytes" where
  "put_bytes a bs = for_each (length bs) (\<lambda>i m. put_byte m (a + of_nat i) (bs ! i))"

definition get_bytes :: "bytes \<Rightarrow> u64 \<Rightarrow> nat \<Rightarrow> u8 list" where
  "get_bytes m a n = map (\<lambda>i. m (a + of_nat i)) [0..<n]"

definition zero_space :: task_address_space where
  "zero_space =
     \<lparr>as_root = 0, as_l1_mmio = 0, as_l0_user = 0,
      as_pages = replicate USER_MAX_PAGES \<lparr>pm_va = 0, pm_page = 0, pm_flags = 0\<rparr>, as_page_count = 0, as_satp = 0\<rparr>"

definition free_page :: "u64 \<Rightarrow> mem_state \<Rightarrow> mem_state" where
  "free_page p s = (if p \<noteq> 0 then kfree s p else s)"

definition user_space_destroy :: "task_address_space \<Rightarrow> mem_state \<Rightarrow> task_address_space \<times> mem_state" where
  "user_space_destroy space s =
     (let s = for_each (as_page_count space) (\<lambda>i. free_page (pm_page (as_pages space ! i))) s;
          s = free_page (as_l0_user space) s;
          s = free_page (as_l1_mmio space) s
      in (zero_space, free_page (as_root space) s))"

definition write_ram :: "(bytes \<Rightarrow> bytes) \<Rightarrow> mem_state \<Rightarrow> mem_state" where
  "write_ram f s = s\<lparr>ram_bytes := f (ram_bytes s)\<rparr>"

text \<open>The tables of a new address space, from copies of the kernel's.\<close>

definition user_tables :: "kernel_tables \<Rightarrow> u64 \<Rightarrow> u64 \<Rightarrow> u64 \<Rightarrow> bytes \<Rightarrow> bytes" where
  "user_tables g root l1 l0 m =
     (let m = copy_page root (kernel_l2 g) m;
          m = copy_page l1 (kernel_l1_mmio g) m;
          m = zero_page l0 m;
          m = put_entry64 root 0 (PTE (drop_bit 12 l1) PTE_V) m
      in put_entry64 l1 0 (PTE (drop_bit 12 l0) (PTE_V OR PTE_U)) m)"

definition create_empty_space ::
  "kernel_tables \<Rightarrow> task_address_space \<Rightarrow> mem_state \<Rightarrow> (int \<times> task_address_space) \<times> mem_state" where
  "create_empty_space g space s =
     (if kernel_l2 g = 0 \<or> kernel_l1_mmio g = 0 then ((-1, space), s)
      else let (root, s) = kalloc s;
               (l1, s) = kalloc s;
               (l0, s) = kalloc s;
               space = zero_space\<lparr>as_root := root, as_l1_mmio := l1, as_l0_user := l0\<rparr>
        in if root = 0 \<or> l1 = 0 \<or> l0 = 0 then
             (let (space, s) = user_space_destroy space s in ((-1, space), s))
           else ((0, space\<lparr>as_satp := SATP_SV39 OR drop_bit 12 root\<rparr>), write_ram (user_tables g root l1 l0) s))"

section \<open>Mappings\<close>

definition find_mapping :: "task_address_space \<Rightarrow> u64 \<Rightarrow> nat option" where
  "find_mapping space va =
     first_index (\<lambda>i. pm_va (as_pages space ! i) = va AND NOT (PAGE_SIZE - 1)) (as_page_count space)"

definition set_mapping :: "nat \<Rightarrow> user_page_mapping \<Rightarrow> task_address_space \<Rightarrow> task_address_space" where
  "set_mapping i e space = space\<lparr>as_pages := (as_pages space)[i := e]\<rparr>"

definition write_leaf :: "task_address_space \<Rightarrow> u64 \<Rightarrow> u64 \<Rightarrow> u64 \<Rightarrow> mem_state \<Rightarrow> mem_state" where
  "write_leaf space va page flags =
     write_ram (put_entry64 (as_l0_user space) (unat (drop_bit 12 va AND 0x1FF))
       (PTE (drop_bit 12 page) (flags OR PTE_U OR PTE_V)))"

definition map_user_page ::
  "task_address_space \<Rightarrow> u64 \<Rightarrow> u64 \<Rightarrow> mem_state \<Rightarrow> (int \<times> task_address_space) \<times> mem_state" where
  "map_user_page space va flags s =
     (if va < USER_MIN_VA \<or> va \<ge> USER_STACK_TOP \<or> va AND (PAGE_SIZE - 1) \<noteq> 0 then ((-1, space), s)
      else case find_mapping space va of
        Some i \<Rightarrow>
          let e = as_pages space ! i;
              e = e\<lparr>pm_flags := pm_flags e OR flags\<rparr>
          in ((0, set_mapping i e space), write_leaf space va (pm_page e) (pm_flags e) s)
      | None \<Rightarrow>
          if as_page_count space \<ge> USER_MAX_PAGES then ((-1, space), s)
          else let (page, s) = kalloc s
            in if page = 0 then ((-1, space), s)
               else let s = write_ram (zero_page page) s;
                        space = set_mapping (as_page_count space) \<lparr>pm_va = va, pm_page = page, pm_flags = flags\<rparr> space;
                        space = space\<lparr>as_page_count := as_page_count space + 1\<rparr>
                 in ((0, space), write_leaf space va page flags s))"

section \<open>Copying\<close>

text \<open>The bytes to transfer within the page of \<open>va\<close> when \<open>n\<close> remain.\<close>

definition page_chunk :: "u64 \<Rightarrow> nat \<Rightarrow> nat" where
  "page_chunk va n = min n (4096 - unat (va AND (PAGE_SIZE - 1)))"

lemma page_offset_less: "unat (va AND (PAGE_SIZE - 1)) < 4096"
proof -
  have "va AND (PAGE_SIZE - 1) \<le> PAGE_SIZE - 1" by (rule word_and_le1)
  then show ?thesis by (simp add: word_le_nat_alt)
qed

lemma page_chunk_pos: "0 < n \<Longrightarrow> 0 < page_chunk va n"
  using page_offset_less [of va] by (simp add: page_chunk_def)

lemma chunk_progress: "dn < len \<Longrightarrow> len - (dn + page_chunk va (len - dn)) < len - (dn :: nat)"
  using page_chunk_pos [of "len - dn" va] by simp

function copy_to_space_loop :: "task_address_space \<Rightarrow> u64 \<Rightarrow> u8 list \<Rightarrow> nat \<Rightarrow> nat \<Rightarrow> bytes \<Rightarrow> int \<times> bytes" where
  "copy_to_space_loop space destination source dn len m =
     (if dn < len then
        case find_mapping space (destination + of_nat dn) of None \<Rightarrow> (-1, m)
        | Some i \<Rightarrow>
          let within = (destination + of_nat dn) AND (PAGE_SIZE - 1);
              chunk = page_chunk (destination + of_nat dn) (len - dn)
          in copy_to_space_loop space destination source (dn + chunk) len
               (put_bytes (pm_page (as_pages space ! i) + within) (bytes_at source dn chunk) m)
      else (0, m))"
  by auto
termination
  by (relation "measure (\<lambda>(space, destination, source, dn, len, m). len - dn)") (use chunk_progress in auto)

declare copy_to_space_loop.simps [simp del]

definition copy_to_space :: "task_address_space \<Rightarrow> u64 \<Rightarrow> u8 list \<Rightarrow> u64 \<Rightarrow> mem_state \<Rightarrow> int \<times> mem_state" where
  "copy_to_space space destination source len s =
     (let (r, m) = copy_to_space_loop space destination source 0 (unat len) (ram_bytes s)
      in (r, s\<lparr>ram_bytes := m\<rparr>))"

function copy_from_space_loop :: "task_address_space \<Rightarrow> u8 list \<Rightarrow> u64 \<Rightarrow> nat \<Rightarrow> nat \<Rightarrow> bytes \<Rightarrow> int \<times> u8 list" where
  "copy_from_space_loop space destination source dn len m =
     (if dn < len then
        case find_mapping space (source + of_nat dn) of None \<Rightarrow> (-1, destination)
        | Some i \<Rightarrow>
          let within = (source + of_nat dn) AND (PAGE_SIZE - 1);
              chunk = page_chunk (source + of_nat dn) (len - dn)
          in copy_from_space_loop space
               (copy_bytes destination dn (get_bytes m (pm_page (as_pages space ! i) + within) chunk))
               source (dn + chunk) len m
      else (0, destination))"
  by auto
termination
  by (relation "measure (\<lambda>(space, destination, source, dn, len, m). len - dn)") (use chunk_progress in auto)

declare copy_from_space_loop.simps [simp del]

definition copy_from_space :: "task_address_space \<Rightarrow> u8 list \<Rightarrow> u64 \<Rightarrow> u64 \<Rightarrow> mem_state \<Rightarrow> int \<times> u8 list" where
  "copy_from_space space destination source len s =
     copy_from_space_loop space destination source 0 (unat len) (ram_bytes s)"

section \<open>Cloning\<close>

text \<open>After a successful \<open>map_user_page\<close> the mapping is found; the code does not test for null.\<close>

primrec clone_pages ::
  "task_address_space \<Rightarrow> nat list \<Rightarrow> task_address_space \<Rightarrow> mem_state \<Rightarrow> (int \<times> task_address_space) \<times> mem_state" where
  "clone_pages source [] destination s = ((0, destination), s)"
| "clone_pages source (i # is) destination s =
     (let e = as_pages source ! i;
          ((r, destination), s) = map_user_page destination (pm_va e) (pm_flags e) s
      in if r < 0 then (let (destination, s) = user_space_destroy destination s in ((-1, destination), s))
         else case find_mapping destination (pm_va e) of
             None \<Rightarrow> ((0, destination), s)
           | Some j \<Rightarrow> clone_pages source is destination (write_ram (copy_page (pm_page (as_pages destination ! j)) (pm_page e)) s))"

definition user_space_clone ::
  "kernel_tables \<Rightarrow> task_address_space \<Rightarrow> task_address_space \<Rightarrow> mem_state \<Rightarrow> (int \<times> task_address_space) \<times> mem_state" where
  "user_space_clone g destination source s =
     (let ((r, destination), s) = create_empty_space g destination s
      in if r < 0 then ((-1, destination), s)
         else clone_pages source [0..<as_page_count source] destination s)"

section \<open>Copying between the kernel and a user program\<close>

text \<open>
  The scan that checks the pages of a range for a permission.  Its next address wraps to 0 after
  the last page of the address space, so it is written as a function that may not return.
\<close>

partial_function (option) range_ok :: "task_address_space \<Rightarrow> u64 \<Rightarrow> u64 \<Rightarrow> u64 \<Rightarrow> bool option" where
  "range_ok space flag address end_address =
     (if address < end_address then
        case find_mapping space address of None \<Rightarrow> Some False
        | Some i \<Rightarrow>
          if pm_flags (as_pages space ! i) AND flag = 0 then Some False
          else range_ok space flag ((address AND NOT (PAGE_SIZE - 1)) + PAGE_SIZE) end_address
      else Some True)"

definition copy_from_user :: "task_address_space option \<Rightarrow> u8 list \<Rightarrow> u64 \<Rightarrow> u64 \<Rightarrow> mem_state \<Rightarrow> (int \<times> u8 list) option" where
  "copy_from_user current_space destination source len s =
     (if len = 0 then Some (0, destination)
      else case current_space of None \<Rightarrow> Some (-1, destination)
        | Some space \<Rightarrow>
          if source + len < source then Some (-1, destination)
          else do { ok \<leftarrow> range_ok space PTE_R source (source + len);
                    Some (if \<not> ok then (-1, destination) else copy_from_space space destination source len s) })"

definition copy_to_user :: "task_address_space option \<Rightarrow> u64 \<Rightarrow> u8 list \<Rightarrow> u64 \<Rightarrow> mem_state \<Rightarrow> (int \<times> mem_state) option" where
  "copy_to_user current_space destination source len s =
     (if len = 0 then Some (0, s)
      else case current_space of None \<Rightarrow> Some (-1, s)
        | Some space \<Rightarrow>
          if destination + len < destination then Some (-1, s)
          else do { ok \<leftarrow> range_ok space PTE_W destination (destination + len);
                    Some (if \<not> ok then (-1, s) else copy_to_space space destination source len s) })"

primrec copy_string_loop ::
  "task_address_space option \<Rightarrow> u64 \<Rightarrow> nat list \<Rightarrow> u8 list \<Rightarrow> mem_state \<Rightarrow> (int option \<times> u8 list) option" where
  "copy_string_loop current_space source [] destination s = Some (None, destination)"
| "copy_string_loop current_space source (i # is) destination s =
     do { (r, byte) \<leftarrow> copy_from_user current_space [destination ! i] (source + of_nat i) 1 s;
          let destination = destination[i := byte ! 0]
          in if r < 0 then Some (Some (-1), destination)
             else if destination ! i = 0 then Some (Some (int i), destination)
             else copy_string_loop current_space source is destination s }"

definition copy_string_from_user ::
  "task_address_space option \<Rightarrow> u8 list \<Rightarrow> u64 \<Rightarrow> nat \<Rightarrow> mem_state \<Rightarrow> (int \<times> u8 list) option" where
  "copy_string_from_user current_space destination source capacity s =
     (if capacity = 0 then Some (-1, destination)
      else do { (r, destination) \<leftarrow> copy_string_loop current_space source [0..<capacity] destination s;
                Some (case r of Some r \<Rightarrow> (r, destination) | None \<Rightarrow> (-1, destination[capacity - 1 := 0])) })"

end
