(* ===== verification/Os_Printk.thy ===== *)
theory Os_Printk
  imports Prelude
begin

text \<open>
  Formatted output of the kernel (\<^verbatim>\<open>kernel/printk.c\<close>).  The functions return the bytes they send to
  the UART.  A format string is a byte list without its NUL; the variable arguments are a list, a
  number being the 64-bit register or stack slot it is passed in.  None stands for undefined
  behaviour: a missing or ill-typed argument, reading past the end of the format, negating the least
  integer.
\<close>

type_synonym chars = "u8 list"

datatype varg = VStr "chars option" | VNum u64

section \<open>Numbers\<close>

definition hex_digit :: "nat \<Rightarrow> u8" where
  "hex_digit d = (if d < 10 then of_nat (48 + d) else of_nat (87 + d))"

primrec hex_loop :: "u64 \<Rightarrow> nat list \<Rightarrow> bool \<Rightarrow> chars" where
  "hex_loop val [] leading = []"
| "hex_loop val (i # is) leading =
     (let c = hex_digit (unat (drop_bit (4 * i) val AND 0xf));
          leading = (leading \<and> c = 48)
      in (if \<not> leading \<or> i = 0 then [c] else []) @ hex_loop val is leading)"

definition print_hex :: "u64 \<Rightarrow> chars" where
  "print_hex val = [48, 120] @ hex_loop val (rev [0..<16]) True"

text \<open>The subtraction loop of one digit; the table of powers has no zero.\<close>

function dec_digit :: "nat \<Rightarrow> nat \<Rightarrow> nat \<Rightarrow> nat \<times> nat" where
  "dec_digit val p digit = (if p \<le> val \<and> 0 < p then dec_digit (val - p) p (Suc digit) else (val, digit))"
  by auto
termination
  by (relation "measure (\<lambda>(val, p, digit). val)") auto

declare dec_digit.simps [simp del]

definition powers :: "nat list" where
  "powers = [1000000000, 100000000, 10000000, 1000000, 100000, 10000, 1000, 100, 10, 1]"

primrec dec_loop :: "nat list \<Rightarrow> nat \<Rightarrow> bool \<Rightarrow> chars" where
  "dec_loop [] val started = []"
| "dec_loop (p # ps) val started =
     (let (val, digit) = dec_digit val p 0
      in if digit \<noteq> 0 \<or> started \<or> p = 1 then of_nat (48 + digit) # dec_loop ps val True
         else dec_loop ps val started)"

definition print_dec :: "u32 \<Rightarrow> chars" where
  "print_dec val = dec_loop powers (unat val) False"

section \<open>printk\<close>

text \<open>One conversion: what it prints and the arguments that remain.\<close>

definition print_signed :: "int \<Rightarrow> int \<Rightarrow> chars option" where
  "print_signed least d =
     (if d < 0 then (if d = least then None else Some (45 # print_dec (of_int (- d))))
      else Some (print_dec (of_int d)))"

definition null_text :: chars where
  "null_text = [40, 110, 117, 108, 108, 41]"

definition conversion :: "u8 \<Rightarrow> varg list \<Rightarrow> (chars \<times> varg list) option" where
  "conversion c args =
     (if c = 115 then
        (case args of VStr s # args \<Rightarrow> Some (case s of Some s \<Rightarrow> s | None \<Rightarrow> null_text, args) | _ \<Rightarrow> None)
      else if c = 100 then
        (case args of VNum v # args \<Rightarrow>
           map_option (\<lambda>t. (t, args)) (print_signed (- (2 ^ 31)) (sint (ucast v :: u32))) | _ \<Rightarrow> None)
      else if c = 117 then
        (case args of VNum v # args \<Rightarrow> Some (print_dec (ucast v), args) | _ \<Rightarrow> None)
      else if c = 120 then
        (case args of VNum v # args \<Rightarrow> Some (print_hex (ucast (ucast v :: u32)), args) | _ \<Rightarrow> None)
      else if c = 99 then
        (case args of VNum v # args \<Rightarrow> Some ([ucast v], args) | _ \<Rightarrow> None)
      else if c = 37 then Some ([37], args)
      else Some ([37, c], args))"

definition long_conversion :: "u8 \<Rightarrow> varg list \<Rightarrow> (chars \<times> varg list) option" where
  "long_conversion c args =
     (if c = 120 then (case args of VNum v # args \<Rightarrow> Some (print_hex v, args) | _ \<Rightarrow> None)
      else if c = 100 then
        (case args of VNum v # args \<Rightarrow> map_option (\<lambda>t. (t, args)) (print_signed (- (2 ^ 63)) (sint v)) | _ \<Rightarrow> None)
      else Some ([], args))"

fun printk :: "chars \<Rightarrow> varg list \<Rightarrow> chars option" where
  "printk [] args = Some []"
| "printk (c # fmt) args =
     (if c \<noteq> 37 then map_option (\<lambda>t. c # t) (printk fmt args)
      else case fmt of
        [] \<Rightarrow> None
      | d # fmt \<Rightarrow>
        if d = 108 then
          (case fmt of [] \<Rightarrow> None
           | e # fmt \<Rightarrow>
             (case long_conversion e args of None \<Rightarrow> None
              | Some (t, args) \<Rightarrow> map_option (\<lambda>u. t @ u) (printk fmt args)))
        else
          (case conversion d args of None \<Rightarrow> None
           | Some (t, args) \<Rightarrow> map_option (\<lambda>u. t @ u) (printk fmt args)))"

section \<open>Positional notation\<close>

text \<open>The usual notation of a number in a base, most significant digit first.\<close>

fun digits :: "nat \<Rightarrow> nat \<Rightarrow> chars" where
  "digits b n = (if n < b \<or> b < 2 then [hex_digit n] else digits b (n div b) @ [hex_digit (n mod b)])"

declare digits.simps [simp del]

lemma dec_digit_div: "0 < p \<Longrightarrow> dec_digit val p digit = (val mod p, digit + val div p)"
proof (induction val arbitrary: digit rule: less_induct)
  case (less val)
  show ?case
  proof (cases "p \<le> val")
    case True
    then have "dec_digit val p digit = ((val - p) mod p, Suc digit + (val - p) div p)"
      using less by (subst dec_digit.simps) simp
    then show ?thesis using True less.prems by (simp add: le_mod_geq le_div_geq)
  qed (subst dec_digit.simps, simp)
qed

text \<open>All the digits below the leading one, with leading zeros.\<close>

primrec padded :: "nat \<Rightarrow> nat \<Rightarrow> nat \<Rightarrow> chars" where
  "padded b 0 n = []"
| "padded b (Suc k) n = hex_digit (n div b ^ k) # padded b k (n mod b ^ k)"

lemma padded_snoc: "2 \<le> b \<Longrightarrow> padded b (Suc k) n = padded b k (n div b) @ [hex_digit (n mod b)]" if "n < b ^ Suc k"
  using that
proof (induction k arbitrary: n)
  case (Suc k)
  have "n mod b ^ Suc k < b ^ Suc k" using Suc.prems(1) by simp
  note IH = Suc.IH [OF Suc.prems(1) this]
  have "n mod b ^ Suc k div b = n div b mod b ^ k" "n mod b ^ Suc k mod b = n mod b"
    "n div b ^ Suc k = n div b div b ^ k"
    using mod_mult2_eq [of n b "b ^ k"] Suc.prems(1) by (simp_all add: div_mult2_eq mod_mod_cancel)
  then show ?case using IH by simp
qed simp

lemma digits_padded:
  assumes "2 \<le> b" "b ^ k \<le> n" "n < b ^ Suc k" shows "digits b n = padded b (Suc k) n"
  using assms
proof (induction k arbitrary: n)
  case 0
  then show ?case by (simp add: digits.simps)
next
  case (Suc k)
  have "b * 1 \<le> b * b ^ k" using Suc.prems(1) by (intro mult_le_mono2) simp
  then have "b \<le> n" using Suc.prems(2) unfolding power_Suc by linarith
  then have "digits b n = digits b (n div b) @ [hex_digit (n mod b)]" using Suc.prems(1) by (subst digits.simps) simp
  moreover have "digits b (n div b) = padded b (Suc k) (n div b)"
    using Suc.IH [of "n div b"] Suc.prems by (simp add: less_eq_div_iff_mult_less_eq div_less_iff_less_mult mult.commute)
  ultimately show ?case using padded_snoc [OF Suc.prems(3,1)] by simp
qed

text \<open>The two printing loops, once a digit has been printed and before.\<close>

lemma dec_loop_started:
  "val < 10 ^ k \<Longrightarrow> dec_loop (map (\<lambda>i. 10 ^ i) (rev [0..<k])) val True = padded 10 k val"
  by (induction k arbitrary: val) (simp_all add: dec_digit_div hex_digit_def div_less_iff_less_mult)

lemma dec_loop_digits:
  "val < 10 ^ Suc k \<Longrightarrow> dec_loop (map (\<lambda>i. 10 ^ i) (rev [0..<Suc k])) val False = digits 10 val"
proof (induction k arbitrary: val)
  case 0
  then show ?case by (simp add: dec_digit_div digits.simps hex_digit_def)
next
  case (Suc k)
  show ?case
  proof (cases "10 ^ Suc k \<le> val")
    case True
    then have d: "val div 10 ^ Suc k \<noteq> 0" "val div 10 ^ Suc k < 10" using Suc.prems by (simp_all add: div_less_iff_less_mult div_eq_0_iff)
    have "val mod 10 ^ Suc k < 10 ^ Suc k" by simp
    from dec_loop_started [OF this] show ?thesis
      using d digits_padded [of 10 "Suc k" val] True Suc.prems by (simp add: dec_digit_div hex_digit_def del: power_Suc)
  next
    case False
    then show ?thesis using Suc.IH [of val] by (simp add: dec_digit_div del: power_Suc)
  qed
qed

lemma hex_nibble: "unat (drop_bit (4 * i) val AND 0xf) = unat val div 16 ^ i mod 16" for val :: u64
proof -
  have m: "(0xf :: u64) = mask 4" by (simp add: mask_eq_exp_minus_1)
  have p: "(2 :: nat) ^ (4 * i) = 16 ^ i" by (simp add: power_mult)
  show ?thesis unfolding m take_bit_eq_mask [symmetric] unsigned_take_bit_eq unat_drop_bit_eq
    by (simp add: take_bit_eq_mod drop_bit_eq_div p)
qed

lemma unat_hex_digit: "d < 16 \<Longrightarrow> unat (hex_digit d) = (if d < 10 then 48 + d else 87 + d)"
proof -
  assume d: "d < 16"
  have n: "unat (of_nat x :: u8) = x" if "x < 256" for x using that by (simp add: unsigned_of_nat take_bit_nat_eq_self)
  show ?thesis unfolding hex_digit_def if_distrib [of unat] using d by (subst n, simp)+ simp
qed

lemma hex_digit_zero: "d < 16 \<Longrightarrow> hex_digit d = 48 \<longleftrightarrow> d = 0"
proof -
  assume "d < 16"
  then have "unat (hex_digit d) = 48 \<longleftrightarrow> d = 0" by (auto simp: unat_hex_digit)
  moreover have "hex_digit d = 48 \<longleftrightarrow> unat (hex_digit d) = unat (48 :: u8)" by (simp only: word_unat_eq_iff)
  ultimately show ?thesis by simp
qed

lemma hex_loop_started: "hex_loop val (rev [0..<k]) False = padded 16 k (unat val mod 16 ^ k)"
proof (induction k)
  case (Suc k)
  have "unat val mod 16 ^ Suc k div 16 ^ k = unat val div 16 ^ k mod 16" "unat val mod 16 ^ Suc k mod 16 ^ k = unat val mod 16 ^ k"
    using mod_mult2_eq [of "unat val" "16 ^ k" 16] by (simp_all add: mult.commute mod_mod_cancel)
  then show ?case using Suc by (simp add: hex_nibble)
qed simp

lemma hex_loop_digits: "unat val < 16 ^ Suc k \<Longrightarrow> hex_loop val (rev [0..<Suc k]) True = digits 16 (unat val)"
proof (induction k)
  case 0
  then show ?case using hex_nibble [of 0 val] by (simp add: digits.simps)
next
  case (Suc k)
  have e: "rev [0..<Suc (Suc k)] = Suc k # rev [0..<Suc k]" by simp
  define d where "d = unat val div 16 ^ Suc k"
  have d: "d < 16" "d mod 16 = d" using Suc.prems by (simp_all add: d_def div_less_iff_less_mult)
  have step: "hex_loop val (rev [0..<Suc (Suc k)]) True =
      (if d \<noteq> 0 then [hex_digit d] else []) @ hex_loop val (rev [0..<Suc k]) (d = 0)"
    unfolding e hex_loop.simps Let_def hex_nibble d_def [symmetric] d(2) using hex_digit_zero [OF d(1)] by simp
  show ?case
  proof (cases "16 ^ Suc k \<le> unat val")
    case True
    then have "d \<noteq> 0" by (simp add: d_def div_eq_0_iff del: power_Suc)
    then show ?thesis
      unfolding step using digits_padded [of 16 "Suc k" "unat val"] True Suc.prems hex_loop_started [of val "Suc k"]
      by (simp add: d_def del: power_Suc upt_Suc padded.simps) (simp add: padded.simps(2) [of _ "Suc k"] del: power_Suc upt_Suc padded.simps)
  next
    case False
    then have "d = 0" by (simp add: d_def)
    then show ?thesis unfolding step using Suc.IH False by (simp del: power_Suc upt_Suc)
  qed
qed

lemma print_dec_digits: "print_dec v = digits 10 (unat v)"
proof -
  have "powers = map (\<lambda>i. 10 ^ i) (rev [0..<Suc 9])" by (simp add: powers_def upt_rec)
  moreover have "unat v < 10 ^ Suc 9" by (rule order.strict_trans [OF unsigned_less]) simp
  ultimately show ?thesis unfolding print_dec_def by (metis dec_loop_digits)
qed

lemma print_hex_digits: "print_hex w = [48, 120] @ digits 16 (unat w)"
proof -
  have "unat w < 16 ^ Suc 15" by (rule order.strict_trans2 [OF unsigned_less]) simp
  moreover have "rev [0..<16] = rev [0..<Suc 15]" by simp
  ultimately show ?thesis unfolding print_hex_def by (metis hex_loop_digits)
qed

text \<open>
  C21. The kernel prints numbers correctly: \<open>print_dec\<close>, which subtracts powers of ten, prints the decimal
  notation of every 32-bit value, and \<open>print_hex\<close> prints \<^verbatim>\<open>0x\<close> and the hexadecimal notation of every
  64-bit value, without leading zeros.
\<close>

theorem print_numbers: "print_dec v = digits 10 (unat v) \<and> print_hex w = [48, 120] @ digits 16 (unat w)"
  using print_dec_digits print_hex_digits by simp

end
