(* ===== verification/Fs_Dir.thy ===== *)
theory Fs_Dir
  imports Fs_Disk
begin

text \<open>
  Directories and paths of MiniFS (\<^verbatim>\<open>kernel/minifs.c\<close>, lines 267-444).  A C string is the list of its
  bytes before the terminator; a string pointer that may be null is an option.
\<close>

type_synonym cstr = "u8 list"

abbreviation (input) MINIFS_ROOT_INODE :: u32 where "MINIFS_ROOT_INODE \<equiv> 0"
abbreviation (input) MINIFS_PATH_MAX :: nat where "MINIFS_PATH_MAX \<equiv> 256"
abbreviation (input) MINIFS_NAME_MAX :: nat where "MINIFS_NAME_MAX \<equiv> 55"
abbreviation (input) MINIFS_MODE_FILE :: u32 where "MINIFS_MODE_FILE \<equiv> 1"
abbreviation (input) MINIFS_MODE_DIR :: u32 where "MINIFS_MODE_DIR \<equiv> 2"
abbreviation (input) slash :: u8 where "slash \<equiv> 47"
abbreviation (input) dot :: u8 where "dot \<equiv> 46"
abbreviation (input) NO_ENTRY :: u32 where "NO_ENTRY \<equiv> 0xffffffff"

record minifs_dirent =
  de_inode :: u32
  de_mode :: u32
  de_name :: "u8 list"

text \<open>The string in a character array, up to its terminator.\<close>

definition cstr_of :: "u8 list \<Rightarrow> cstr" where
  "cstr_of bs = takeWhile (\<lambda>c. c \<noteq> 0) bs"

definition dirent_of :: "u8 list \<Rightarrow> nat \<Rightarrow> minifs_dirent" where
  "dirent_of buf k = \<lparr>de_inode = get32 buf (64 * k), de_mode = get32 buf (64 * k + 4), de_name = bytes_at buf (64 * k + 8) 56\<rparr>"

definition dirent_bytes :: "u32 \<Rightarrow> u32 \<Rightarrow> cstr \<Rightarrow> u8 list" where
  "dirent_bytes child mode name = enc32 child @ enc32 mode @ name @ replicate (56 - length name) 0"

definition is_kind :: "minifs_inode \<Rightarrow> u32 \<Rightarrow> bool" where
  "is_kind inode kind \<longleftrightarrow> i_mode inode AND 0xff = kind"

definition entry_count :: "minifs_inode \<Rightarrow> nat" where
  "entry_count inode = unat (i_size inode) div 64"

section \<open>Directories\<close>

text \<open>The block of entry \<open>i\<close> read into the buffer, the first lines of every directory loop.\<close>

definition read_entry :: "fs \<Rightarrow> minifs_inode \<Rightarrow> nat \<Rightarrow> u32 option \<times> fs" where
  "read_entry s inode i =
     (let (block, s) = inode_block s inode (i div 8)
      in if block = 0 then (None, s)
         else let (r, s) = bread s block in if r < 0 then (None, s) else (Some block, s))"

primrec lookup_loop :: "minifs_inode \<Rightarrow> cstr \<Rightarrow> nat list \<Rightarrow> fs \<Rightarrow> (int \<times> minifs_dirent option) \<times> fs" where
  "lookup_loop inode name [] s = ((-1, None), s)"
| "lookup_loop inode name (i # is) s =
     (let (block, s) = read_entry s inode i
      in if block = None then ((-1, None), s)
         else let entry = dirent_of (block_buffer s) (i mod 8)
           in if de_inode entry \<noteq> NO_ENTRY \<and> cstr_of (de_name entry) = name
              then ((sint (de_inode entry), Some entry), s)
              else lookup_loop inode name is s)"

definition dir_lookup :: "fs \<Rightarrow> u32 \<Rightarrow> cstr \<Rightarrow> (int \<times> minifs_dirent option) \<times> fs" where
  "dir_lookup s directory name =
     (let ((r, inode), s) = read_inode s directory
      in if r < 0 \<or> \<not> is_kind inode MINIFS_MODE_DIR then ((-1, None), s)
         else lookup_loop inode name [0..<entry_count inode] s)"

text \<open>The search for a free entry: None is the error return, the second argument the fallback index.\<close>

primrec free_entry_loop :: "minifs_inode \<Rightarrow> nat \<Rightarrow> nat list \<Rightarrow> fs \<Rightarrow> nat option \<times> fs" where
  "free_entry_loop inode count [] s = (Some count, s)"
| "free_entry_loop inode count (i # is) s =
     (let (block, s) = read_entry s inode i
      in if block = None then (None, s)
         else if de_inode (dirent_of (block_buffer s) (i mod 8)) = NO_ENTRY then (Some i, s)
         else free_entry_loop inode count is s)"

definition put_entry :: "fs \<Rightarrow> u32 \<Rightarrow> minifs_inode \<Rightarrow> nat \<Rightarrow> u32 \<Rightarrow> u32 \<Rightarrow> cstr \<Rightarrow> int \<times> fs" where
  "put_entry s directory inode index child mode name =
     (let count = entry_count inode;
          ((block, inode), s) = ensure_inode_block s inode (index div 8)
      in if block < 0 then (-1, s)
         else let (r, s) = bread s (of_int block)
           in if r < 0 then (-1, s)
              else let s = s\<lparr>block_buffer := copy_bytes (block_buffer s) (64 * (index mod 8)) (dirent_bytes child mode name)\<rparr>;
                       (r, s) = bwrite s (of_int block)
                in if r < 0 then (-1, s)
                   else let inode = (if index = count then inode\<lparr>i_size := i_size inode + 64\<rparr> else inode)
                     in write_inode s directory inode)"

definition dir_add :: "fs \<Rightarrow> u32 \<Rightarrow> cstr \<Rightarrow> u32 \<Rightarrow> u32 \<Rightarrow> int \<times> fs" where
  "dir_add s directory name child mode =
     (let ((found, _), s) = dir_lookup s directory name
      in if found \<ge> 0 then (-1, s)
         else if length name \<le> 0 \<or> length name > MINIFS_NAME_MAX then (-1, s)
         else let ((r, inode), s) = read_inode s directory
           in if r < 0 \<or> \<not> is_kind inode MINIFS_MODE_DIR then (-1, s)
              else let count = entry_count inode;
                       (index, s) = free_entry_loop inode count [0..<count] s
                in case index of None \<Rightarrow> (-1, s)
                   | Some index \<Rightarrow> put_entry s directory inode index child mode name)"

primrec remove_loop :: "minifs_inode \<Rightarrow> cstr \<Rightarrow> nat list \<Rightarrow> fs \<Rightarrow> int \<times> fs" where
  "remove_loop inode name [] s = (-1, s)"
| "remove_loop inode name (i # is) s =
     (let (block, s) = read_entry s inode i
      in case block of None \<Rightarrow> (-1, s)
         | Some block \<Rightarrow>
           let entry = dirent_of (block_buffer s) (i mod 8)
           in if de_inode entry \<noteq> NO_ENTRY \<and> cstr_of (de_name entry) = name
              then bwrite (s\<lparr>block_buffer := copy_bytes (block_buffer s) (64 * (i mod 8)) (enc32 NO_ENTRY)\<rparr>) block
              else remove_loop inode name is s)"

definition dir_remove :: "fs \<Rightarrow> u32 \<Rightarrow> cstr \<Rightarrow> int \<times> fs" where
  "dir_remove s directory name =
     (let ((r, inode), s) = read_inode s directory
      in if r < 0 then (-1, s) else remove_loop inode name [0..<entry_count inode] s)"

section \<open>Paths\<close>

fun skip_slashes :: "cstr \<Rightarrow> cstr" where
  "skip_slashes [] = []"
| "skip_slashes (c # p) = (if c = slash then skip_slashes p else c # p)"

fun take_component :: "cstr \<Rightarrow> cstr \<Rightarrow> (cstr \<times> cstr) option" where
  "take_component [] acc = Some ([], acc)"
| "take_component (c # p) acc =
     (if c = slash then Some (c # p, acc)
      else if length acc \<ge> MINIFS_NAME_MAX then None
      else take_component p (acc @ [c]))"

text \<open>Status, the cursor after the call and the component.\<close>

definition next_component :: "cstr \<Rightarrow> int \<times> cstr \<times> cstr" where
  "next_component path =
     (let p = skip_slashes path
      in if p = [] then (0, p, [])
         else case take_component p [] of None \<Rightarrow> (-1, path, [])
           | Some (rest, component) \<Rightarrow> (1, rest, component))"

lemma length_skip_slashes: "length (skip_slashes p) \<le> length p"
  by (induction p rule: skip_slashes.induct) auto

lemma skip_slashes_head: "skip_slashes p = c # q \<Longrightarrow> c \<noteq> slash"
  by (induction p rule: skip_slashes.induct) (auto split: if_splits)

lemma length_take_component: "take_component p acc = Some (rest, c) \<Longrightarrow> length rest \<le> length p"
  by (induction p acc rule: take_component.induct) (auto split: if_splits)

lemma next_component_shorter:
  assumes "next_component path = (1, rest, c)"
  shows "length rest < length path"
proof -
  obtain p0 ps where p: "skip_slashes path = p0 # ps" "take_component (p0 # ps) [] = Some (rest, c)"
    using assms by (auto simp: next_component_def Let_def neq_Nil_conv split: if_splits option.splits)
  then have "take_component ps [p0] = Some (rest, c)" using skip_slashes_head by (auto split: if_splits)
  then show ?thesis using length_take_component [of ps "[p0]" rest c] length_skip_slashes [of path] p(1) by simp
qed

lemma next_component_decr:
  "(status, rest, c) = next_component cursor \<Longrightarrow> \<not> status < 0 \<Longrightarrow> status \<noteq> 0 \<Longrightarrow> length rest < length cursor"
  using next_component_shorter [of cursor rest c]
  by (auto simp: next_component_def Let_def split: if_splits option.splits)

function resolve_loop :: "fs \<Rightarrow> u32 \<Rightarrow> cstr \<Rightarrow> int \<times> fs" where
  "resolve_loop s current cursor =
     (let (status, rest, component) = next_component cursor
      in if status < 0 then (-1, s)
         else if status = 0 then (sint current, s)
         else if component = [dot] then resolve_loop s current rest
         else if component = [dot, dot] then
           let ((r, inode), s) = read_inode s current
           in if r < 0 then (-1, s) else resolve_loop s (i_parent inode) rest
         else let ((child, _), s) = dir_lookup s current component
           in if child < 0 then (-1, s) else resolve_loop s (of_int child) rest)"
  by auto

termination
  by (relation "measure (\<lambda>(s, current, cursor). length cursor)") (auto dest: next_component_decr)

declare resolve_loop.simps [simp del]

definition resolve :: "fs \<Rightarrow> u32 \<Rightarrow> cstr option \<Rightarrow> int \<times> fs" where
  "resolve s cwd path =
     (case path of None \<Rightarrow> (-1, s)
      | Some path \<Rightarrow>
        if path = [] \<or> length path \<ge> MINIFS_PATH_MAX then (-1, s)
        else resolve_loop s (if hd path = slash then MINIFS_ROOT_INODE else cwd) path)"

text \<open>\<^verbatim>\<open>while (length > 1 && path[length - 1] == '/') length--\<close>, on the prefix still considered.\<close>

function strip_slashes :: "cstr \<Rightarrow> cstr" where
  "strip_slashes p = (if length p > 1 \<and> last p = slash then strip_slashes (butlast p) else p)"
  by auto
termination
  by (relation "measure length") auto

declare strip_slashes.simps [simp del]

text \<open>The last position of a slash, -1 when there is none.\<close>

definition last_slash :: "cstr \<Rightarrow> int" where
  "last_slash p = fold (\<lambda>i slash_at. if p ! i = slash then int i else slash_at) [0..<length p] (-1)"

definition resolve_parent :: "fs \<Rightarrow> u32 \<Rightarrow> cstr option \<Rightarrow> (int \<times> cstr) \<times> fs" where
  "resolve_parent s cwd path =
     (let p = (case path of None \<Rightarrow> [] | Some p \<Rightarrow> p)
      in if length p \<le> 0 \<or> length p \<ge> MINIFS_PATH_MAX then ((-1, []), s)
         else let q = strip_slashes p;
                  sl = last_slash q;
                  name = drop (nat (sl + 1)) q
           in if length name \<le> 0 \<or> length name > MINIFS_NAME_MAX then ((-1, []), s)
              else if name = [dot] \<or> name = [dot, dot] then ((-1, name), s)
              else if sl < 0 then ((sint cwd, name), s)
              else if sl = 0 then ((sint MINIFS_ROOT_INODE, name), s)
              else let (r, s) = resolve s cwd (Some (take (nat sl) p)) in ((r, name), s))"

definition create_node :: "fs \<Rightarrow> u32 \<Rightarrow> cstr \<Rightarrow> u32 \<Rightarrow> int \<times> fs" where
  "create_node s parent name mode =
     (let (number, s) = alloc_inode s
      in if number < 0 then (-1, s)
         else let inode = zero_inode\<lparr>i_mode := mode, i_parent := parent, i_links := 1\<rparr>;
                  (r, s) = write_inode s (of_int number) inode
           in if r < 0 then (-1, free_inode_number s (of_int number))
              else let (r, s) = dir_add s parent name (of_int number) mode
                in if r < 0 then (-1, free_inode_number s (of_int number))
                   else (number, s))"

end
