(* ===== verification/Fs_Fd.thy ===== *)
theory Fs_Fd
  imports Fs_Disk
begin

text \<open>
  Open files and descriptors (\<^verbatim>\<open>kernel/minifs.c\<close>, lines 446-600, 641-650 and 788-801): the table of open
  file descriptions with reference counts, and a descriptor table per process.  A pointer into
  a table is an index, NULL is None.
\<close>

abbreviation (input) OFD_CONSOLE_IN :: int where "OFD_CONSOLE_IN \<equiv> 1"
abbreviation (input) OFD_CONSOLE_OUT :: int where "OFD_CONSOLE_OUT \<equiv> 2"
abbreviation (input) OFD_FILE :: int where "OFD_FILE \<equiv> 3"
abbreviation (input) MINIFS_MAX_FD :: nat where "MINIFS_MAX_FD \<equiv> 16"
abbreviation (input) MINIFS_O_RDONLY :: int where "MINIFS_O_RDONLY \<equiv> 0"
abbreviation (input) MINIFS_O_WRONLY :: int where "MINIFS_O_WRONLY \<equiv> 1"
abbreviation (input) MINIFS_O_CREATE :: int where "MINIFS_O_CREATE \<equiv> 0x40"
abbreviation (input) MINIFS_O_TRUNC :: int where "MINIFS_O_TRUNC \<equiv> 0x200"
abbreviation (input) MINIFS_O_APPEND :: int where "MINIFS_O_APPEND \<equiv> 0x400"

section \<open>Tables\<close>

definition set_ofd :: "fs \<Rightarrow> nat \<Rightarrow> (open_file \<Rightarrow> open_file) \<Rightarrow> fs" where
  "set_ofd s i f = s\<lparr>open_files := (open_files s)[i := f (open_files s ! i)]\<rparr>"

definition set_proc :: "fs \<Rightarrow> nat \<Rightarrow> (process_fds \<Rightarrow> process_fds) \<Rightarrow> fs" where
  "set_proc s p f = s\<lparr>fd_tables := (fd_tables s)[p := f (fd_tables s ! p)]\<rparr>"

definition fd_of :: "fs \<Rightarrow> nat \<Rightarrow> nat \<Rightarrow> int" where
  "fd_of s p fd = pf_fd (fd_tables s ! p) ! fd"

definition set_fd :: "fs \<Rightarrow> nat \<Rightarrow> nat \<Rightarrow> int \<Rightarrow> fs" where
  "set_fd s p fd v = set_proc s p (\<lambda>t. t\<lparr>pf_fd := (pf_fd t)[fd := v]\<rparr>)"

text \<open>\<^verbatim>\<open>cloexec |= 1U << fd\<close> and \<^verbatim>\<open>cloexec &= ~(1U << fd)\<close>.\<close>

definition mark_cloexec :: "fs \<Rightarrow> nat \<Rightarrow> nat \<Rightarrow> fs" where
  "mark_cloexec s p fd = set_proc s p (\<lambda>t. t\<lparr>pf_cloexec := pf_cloexec t OR push_bit fd 1\<rparr>)"

definition clear_cloexec :: "fs \<Rightarrow> nat \<Rightarrow> nat \<Rightarrow> fs" where
  "clear_cloexec s p fd = set_proc s p (\<lambda>t. t\<lparr>pf_cloexec := pf_cloexec t AND NOT (push_bit fd 1)\<rparr>)"

definition find_process :: "fs \<Rightarrow> int \<Rightarrow> nat option" where
  "find_process s pid = first_index (\<lambda>i. pf_used (fd_tables s ! i) \<and> pf_pid (fd_tables s ! i) = pid) MINIFS_MAX_PROCESSES"

definition alloc_ofd :: "fs \<Rightarrow> int \<Rightarrow> int \<Rightarrow> u32 \<Rightarrow> int \<times> fs" where
  "alloc_ofd s type flags inode =
     (case first_index (\<lambda>i. \<not> of_used (open_files s ! i)) MINIFS_MAX_OPEN_FILES of
        None \<Rightarrow> (-1, s)
      | Some i \<Rightarrow> (int i, set_ofd s i (\<lambda>_. \<lparr>of_used = True, of_refs = 1, of_type = type, of_flags = flags,
                                         of_inode = inode, of_offset = 0\<rparr>)))"

definition put_ofd :: "fs \<Rightarrow> int \<Rightarrow> fs" where
  "put_ofd s index =
     (if index < 0 \<or> index \<ge> int MINIFS_MAX_OPEN_FILES \<or> \<not> of_used (open_files s ! nat index) then s
      else let s = set_ofd s (nat index) (\<lambda>f. f\<lparr>of_refs := of_refs f - 1\<rparr>)
        in if of_refs (open_files s ! nat index) = 0 then set_ofd s (nat index) (\<lambda>f. f\<lparr>of_used := False\<rparr>) else s)"

definition get_ofd :: "fs \<Rightarrow> int \<Rightarrow> fs" where
  "get_ofd s index = set_ofd s (nat index) (\<lambda>f. f\<lparr>of_refs := of_refs f + 1\<rparr>)"

definition install_fd :: "fs \<Rightarrow> nat \<Rightarrow> int \<Rightarrow> int \<times> fs" where
  "install_fd s p ofd =
     (case first_index (\<lambda>fd. fd_of s p fd < 0) MINIFS_MAX_FD of
        None \<Rightarrow> (-1, s)
      | Some fd \<Rightarrow> (int fd, clear_cloexec (set_fd s p fd ofd) p fd))"

definition get_open_file :: "fs \<Rightarrow> int \<Rightarrow> int \<Rightarrow> nat option" where
  "get_open_file s pid fd =
     (case find_process s pid of None \<Rightarrow> None
      | Some p \<Rightarrow>
        if fd < 0 \<or> fd \<ge> int MINIFS_MAX_FD then None
        else let index = fd_of s p (nat fd)
          in if index < 0 \<or> index \<ge> int MINIFS_MAX_OPEN_FILES \<or> \<not> of_used (open_files s ! nat index) then None
             else Some (nat index))"

section \<open>Operations\<close>

definition minifs_process_init :: "fs \<Rightarrow> int \<Rightarrow> int \<times> fs" where
  "minifs_process_init s pid =
     (if find_process s pid \<noteq> None then (0, s)
      else case first_index (\<lambda>i. \<not> pf_used (fd_tables s ! i)) MINIFS_MAX_PROCESSES of
          None \<Rightarrow> (-1, s)
        | Some p \<Rightarrow>
          let s = set_proc s p (\<lambda>t. t\<lparr>pf_used := True, pf_pid := pid, pf_cloexec := 0,
                                      pf_fd := replicate MINIFS_MAX_FD (-1)\<rparr>);
              (input, s) = alloc_ofd s OFD_CONSOLE_IN MINIFS_O_RDONLY 0;
              (output, s) = alloc_ofd s OFD_CONSOLE_OUT MINIFS_O_WRONLY 0;
              (error, s) = alloc_ofd s OFD_CONSOLE_OUT MINIFS_O_WRONLY 0
          in if input < 0 \<or> output < 0 \<or> error < 0
             then (-1, set_proc (put_ofd (put_ofd (put_ofd s input) output) error) p (\<lambda>t. t\<lparr>pf_used := False\<rparr>))
             else (0, set_fd (set_fd (set_fd s p 0 input) p 1 output) p 2 error))"

definition fork_fd :: "nat \<Rightarrow> nat \<Rightarrow> nat \<Rightarrow> fs \<Rightarrow> fs" where
  "fork_fd parent child fd s =
     (let s = (if fd_of s child fd \<ge> 0 then put_ofd s (fd_of s child fd) else s);
          s = set_fd s child fd (fd_of s parent fd)
      in if fd_of s child fd \<ge> 0 then get_ofd s (fd_of s child fd) else s)"

definition minifs_process_fork :: "fs \<Rightarrow> int \<Rightarrow> int \<Rightarrow> int \<times> fs" where
  "minifs_process_fork s parent_pid child_pid =
     (case find_process s parent_pid of None \<Rightarrow> (-1, s)
      | Some parent \<Rightarrow>
        let (r, s) = minifs_process_init s child_pid
        in if r < 0 then (-1, s)
           else case find_process s child_pid of None \<Rightarrow> (-1, s)
             | Some child \<Rightarrow>
               let s = set_proc s child (\<lambda>t. t\<lparr>pf_cloexec := pf_cloexec (fd_tables s ! parent)\<rparr>)
               in (0, for_each MINIFS_MAX_FD (fork_fd parent child) s))"

definition close_fd :: "nat \<Rightarrow> nat \<Rightarrow> fs \<Rightarrow> fs" where
  "close_fd p fd s = set_fd (if fd_of s p fd \<ge> 0 then put_ofd s (fd_of s p fd) else s) p fd (-1)"

definition minifs_close_all :: "fs \<Rightarrow> int \<Rightarrow> fs" where
  "minifs_close_all s pid =
     (case find_process s pid of None \<Rightarrow> s
      | Some p \<Rightarrow> set_proc (for_each MINIFS_MAX_FD (close_fd p) s) p (\<lambda>t. t\<lparr>pf_cloexec := 0, pf_used := False\<rparr>))"

definition minifs_set_cloexec :: "fs \<Rightarrow> int \<Rightarrow> int \<Rightarrow> bool \<Rightarrow> int \<times> fs" where
  "minifs_set_cloexec s pid fd on =
     (case find_process s pid of None \<Rightarrow> (-1, s)
      | Some p \<Rightarrow>
        if fd < 0 \<or> fd \<ge> int MINIFS_MAX_FD \<or> fd_of s p (nat fd) < 0 then (-1, s)
        else (0, if on then mark_cloexec s p (nat fd) else clear_cloexec s p (nat fd)))"

definition close_exec_fd :: "nat \<Rightarrow> nat \<Rightarrow> fs \<Rightarrow> fs" where
  "close_exec_fd p fd s =
     (if pf_cloexec (fd_tables s ! p) AND push_bit fd 1 \<noteq> 0 then clear_cloexec (close_fd p fd s) p fd else s)"

definition minifs_close_exec_fds :: "fs \<Rightarrow> int \<Rightarrow> fs" where
  "minifs_close_exec_fds s pid =
     (case find_process s pid of None \<Rightarrow> s
      | Some p \<Rightarrow> for_each MINIFS_MAX_FD (close_exec_fd p) s)"

definition minifs_close :: "fs \<Rightarrow> int \<Rightarrow> int \<Rightarrow> int \<times> fs" where
  "minifs_close s pid fd =
     (case find_process s pid of None \<Rightarrow> (-1, s)
      | Some p \<Rightarrow>
        if fd < 0 \<or> fd \<ge> int MINIFS_MAX_FD \<or> fd_of s p (nat fd) < 0 then (-1, s)
        else (0, clear_cloexec (set_fd (put_ofd s (fd_of s p (nat fd))) p (nat fd) (-1)) p (nat fd)))"

definition minifs_dup2 :: "fs \<Rightarrow> int \<Rightarrow> int \<Rightarrow> int \<Rightarrow> int \<times> fs" where
  "minifs_dup2 s pid oldfd newfd =
     (case find_process s pid of None \<Rightarrow> (-1, s)
      | Some p \<Rightarrow>
        if oldfd < 0 \<or> oldfd \<ge> int MINIFS_MAX_FD \<or> newfd < 0 \<or> newfd \<ge> int MINIFS_MAX_FD \<or> fd_of s p (nat oldfd) < 0
        then (-1, s)
        else if oldfd = newfd then (newfd, s)
        else let s = (if fd_of s p (nat newfd) \<ge> 0 then put_ofd s (fd_of s p (nat newfd)) else s);
                 s = set_fd s p (nat newfd) (fd_of s p (nat oldfd));
                 s = get_ofd s (fd_of s p (nat newfd))
          in (newfd, clear_cloexec s p (nat newfd)))"

end
