(* ===== verification/Fs_Calls.thy ===== *)
theory Fs_Calls
  imports Fs_Dir Fs_Fd
begin

text \<open>
  The calls of MiniFS (\<^verbatim>\<open>kernel/minifs.c\<close>, lines 498-513, 602-786 and 803-979).  A buffer that may be null
  is an option; a call that stores into it returns its new contents.  The console is the list
  of bytes \<^verbatim>\<open>uart_getc\<close> will still deliver and the bytes sent with \<^verbatim>\<open>uart_putc\<close>; a read that needs
  more input than will arrive does not return, the value None.
\<close>

abbreviation (input) MINIFS_SEEK_SET :: int where "MINIFS_SEEK_SET \<equiv> 0"
abbreviation (input) MINIFS_SEEK_CUR :: int where "MINIFS_SEEK_CUR \<equiv> 1"
abbreviation (input) MINIFS_SEEK_END :: int where "MINIFS_SEEK_END \<equiv> 2"

record console =
  con_in :: "u8 list"
  con_out :: "u8 list"

section \<open>Start-up\<close>

definition empty_ofd :: open_file where
  "empty_ofd = \<lparr>of_used = False, of_refs = 0, of_type = 0, of_flags = 0, of_inode = 0, of_offset = 0\<rparr>"

definition empty_fds :: process_fds where
  "empty_fds = \<lparr>pf_used = False, pf_pid = 0, pf_fd = replicate MINIFS_MAX_FD 0, pf_cloexec = 0\<rparr>"

definition super_ok :: "u8 list \<Rightarrow> bool" where
  "super_ok buf \<longleftrightarrow> get32 buf 0 = MINIFS_MAGIC \<and> get32 buf 4 = MINIFS_VERSION \<and>
     get32 buf 8 = of_nat MINIFS_BLOCK_COUNT \<and> get32 buf 12 = of_nat MINIFS_MAX_INODES \<and>
     get32 buf 40 = of_nat MINIFS_DATA_START \<and> get32 buf 44 = of_nat MINIFS_MAX_FILE_SIZE"

definition minifs_init :: "fs \<Rightarrow> int \<times> fs" where
  "minifs_init s =
     (let s = s\<lparr>open_files := replicate MINIFS_MAX_OPEN_FILES empty_ofd,
                fd_tables := replicate MINIFS_MAX_PROCESSES empty_fds\<rparr>;
          (r, s) = bread s 0
      in if r < 0 then (-1, s)
         else if \<not> super_ok (block_buffer s) then (-1, s)
         else load_bitmap [0..<MINIFS_DATA_BITMAP_BLOCKS] s)"

section \<open>Reading\<close>

function pread_loop :: "fs \<Rightarrow> minifs_inode \<Rightarrow> nat \<Rightarrow> nat \<Rightarrow> nat \<Rightarrow> u8 list \<Rightarrow> (int \<times> u8 list) \<times> fs" where
  "pread_loop s inode offset dn len buf =
     (if dn < len then
        let logical = offset div 512;
            within = offset mod 512;
            (block, s) = inode_block s inode logical
        in if block = 0 then ((-1, buf), s)
           else let (r, s) = bread s block
             in if r < 0 then ((-1, buf), s)
                else let chunk = min (len - dn) (512 - within)
                  in pread_loop s inode (offset + chunk) (dn + chunk) len
                       (copy_bytes buf dn (bytes_at (block_buffer s) within chunk))
      else ((int dn, buf), s))"
  by auto
termination
  by (relation "measure (\<lambda>(s, inode, offset, dn, len, buf). len - dn)") auto

declare pread_loop.simps [simp del]

definition minifs_pread :: "fs \<Rightarrow> u32 \<Rightarrow> u32 \<Rightarrow> u8 list option \<Rightarrow> u32 \<Rightarrow> (int \<times> u8 list option) \<times> fs" where
  "minifs_pread s inode_number offset buffer len =
     (case buffer of None \<Rightarrow> ((-1, None), s)
      | Some buf \<Rightarrow>
        let ((r, inode), s) = read_inode s inode_number
        in if r < 0 \<or> \<not> is_kind inode MINIFS_MODE_FILE then ((-1, buffer), s)
           else if offset \<ge> i_size inode then ((0, buffer), s)
           else let len = (if len > i_size inode - offset then i_size inode - offset else len);
                    ((r, buf), s) = pread_loop s inode (unat offset) 0 (unat len) buf
             in ((r, Some buf), s))"

text \<open>\<^verbatim>\<open>length > 0xffffffffU ? 0xffffffffU : (uint32_t)length\<close>\<close>

definition clamp32 :: "u64 \<Rightarrow> u32" where
  "clamp32 len = (if len > 0xffffffff then 0xffffffff else ucast len)"

primrec console_read :: "u8 list \<Rightarrow> nat \<Rightarrow> (u8 list \<times> u8 list) option" where
  "console_read [] len = (if len = 0 then Some ([], []) else None)"
| "console_read (c # cs) len =
     (if len = 0 then Some ([], c # cs)
      else if c = 10 then Some ([c], cs)
      else case console_read cs (len - 1) of None \<Rightarrow> None | Some (line, rest) \<Rightarrow> Some (c # line, rest))"

definition minifs_read :: "fs \<Rightarrow> console \<Rightarrow> int \<Rightarrow> int \<Rightarrow> u8 list option \<Rightarrow> u64 \<Rightarrow>
    ((int \<times> u8 list option) \<times> console \<times> fs) option" where
  "minifs_read s con pid fd buffer len =
     (case get_open_file s pid fd of None \<Rightarrow> Some ((-1, buffer), con, s)
      | Some file \<Rightarrow>
        (case buffer of None \<Rightarrow> Some ((-1, None), con, s)
         | Some buf \<Rightarrow>
           let f = open_files s ! file
           in if of_type f = OFD_CONSOLE_IN then
                (case console_read (con_in con) (unat len) of None \<Rightarrow> None
                 | Some (line, rest) \<Rightarrow>
                     Some ((to_i32 (int (length line)), Some (copy_bytes buf 0 line)), con\<lparr>con_in := rest\<rparr>, s))
              else if of_type f \<noteq> OFD_FILE \<or> of_flags f AND 3 = MINIFS_O_WRONLY then Some ((-1, buffer), con, s)
              else let ((result, buffer), s) = minifs_pread s (of_inode f) (of_offset f) buffer (clamp32 len);
                       s = (if result > 0 then set_ofd s file (\<lambda>f. f\<lparr>of_offset := of_offset f + of_int result\<rparr>) else s)
                in Some ((result, buffer), con, s)))"

section \<open>Writing\<close>

text \<open>The loop ends with the inode, the offset and the count, or with the error return (\<open>None\<close>).\<close>

function write_loop :: "fs \<Rightarrow> minifs_inode \<Rightarrow> nat \<Rightarrow> nat \<Rightarrow> nat \<Rightarrow> u8 list \<Rightarrow> (minifs_inode \<times> nat \<times> nat) option \<times> fs" where
  "write_loop s inode offset dn len source =
     (if dn < len then
        let logical = offset div 512;
            within = offset mod 512;
            ((block, inode), s) = ensure_inode_block s inode logical
        in if block < 0 then (Some (inode, offset, dn), s)
           else let (r, s) = bread s (of_int block)
             in if r < 0 then (Some (inode, offset, dn), s)
                else let chunk = min (len - dn) (512 - within);
                         s = s\<lparr>block_buffer := copy_bytes (block_buffer s) within (bytes_at source dn chunk)\<rparr>;
                         (r, s) = bwrite s (of_int block)
                  in if r < 0 then (None, s)
                     else write_loop s inode (offset + chunk) (dn + chunk) len source
      else (Some (inode, offset, dn), s))"
  by auto
termination
  by (relation "measure (\<lambda>(s, inode, offset, dn, len, source). len - dn)") auto

declare write_loop.simps [simp del]

definition write_at :: "fs \<Rightarrow> u32 \<Rightarrow> u32 \<Rightarrow> u8 list \<Rightarrow> u32 \<Rightarrow> int \<times> fs" where
  "write_at s inode_number offset source len =
     (if unat offset \<ge> MINIFS_MAX_FILE_SIZE then (0, s)
      else let len = min (unat len) (MINIFS_MAX_FILE_SIZE - unat offset);
               ((r, inode), s) = read_inode s inode_number
        in if r < 0 \<or> \<not> is_kind inode MINIFS_MODE_FILE then (-1, s)
           else let (res, s) = write_loop s inode (unat offset) 0 len source
             in case res of None \<Rightarrow> (-1, s)
                | Some (inode, offset, dn) \<Rightarrow>
                  let inode = (if offset > unat (i_size inode) then inode\<lparr>i_size := of_nat offset\<rparr> else inode);
                      (r, s) = write_inode s inode_number inode
                  in if r < 0 then (-1, s) else (int dn, s))"

definition minifs_write :: "fs \<Rightarrow> console \<Rightarrow> int \<Rightarrow> int \<Rightarrow> u8 list option \<Rightarrow> u64 \<Rightarrow> int \<times> console \<times> fs" where
  "minifs_write s con pid fd buffer len =
     (case get_open_file s pid fd of None \<Rightarrow> (-1, con, s)
      | Some file \<Rightarrow>
        (case buffer of None \<Rightarrow> (-1, con, s)
         | Some buf \<Rightarrow>
           let f = open_files s ! file
           in if of_type f = OFD_CONSOLE_OUT then
                (to_i32 (uint len), con\<lparr>con_out := con_out con @ take (unat len) buf\<rparr>, s)
              else if of_type f \<noteq> OFD_FILE \<or> of_flags f AND 3 = MINIFS_O_RDONLY then (-1, con, s)
              else let ((r, inode), s) = (if of_flags f AND MINIFS_O_APPEND \<noteq> 0 then read_inode s (of_inode f)
                                          else ((0, zero_inode), s))
                in if r < 0 then (-1, con, s)
                   else let s = (if of_flags f AND MINIFS_O_APPEND \<noteq> 0
                                 then set_ofd s file (\<lambda>f. f\<lparr>of_offset := i_size inode\<rparr>) else s);
                            (result, s) = write_at s (of_inode f) (of_offset (open_files s ! file)) buf (clamp32 len);
                            s = (if result > 0 then set_ofd s file (\<lambda>f. f\<lparr>of_offset := of_offset f + of_int result\<rparr>) else s)
                     in (result, con, s)))"

definition minifs_lseek :: "fs \<Rightarrow> int \<Rightarrow> int \<Rightarrow> int \<Rightarrow> int \<Rightarrow> int \<times> fs" where
  "minifs_lseek s pid fd offset whence =
     (case get_open_file s pid fd of None \<Rightarrow> (-1, s)
      | Some file \<Rightarrow>
        let f = open_files s ! file
        in if of_type f \<noteq> OFD_FILE then (-1, s)
           else let (base, s) =
                  (if whence = MINIFS_SEEK_CUR then (Some (uint (of_offset f)), s)
                   else if whence = MINIFS_SEEK_END then
                     let ((r, inode), s) = read_inode s (of_inode f)
                     in if r < 0 then (None, s) else (Some (uint (i_size inode)), s)
                   else if whence \<noteq> MINIFS_SEEK_SET then (None, s)
                   else (Some 0, s))
             in case base of None \<Rightarrow> (-1, s)
                | Some base \<Rightarrow>
                  let position = base + offset
                  in if position < 0 \<or> position > int MINIFS_MAX_FILE_SIZE then (-1, s)
                     else (position, set_ofd s file (\<lambda>f. f\<lparr>of_offset := of_int position\<rparr>)))"

section \<open>Opening\<close>

text \<open>The inode to open, created if it does not exist and the flags ask for it.\<close>

definition open_number :: "fs \<Rightarrow> u32 \<Rightarrow> cstr option \<Rightarrow> int \<Rightarrow> int \<times> fs" where
  "open_number s cwd path flags =
     (let (number, s) = resolve s cwd path
      in if number < 0 \<and> flags AND MINIFS_O_CREATE \<noteq> 0 then
           let ((parent, name), s) = resolve_parent s cwd path
           in if parent < 0 then (-1, s) else create_node s (of_int parent) name MINIFS_MODE_FILE
         else (number, s))"

definition open_trunc :: "fs \<Rightarrow> u32 \<Rightarrow> minifs_inode \<Rightarrow> int \<Rightarrow> int \<times> minifs_inode \<times> fs" where
  "open_trunc s number inode flags =
     (if flags AND MINIFS_O_TRUNC \<noteq> 0 then
        let (inode, s) = truncate_inode s inode;
            (r, s) = write_inode s number inode
        in (r, inode, s)
      else (0, inode, s))"

definition open_install :: "fs \<Rightarrow> nat \<Rightarrow> u32 \<Rightarrow> minifs_inode \<Rightarrow> int \<Rightarrow> int \<times> fs" where
  "open_install s process number inode flags =
     (let (ofd, s) = alloc_ofd s OFD_FILE flags number
      in if ofd < 0 then (-1, s)
         else let s = (if flags AND MINIFS_O_APPEND \<noteq> 0
                       then set_ofd s (nat ofd) (\<lambda>f. f\<lparr>of_offset := i_size inode\<rparr>) else s);
                  (fd, s) = install_fd s process ofd
           in (fd, if fd < 0 then put_ofd s ofd else s))"

definition flags_ok :: "int \<Rightarrow> bool" where
  "flags_ok flags \<longleftrightarrow>
     (let access = flags AND 3;
          known_flags = 3 OR MINIFS_O_CREATE OR MINIFS_O_TRUNC OR MINIFS_O_APPEND
      in \<not> (access = 3 \<or> flags AND NOT known_flags \<noteq> 0 \<or>
           (access = MINIFS_O_RDONLY \<and> flags AND (MINIFS_O_TRUNC OR MINIFS_O_APPEND) \<noteq> 0)))"

definition minifs_open :: "fs \<Rightarrow> int \<Rightarrow> u32 \<Rightarrow> cstr option \<Rightarrow> int \<Rightarrow> int \<times> fs" where
  "minifs_open s pid cwd path flags =
     (case find_process s pid of None \<Rightarrow> (-1, s)
      | Some process \<Rightarrow>
        if \<not> flags_ok flags then (-1, s)
        else let (number, s) = open_number s cwd path flags
          in if number < 0 then (-1, s)
             else let ((r, inode), s) = read_inode s (of_int number)
               in if r < 0 \<or> \<not> is_kind inode MINIFS_MODE_FILE then (-1, s)
                  else let (r, inode, s) = open_trunc s (of_int number) inode flags
                    in if r < 0 then (-1, s)
                       else open_install s process (of_int number) inode flags)"

section \<open>Directories\<close>

text \<open>The entries a listing stores, and the code it returns.\<close>

primrec getdents_loop :: "minifs_inode \<Rightarrow> int \<Rightarrow> nat list \<Rightarrow> minifs_dirent list \<Rightarrow> fs \<Rightarrow> (int \<times> minifs_dirent list) \<times> fs" where
  "getdents_loop inode capacity [] entries s = ((int (length entries), entries), s)"
| "getdents_loop inode capacity (i # is) entries s =
     (if int (length entries) \<ge> capacity then ((int (length entries), entries), s)
      else let (block, s) = read_entry s inode i
        in if block = None then ((-1, entries), s)
           else let source = dirent_of (block_buffer s) (i mod 8)
             in if de_inode source = NO_ENTRY then getdents_loop inode capacity is entries s
                else getdents_loop inode capacity is (entries @ [source]) s)"

text \<open>The part of a path after its last slash.\<close>

definition base_name :: "cstr \<Rightarrow> cstr" where
  "base_name path = drop (nat (last_slash path + 1)) path"

definition minifs_getdents :: "fs \<Rightarrow> u32 \<Rightarrow> cstr option \<Rightarrow> bool \<Rightarrow> int \<Rightarrow> (int \<times> minifs_dirent list) \<times> fs" where
  "minifs_getdents s cwd path entries_null capacity =
     (let (number, s) = (if path = None \<or> path = Some [] then (sint cwd, s) else resolve s cwd path)
      in if number < 0 \<or> entries_null \<or> capacity < 0 then ((-1, []), s)
         else let ((r, inode), s) = read_inode s (of_int number)
           in if r < 0 then ((-1, []), s)
              else if is_kind inode MINIFS_MODE_FILE then
                (if capacity = 0 then ((0, []), s)
                 else let name = take MINIFS_NAME_MAX (base_name (case path of None \<Rightarrow> [] | Some p \<Rightarrow> p))
                   in ((1, [\<lparr>de_inode = of_int number, de_mode = i_mode inode, de_name = name @ [0]\<rparr>]), s))
              else getdents_loop inode capacity [0..<entry_count inode] [] s)"

definition minifs_mkdir :: "fs \<Rightarrow> u32 \<Rightarrow> cstr option \<Rightarrow> int \<times> fs" where
  "minifs_mkdir s cwd path =
     (let ((parent, name), s) = resolve_parent s cwd path
      in if parent < 0 then (-1, s)
         else let (r, s) = create_node s (of_int parent) name MINIFS_MODE_DIR
           in (if r < 0 then -1 else 0, s))"

definition inode_is_open :: "fs \<Rightarrow> u32 \<Rightarrow> bool" where
  "inode_is_open s inode \<longleftrightarrow>
     first_index (\<lambda>i. of_used (open_files s ! i) \<and> of_type (open_files s ! i) = OFD_FILE \<and>
       of_inode (open_files s ! i) = inode) MINIFS_MAX_OPEN_FILES \<noteq> None"

text \<open>The scan of an unlinked directory: only erased entries, and no read error.\<close>

primrec empty_loop :: "minifs_inode \<Rightarrow> nat list \<Rightarrow> fs \<Rightarrow> bool \<times> fs" where
  "empty_loop inode [] s = (True, s)"
| "empty_loop inode (i # is) s =
     (let (block, s) = read_entry s inode i
      in if block = None then (False, s)
         else if de_inode (dirent_of (block_buffer s) (i mod 8)) \<noteq> NO_ENTRY then (False, s)
         else empty_loop inode is s)"

definition minifs_unlink :: "fs \<Rightarrow> u32 \<Rightarrow> cstr option \<Rightarrow> int \<times> fs" where
  "minifs_unlink s cwd path =
     (let ((parent, name), s) = resolve_parent s cwd path
      in if parent < 0 then (-1, s)
         else let ((number, _), s) = dir_lookup s (of_int parent) name
           in if number \<le> 0 \<or> inode_is_open s (of_int number) then (-1, s)
              else let ((r, inode), s) = read_inode s (of_int number)
                in if r < 0 then (-1, s)
                   else let (empty, s) = (if is_kind inode MINIFS_MODE_DIR
                                          then empty_loop inode [0..<entry_count inode] s else (True, s))
                     in if \<not> empty then (-1, s)
                        else let (inode, s) = truncate_inode s inode;
                                 (r, s) = write_inode s (of_int number) zero_inode
                          in if r < 0 then (-1, s)
                             else let (r, s) = dir_remove s (of_int parent) name
                               in if r < 0 then (-1, s) else (0, free_inode_number s (of_int number)))"

definition minifs_chdir :: "fs \<Rightarrow> u32 \<Rightarrow> cstr option \<Rightarrow> u32 option \<Rightarrow> (int \<times> u32 option) \<times> fs" where
  "minifs_chdir s cwd path new_cwd =
     (let (number, s) = resolve s cwd path
      in if number < 0 \<or> new_cwd = None then ((-1, new_cwd), s)
         else let ((r, inode), s) = read_inode s (of_int number)
           in if r < 0 \<or> \<not> is_kind inode MINIFS_MODE_DIR then ((-1, new_cwd), s)
              else ((0, Some (of_int number)), s))"

text \<open>The name of an inode in its parent: None is the error return, an empty name means not found.\<close>

primrec name_loop :: "minifs_inode \<Rightarrow> u32 \<Rightarrow> nat list \<Rightarrow> fs \<Rightarrow> cstr option \<times> fs" where
  "name_loop parent current [] s = (Some [], s)"
| "name_loop parent current (i # is) s =
     (let (block, s) = read_entry s parent i
      in if block = None then (None, s)
         else let entry = dirent_of (block_buffer s) (i mod 8)
           in if de_inode entry = current then (Some (cstr_of (de_name entry)), s)
              else name_loop parent current is s)"

text \<open>
  \<^verbatim>\<open>rpath\<close> is the array \<^verbatim>\<open>reverse\<close>, the path written backwards.  Each turn adds at least two bytes
  to it and it holds fewer than 256.
\<close>

function getcwd_loop :: "fs \<Rightarrow> u32 \<Rightarrow> u8 list \<Rightarrow> u8 list option \<times> fs" where
  "getcwd_loop s current rpath =
     (if current = MINIFS_ROOT_INODE then (Some rpath, s)
      else let ((r, inode), s) = read_inode s current
        in if r < 0 then (None, s)
           else let ((r, parent), s) = read_inode s (i_parent inode)
             in if r < 0 then (None, s)
                else let (name, s) = name_loop parent current [0..<entry_count parent] s
                  in case name of None \<Rightarrow> (None, s)
                     | Some name \<Rightarrow>
                       if length name = 0 \<or> length rpath + length name + 1 \<ge> MINIFS_PATH_MAX then (None, s)
                       else getcwd_loop s (i_parent inode) (rpath @ rev name @ [slash]))"
  by auto
termination
  by (relation "measure (\<lambda>(s, current, rpath). 256 - length rpath)") auto

declare getcwd_loop.simps [simp del]

definition minifs_getcwd :: "fs \<Rightarrow> u32 \<Rightarrow> u8 list option \<Rightarrow> u64 \<Rightarrow> (int \<times> u8 list option) \<times> fs" where
  "minifs_getcwd s cwd buffer len =
     (case buffer of None \<Rightarrow> ((-1, None), s)
      | Some buf \<Rightarrow>
        if len < 2 then ((-1, buffer), s)
        else if cwd = MINIFS_ROOT_INODE then ((1, Some (copy_bytes buf 0 [slash, 0])), s)
        else let (rpath, s) = getcwd_loop s cwd []
          in case rpath of None \<Rightarrow> ((-1, buffer), s)
             | Some rpath \<Rightarrow>
               if length rpath + 1 > unat len then ((-1, buffer), s)
               else ((int (length rpath), Some (copy_bytes buf 0 (rev rpath @ [0]))), s))"

section \<open>Inode queries\<close>

definition minifs_resolve_file :: "fs \<Rightarrow> u32 \<Rightarrow> cstr option \<Rightarrow> u32 option \<Rightarrow> (int \<times> u32 option) \<times> fs" where
  "minifs_resolve_file s cwd path inode_out =
     (let (number, s) = resolve s cwd path
      in if number < 0 \<or> inode_out = None then ((-1, inode_out), s)
         else let ((r, inode), s) = read_inode s (of_int number)
           in if r < 0 \<or> \<not> is_kind inode MINIFS_MODE_FILE then ((-1, inode_out), s)
              else ((0, Some (of_int number)), s))"

definition minifs_inode_size :: "fs \<Rightarrow> u32 \<Rightarrow> u32 option \<Rightarrow> (int \<times> u32 option) \<times> fs" where
  "minifs_inode_size s inode_number sz =
     (if sz = None then ((-1, None), s)
      else let ((r, inode), s) = read_inode s inode_number
        in if r < 0 then ((-1, sz), s) else ((0, Some (i_size inode)), s))"

definition minifs_inode_mode :: "fs \<Rightarrow> u32 \<Rightarrow> u32 option \<Rightarrow> (int \<times> u32 option) \<times> fs" where
  "minifs_inode_mode s inode_number mode =
     (if mode = None then ((-1, None), s)
      else let ((r, inode), s) = read_inode s inode_number
        in if r < 0 then ((-1, mode), s) else ((0, Some (i_mode inode)), s))"

end
