(* ===== verification/Os_Task.thy ===== *)
theory Os_Task
  imports Os_Space Os_Printk Fs_Calls
begin

text \<open>
  Processes (\<^verbatim>\<open>kernel/task.c\<close>, the structures of \<^verbatim>\<open>kernel/task.h\<close>, the CSR macros of \<^verbatim>\<open>include/csr.h\<close>
  that they use, and \<^verbatim>\<open>kernel/switch.S\<close>).  The kernel state is one record: the task table and the
  scheduler's variables, the pages, the file system, the console, the CSRs, the callee-saved registers
  of the running kernel thread, the CLINT, the variables of the timer, the trap handler and the system calls
  (\<^verbatim>\<open>timer.c\<close>, \<^verbatim>\<open>trap.c\<close>, \<^verbatim>\<open>syscall.c\<close>), and whether the machine was told to stop.  A task pointer is the index of its slot, None the null pointer.
  A trap frame is the list of its 32 words.  The address of \<^verbatim>\<open>task_stacks\<close> is placed by the linker
  and is a component of the state.
\<close>

abbreviation (input) MAX_TASKS :: nat where "MAX_TASKS \<equiv> 16"
abbreviation (input) INT_MAX :: int where "INT_MAX \<equiv> 2147483647"
abbreviation (input) TASK_KERNEL_STACK_SIZE :: u64 where "TASK_KERNEL_STACK_SIZE \<equiv> 0x4000"
abbreviation (input) TASK_WAIT_BLOCKED :: int where "TASK_WAIT_BLOCKED \<equiv> -2"
abbreviation (input) SSTATUS_SIE :: u64 where "SSTATUS_SIE \<equiv> 0x2"
abbreviation (input) SSTATUS_SPIE :: u64 where "SSTATUS_SPIE \<equiv> 0x20"
abbreviation (input) SSTATUS_SPP :: u64 where "SSTATUS_SPP \<equiv> 0x100"

datatype task_state = TASK_UNUSED | TASK_READY | TASK_RUNNING | TASK_BLOCKED | TASK_ZOMBIE

datatype sched_policy = SCHED_FCFS | SCHED_RR

record kcontext =
  ctx_ra :: u64
  ctx_sp :: u64
  ctx_s :: "u64 list"

record trap_context =
  tc_regs :: "u64 list"
  tc_epc :: u64
  tc_status :: u64
  tc_satp :: u64

text \<open>What a task waits for: a task (\<^verbatim>\<open>waitpid\<close> waits on the caller's own slot) or another object.\<close>

datatype channel = ChTask nat | ChObj u64

record task =
  t_ctx :: kcontext
  trap_ctx :: trap_context
  t_stack :: u64
  t_state :: task_state
  t_pid :: int
  t_ppid :: int
  exit_code :: int
  wait_target :: int
  wait_channel :: "channel option"
  time_slice :: u32
  ticks_left :: u32
  created_order :: u64
  ready_order :: u64
  runtime_ticks :: u64
  context_switches :: u64
  cwd_inode :: u32
  has_user_space :: bool
  address_space :: task_address_space
  t_name :: cstr

record kernel =
  tasks :: "task list"
  current :: "nat option"
  task_count :: int
  next_pid :: int
  order_counter :: u64
  scheduler_policy :: sched_policy
  scheduler_quantum :: u32
  switch_samples :: u64
  max_switch_ticks :: u64
  task_stacks :: u64
  live_ctx :: kcontext
  k_csr :: csr
  k_clint :: clint
  k_mem :: mem_state
  k_tables :: kernel_tables
  k_fs :: fs
  k_con :: console
  tick_count :: u32
  timer_interval :: u64
  timeslice_ms :: u32
  trap_silent :: bool
  halted :: bool
  dirent_buffer :: "u8 list"
  process_buffer :: "u8 list"

section \<open>CSR access\<close>

definition trap_read :: "csr_addr \<Rightarrow> kernel \<Rightarrow> u64" where
  "trap_read addr k = csr_load (k_csr k) addr"

definition trap_write :: "csr_addr \<Rightarrow> u64 \<Rightarrow> kernel \<Rightarrow> kernel" where
  "trap_write addr v k = k\<lparr>k_csr := csr_store (k_csr k) addr v\<rparr>"

definition local_irq_save :: "kernel \<Rightarrow> u64 \<times> kernel" where
  "local_irq_save k =
     (trap_read SSTATUS k, trap_write SSTATUS (trap_read SSTATUS k AND NOT SSTATUS_SIE) k)"

definition local_irq_restore :: "u64 \<Rightarrow> kernel \<Rightarrow> kernel" where
  "local_irq_restore status k =
     trap_write SSTATUS ((trap_read SSTATUS k AND NOT SSTATUS_SIE) OR (status AND SSTATUS_SIE)) k"

section \<open>The table\<close>

definition task_at :: "kernel \<Rightarrow> nat \<Rightarrow> task" where
  "task_at k i = tasks k ! i"

definition set_task :: "nat \<Rightarrow> (task \<Rightarrow> task) \<Rightarrow> kernel \<Rightarrow> kernel" where
  "set_task i f k = k\<lparr>tasks := (tasks k)[i := f (tasks k ! i)]\<rparr>"

definition copy_name :: "cstr option \<Rightarrow> cstr" where
  "copy_name src = (case src of None \<Rightarrow> [] | Some s \<Rightarrow> take 15 s)"

definition find_pid :: "kernel \<Rightarrow> int \<Rightarrow> nat option" where
  "find_pid k pid = first_index (\<lambda>i. t_state (task_at k i) \<noteq> TASK_UNUSED \<and> t_pid (task_at k i) = pid) MAX_TASKS"

definition has_ready_non_idle :: "kernel \<Rightarrow> bool" where
  "has_ready_non_idle k \<longleftrightarrow> first_index (\<lambda>i. 1 \<le> i \<and> t_state (task_at k i) = TASK_READY) MAX_TASKS \<noteq> None"

definition select_rr :: "kernel \<Rightarrow> nat option" where
  "select_rr k =
     (let start = (case current k of None \<Rightarrow> 0 | Some c \<Rightarrow> (c + 1) mod MAX_TASKS)
      in map_option (\<lambda>i. (start + i) mod MAX_TASKS)
           (first_index (\<lambda>i. t_state (task_at k ((start + i) mod MAX_TASKS)) = TASK_READY) MAX_TASKS))"

definition better :: "kernel \<Rightarrow> nat \<Rightarrow> nat option \<Rightarrow> nat option" where
  "better k i best =
     (if t_state (task_at k i) \<noteq> TASK_READY then best
      else case best of None \<Rightarrow> Some i
        | Some b \<Rightarrow> if ready_order (task_at k i) < ready_order (task_at k b) then Some i else best)"

definition select_fcfs :: "kernel \<Rightarrow> nat option" where
  "select_fcfs k = for_each MAX_TASKS (better k) None"

definition select_next :: "kernel \<Rightarrow> nat option" where
  "select_next k = (if scheduler_policy k = SCHED_FCFS then select_fcfs k else select_rr k)"

section \<open>Traps and switching\<close>

definition save_trap_context :: "nat \<Rightarrow> u64 list \<Rightarrow> kernel \<Rightarrow> kernel" where
  "save_trap_context i tf k =
     set_task i (\<lambda>t. t\<lparr>trap_ctx := \<lparr>tc_regs = take 32 tf, tc_epc = trap_read SEPC k,
       tc_status = trap_read SSTATUS k, tc_satp = trap_read SATP k\<rparr>\<rparr>) k"

definition kernel_stack_top :: "u64 \<Rightarrow> u64" where
  "kernel_stack_top stack = (if stack = 0 then stack_top else stack + TASK_KERNEL_STACK_SIZE)"

definition restore_trap_context :: "nat \<Rightarrow> kernel \<Rightarrow> u64 list \<times> kernel" where
  "restore_trap_context i k =
     (let t = task_at k i;
          k = trap_write SEPC (tc_epc (trap_ctx t)) k;
          k = trap_write SSTATUS (tc_status (trap_ctx t)) k;
          k = trap_write SSCRATCH (kernel_stack_top (t_stack t)) k
      in (tc_regs (trap_ctx t),
          if trap_read SATP k \<noteq> tc_satp (trap_ctx t) then trap_write SATP (tc_satp (trap_ctx t)) k else k))"

text \<open>The next ready order: \<^verbatim>\<open>++order_counter\<close>.\<close>

definition make_ready :: "nat \<Rightarrow> kernel \<Rightarrow> kernel" where
  "make_ready i k =
     (let k = k\<lparr>order_counter := order_counter k + 1\<rparr>
      in set_task i (\<lambda>t. t\<lparr>t_state := TASK_READY, ready_order := order_counter k\<rparr>) k)"

definition start_task :: "nat \<Rightarrow> kernel \<Rightarrow> kernel" where
  "start_task n k =
     (set_task n (\<lambda>t. t\<lparr>t_state := TASK_RUNNING, ticks_left := time_slice t, context_switches := context_switches t + 1\<rparr>) k)
       \<lparr>current := Some n\<rparr>"

definition switch_rest :: "nat \<Rightarrow> u64 list \<Rightarrow> kernel \<Rightarrow> (bool \<times> u64 list) \<times> kernel" where
  "switch_rest prev tf k =
     (let k = (if t_state (task_at k prev) = TASK_RUNNING then make_ready prev k else k)
      in case select_next k of
           None \<Rightarrow>
             ((False, tf),
              if t_state (task_at k prev) = TASK_READY
              then set_task prev (\<lambda>t. t\<lparr>t_state := TASK_RUNNING, ticks_left := time_slice t\<rparr>) k else k)
         | Some n \<Rightarrow>
             let (tf, k) = restore_trap_context n (start_task n k)
             in ((n \<noteq> prev, tf), k))"

definition switch_from_trap :: "u64 list \<Rightarrow> bool \<Rightarrow> kernel \<Rightarrow> (bool \<times> u64 list) \<times> kernel" where
  "switch_from_trap tf force k =
     (case current k of None \<Rightarrow> ((False, tf), k)
      | Some c \<Rightarrow>
        if task_count k \<le> 1 then ((False, tf), k)
        else let k = save_trap_context c tf k
          in if force then switch_rest c tf k
             else let k = set_task c (\<lambda>t. t\<lparr>runtime_ticks := runtime_ticks t + 1\<rparr>) k;
                      t = task_at k c
               in if scheduler_policy k = SCHED_FCFS \<and> t_pid t \<noteq> 0 \<and> t_state t = TASK_RUNNING then ((False, tf), k)
                  else if scheduler_policy k = SCHED_RR \<and> t_state t = TASK_RUNNING \<and> t_pid t \<noteq> 0 \<and> ticks_left t > 1
                  then ((False, tf), set_task c (\<lambda>t. t\<lparr>ticks_left := ticks_left t - 1\<rparr>) k)
                  else if t_pid t = 0 \<and> \<not> has_ready_non_idle k then ((False, tf), k)
                  else switch_rest c tf k)"

text \<open>\<open>now\<close> is the second reading of the clock, taken after a switch.\<close>

definition timed_switch :: "u64 \<Rightarrow> u64 list \<Rightarrow> bool \<Rightarrow> kernel \<Rightarrow> (bool \<times> u64 list) \<times> kernel" where
  "timed_switch now tf force k =
     (let start = clint_mtime (k_clint k);
          ((switched, tf), k) = switch_from_trap tf force k
      in ((switched, tf),
          if switched then
            let elapsed = now - start
            in k\<lparr>switch_samples := switch_samples k + 1,
                 max_switch_ticks := if elapsed > max_switch_ticks k then elapsed else max_switch_ticks k\<rparr>
          else k))"

definition sched_tick :: "u64 \<Rightarrow> u64 list \<Rightarrow> kernel \<Rightarrow> (bool \<times> u64 list) \<times> kernel" where
  "sched_tick now tf = timed_switch now tf False"

definition task_reschedule :: "u64 \<Rightarrow> u64 list \<Rightarrow> kernel \<Rightarrow> (bool \<times> u64 list) \<times> kernel" where
  "task_reschedule now tf = timed_switch now tf True"

definition switch_to :: "nat \<Rightarrow> nat \<Rightarrow> kernel \<Rightarrow> kernel" where
  "switch_to prev n k =
     (let k = set_task prev (\<lambda>t. t\<lparr>t_ctx := live_ctx k\<rparr>) k
      in k\<lparr>live_ctx := t_ctx (task_at k n)\<rparr>)"

definition yield :: "kernel \<Rightarrow> kernel" where
  "yield k =
     (case current k of None \<Rightarrow> k
      | Some prev \<Rightarrow>
        if task_count k \<le> 1 then k
        else let k = (if t_state (task_at k prev) = TASK_RUNNING then make_ready prev k else k)
          in case select_next k of
               None \<Rightarrow> set_task prev (\<lambda>t. t\<lparr>t_state := TASK_RUNNING\<rparr>) k
             | Some n \<Rightarrow>
               if n = prev then set_task prev (\<lambda>t. t\<lparr>t_state := TASK_RUNNING\<rparr>) k
               else switch_to prev n (start_task n k))"

section \<open>Output\<close>

definition lit :: "string \<Rightarrow> cstr" where
  "lit s = map of_char s"

text \<open>Text on the console; every call in the kernel passes the arguments its format asks for.\<close>

definition kprint :: "string \<Rightarrow> varg list \<Rightarrow> kernel \<Rightarrow> kernel" where
  "kprint fmt args k =
     (case printk (lit fmt) args of None \<Rightarrow> k | Some t \<Rightarrow> k\<lparr>k_con := (k_con k)\<lparr>con_out := con_out (k_con k) @ t\<rparr>\<rparr>)"

section \<open>Creation\<close>

definition clear_slot :: "nat \<Rightarrow> kernel \<Rightarrow> kernel" where
  "clear_slot i k =
     (let t = task_at k i;
          k = (if t_state t \<noteq> TASK_UNUSED \<and> t_pid t \<ge> 0 then k\<lparr>k_fs := minifs_close_all (k_fs k) (t_pid t)\<rparr> else k)
      in set_task i (\<lambda>t. t\<lparr>t_state := TASK_UNUSED, t_pid := -1, t_ppid := -1, t_stack := 0,
           has_user_space := False, cwd_inode := MINIFS_ROOT_INODE, t_name := []\<rparr>) k)"

definition task_init :: "kernel \<Rightarrow> kernel" where
  "task_init k =
     (let k = for_each MAX_TASKS clear_slot k;
          k = k\<lparr>task_count := 1, next_pid := 1, order_counter := 1, switch_samples := 0, max_switch_ticks := 0\<rparr>;
          k = set_task 0 (\<lambda>t. t\<lparr>t_state := TASK_RUNNING, t_pid := 0, t_ppid := -1, t_stack := 0,
                time_slice := scheduler_quantum k, ticks_left := scheduler_quantum k,
                created_order := order_counter k, ready_order := order_counter k,
                trap_ctx := (trap_ctx t)\<lparr>tc_satp := trap_read SATP k, tc_status := trap_read SSTATUS k OR SSTATUS_SPP\<rparr>,
                cwd_inode := MINIFS_ROOT_INODE, t_name := copy_name (Some (lit ''idle''))\<rparr>) k;
          k = k\<lparr>current := Some 0\<rparr>
      in k\<lparr>k_fs := snd (minifs_process_init (k_fs k) 0)\<rparr>)"

definition free_slot :: "kernel \<Rightarrow> nat option" where
  "free_slot k = first_index (\<lambda>i. 1 \<le> i \<and> t_state (task_at k i) = TASK_UNUSED) MAX_TASKS"

definition stack_of :: "kernel \<Rightarrow> nat \<Rightarrow> u64" where
  "stack_of k slot = task_stacks k + of_nat slot * TASK_KERNEL_STACK_SIZE"

text \<open>The fields that \<^verbatim>\<open>task_create\<close> and \<^verbatim>\<open>task_fork_from_trap\<close> set alike.\<close>

definition fresh_task :: "kernel \<Rightarrow> nat \<Rightarrow> task \<Rightarrow> task" where
  "fresh_task k slot t =
     t\<lparr>t_stack := stack_of k slot, t_pid := next_pid k,
       t_ppid := (case current k of None \<Rightarrow> -1 | Some c \<Rightarrow> t_pid (task_at k c)),
       t_state := TASK_READY, exit_code := 0, wait_target := -1, wait_channel := None,
       time_slice := scheduler_quantum k, ticks_left := scheduler_quantum k,
       created_order := order_counter k + 1, ready_order := order_counter k + 1,
       runtime_ticks := 0, context_switches := 0,
       cwd_inode := (case current k of None \<Rightarrow> MINIFS_ROOT_INODE | Some c \<Rightarrow> cwd_inode (task_at k c))\<rparr>"

text \<open>
  The counters of a new task.  \<^verbatim>\<open>next_pid\<close> is an \<^verbatim>\<open>int\<close>: incrementing it at the greatest int is undefined, and
  \<^verbatim>\<open>task_create\<close> and \<^verbatim>\<open>task_fork_from_trap\<close> then have no result (None).
\<close>

definition counted :: "kernel \<Rightarrow> kernel" where
  "counted k = k\<lparr>next_pid := next_pid k + 1, order_counter := order_counter k + 1, task_count := task_count k + 1\<rparr>"

definition count_task :: "kernel \<Rightarrow> kernel option" where
  "count_task k = (if next_pid k \<ge> INT_MAX then None else Some (counted k))"

definition task_create :: "u64 \<Rightarrow> cstr option \<Rightarrow> kernel \<Rightarrow> (int \<times> kernel) option" where
  "task_create entry name k =
     (if entry = 0 \<or> task_count k \<ge> int MAX_TASKS then Some (-1, k)
      else case free_slot k of None \<Rightarrow> Some (-1, k)
        | Some slot \<Rightarrow>
          let pid = next_pid k;
              sp = stack_of k slot + TASK_KERNEL_STACK_SIZE;
              k = set_task slot (\<lambda>t. (fresh_task k slot t)
                    \<lparr>has_user_space := False, t_name := copy_name name,
                     t_ctx := (t_ctx t)\<lparr>ctx_ra := entry, ctx_sp := sp\<rparr>,
                     trap_ctx := \<lparr>tc_regs = (replicate 32 0)[2 := sp], tc_epc = entry,
                       tc_status = trap_read SSTATUS k OR SSTATUS_SPP OR SSTATUS_SPIE, tc_satp = trap_read SATP k\<rparr>\<rparr>) k
          in case count_task k of None \<Rightarrow> None
             | Some k \<Rightarrow>
               let (r, s) = minifs_process_init (k_fs k) pid;
                   k = k\<lparr>k_fs := s\<rparr>
               in Some (if r < 0 then
                    (-1, (set_task slot (\<lambda>t. t\<lparr>t_stack := 0, t_state := TASK_UNUSED\<rparr>) k)\<lparr>task_count := task_count k - 1\<rparr>)
                  else (pid, k)))"

definition task_fork_from_trap :: "u64 list \<Rightarrow> u64 \<Rightarrow> task_address_space \<Rightarrow> kernel \<Rightarrow> (int \<times> kernel) option" where
  "task_fork_from_trap tf child_epc space k =
     (case current k of None \<Rightarrow> Some (-1, k)
      | Some c \<Rightarrow>
        if task_count k \<ge> int MAX_TASKS then Some (-1, k)
        else case free_slot k of None \<Rightarrow> Some (-1, k)
          | Some slot \<Rightarrow>
            let pid = next_pid k;
                k = set_task slot (\<lambda>t. (fresh_task k slot t)
                      \<lparr>has_user_space := True, address_space := space, t_name := copy_name (Some (lit ''fork-child'')),
                       trap_ctx := \<lparr>tc_regs = (take 32 tf)[10 := 0], tc_epc = child_epc,
                         tc_status = trap_read SSTATUS k AND NOT SSTATUS_SPP, tc_satp = as_satp space\<rparr>\<rparr>) k
            in case count_task k of None \<Rightarrow> None
               | Some k \<Rightarrow>
                 let (r, s) = minifs_process_fork (k_fs k) (t_pid (task_at k c)) pid;
                     k = k\<lparr>k_fs := s\<rparr>
                 in Some (if r < 0 then
                      (-1, (set_task slot (\<lambda>t. t\<lparr>has_user_space := False, t_stack := 0, t_state := TASK_UNUSED\<rparr>) k)
                             \<lparr>task_count := task_count k - 1\<rparr>)
                    else (pid, k)))"

section \<open>The current task\<close>

definition task_attach_address_space :: "task_address_space \<Rightarrow> kernel \<Rightarrow> int \<times> kernel" where
  "task_attach_address_space space k =
     (case current k of None \<Rightarrow> (-1, k)
      | Some c \<Rightarrow> (0, set_task c (\<lambda>t. t\<lparr>address_space := space, has_user_space := True,
                                       trap_ctx := (trap_ctx t)\<lparr>tc_satp := as_satp space\<rparr>\<rparr>) k))"

text \<open>The second result is the old address space.\<close>

definition task_replace_address_space :: "task_address_space \<Rightarrow> kernel \<Rightarrow> (int \<times> task_address_space option) \<times> kernel" where
  "task_replace_address_space space k =
     (case current k of None \<Rightarrow> ((-1, None), k)
      | Some c \<Rightarrow>
        if \<not> has_user_space (task_at k c) then ((-1, None), k)
        else ((0, Some (address_space (task_at k c))),
              set_task c (\<lambda>t. t\<lparr>address_space := space, trap_ctx := (trap_ctx t)\<lparr>tc_satp := as_satp space\<rparr>\<rparr>) k))"

definition task_current_address_space :: "kernel \<Rightarrow> task_address_space option" where
  "task_current_address_space k =
     (case current k of None \<Rightarrow> None
      | Some c \<Rightarrow> if has_user_space (task_at k c) then Some (address_space (task_at k c)) else None)"

definition task_current_state :: "kernel \<Rightarrow> task_state" where
  "task_current_state k = (case current k of None \<Rightarrow> TASK_UNUSED | Some c \<Rightarrow> t_state (task_at k c))"

definition task_current_pid :: "kernel \<Rightarrow> int" where
  "task_current_pid k = (case current k of None \<Rightarrow> -1 | Some c \<Rightarrow> t_pid (task_at k c))"

definition task_current_cwd :: "kernel \<Rightarrow> u32" where
  "task_current_cwd k = (case current k of None \<Rightarrow> MINIFS_ROOT_INODE | Some c \<Rightarrow> cwd_inode (task_at k c))"

definition update_current :: "(task \<Rightarrow> task) \<Rightarrow> kernel \<Rightarrow> kernel" where
  "update_current f k = (case current k of None \<Rightarrow> k | Some c \<Rightarrow> set_task c f k)"

definition task_set_current_cwd :: "u32 \<Rightarrow> kernel \<Rightarrow> kernel" where
  "task_set_current_cwd inode = update_current (\<lambda>t. t\<lparr>cwd_inode := inode\<rparr>)"

definition task_set_current_name :: "cstr option \<Rightarrow> kernel \<Rightarrow> kernel" where
  "task_set_current_name name = update_current (\<lambda>t. t\<lparr>t_name := copy_name name\<rparr>)"

definition task_set_current_entry :: "u64 \<Rightarrow> kernel \<Rightarrow> kernel" where
  "task_set_current_entry entry = update_current (\<lambda>t. t\<lparr>trap_ctx := (trap_ctx t)\<lparr>tc_epc := entry\<rparr>\<rparr>)"

definition task_current_kernel_stack_top :: "kernel \<Rightarrow> u64" where
  "task_current_kernel_stack_top k =
     (case current k of None \<Rightarrow> stack_top | Some c \<Rightarrow> kernel_stack_top (t_stack (task_at k c)))"

definition task_prepare_trap_return :: "kernel \<Rightarrow> kernel" where
  "task_prepare_trap_return k = trap_write SSCRATCH (task_current_kernel_stack_top k) k"

section \<open>Termination of processes\<close>

definition wake :: "nat \<Rightarrow> kernel \<Rightarrow> kernel" where
  "wake i k = set_task i (\<lambda>t. t\<lparr>wait_channel := None\<rparr>) (make_ready i k)"

text \<open>The parent's wake-up in \<^verbatim>\<open>task_exit\<close> and \<^verbatim>\<open>task_kill\<close>.\<close>

definition wake_parent :: "nat \<Rightarrow> kernel \<Rightarrow> kernel" where
  "wake_parent i k =
     (case find_pid k (t_ppid (task_at k i)) of None \<Rightarrow> k
      | Some p \<Rightarrow>
        if t_state (task_at k p) = TASK_BLOCKED \<and>
           (wait_target (task_at k p) < 0 \<or> wait_target (task_at k p) = t_pid (task_at k i))
        then wake p k else k)"

definition orphan :: "int \<Rightarrow> nat \<Rightarrow> kernel \<Rightarrow> kernel" where
  "orphan pid i k =
     (if 1 \<le> i \<and> t_state (task_at k i) \<noteq> TASK_UNUSED \<and> t_ppid (task_at k i) = pid
      then set_task i (\<lambda>t. t\<lparr>t_ppid := 0\<rparr>) k else k)"

definition task_exit :: "int \<Rightarrow> kernel \<Rightarrow> kernel" where
  "task_exit code k =
     (case current k of None \<Rightarrow> k
      | Some c \<Rightarrow>
        if t_pid (task_at k c) = 0 then k
        else let k = set_task c (\<lambda>t. t\<lparr>exit_code := code, t_state := TASK_ZOMBIE\<rparr>) k;
                 k = k\<lparr>k_fs := minifs_close_all (k_fs k) (t_pid (task_at k c))\<rparr>;
                 k = wake_parent c k
             in for_each MAX_TASKS (orphan (t_pid (task_at k c))) k)"

definition task_kill :: "int \<Rightarrow> int \<Rightarrow> kernel \<Rightarrow> int \<times> kernel" where
  "task_kill pid code k =
     (case find_pid k pid of None \<Rightarrow> (-1, k)
      | Some i \<Rightarrow>
        let t = task_at k i
        in if t_pid t = 0 \<or> Some i = current k \<or> t_state t = TASK_ZOMBIE \<or> t_state t = TASK_UNUSED \<or> t_name t = lit ''shell''
           then (-1, k)
           else let k = set_task i (\<lambda>t. t\<lparr>exit_code := code, t_state := TASK_ZOMBIE, wait_channel := None\<rparr>) k;
                    k = k\<lparr>k_fs := minifs_close_all (k_fs k) (t_pid (task_at k i))\<rparr>;
                    k = wake_parent i k
                in (0, for_each MAX_TASKS (orphan (t_pid (task_at k i))) k))"

definition is_child :: "kernel \<Rightarrow> int \<Rightarrow> int \<Rightarrow> nat \<Rightarrow> bool" where
  "is_child k parent pid i \<longleftrightarrow>
     1 \<le> i \<and> t_state (task_at k i) \<noteq> TASK_UNUSED \<and> t_ppid (task_at k i) = parent \<and>
     (pid > 0 \<longrightarrow> t_pid (task_at k i) = pid)"

definition reap :: "nat \<Rightarrow> kernel \<Rightarrow> kernel" where
  "reap i k =
     (let t = task_at k i;
          k = (if has_user_space t then
                 let (space, m) = user_space_destroy (address_space t) (k_mem k)
                 in set_task i (\<lambda>t. t\<lparr>address_space := space\<rparr>) (k\<lparr>k_mem := m\<rparr>)
               else k);
          k = k\<lparr>k_fs := minifs_close_all (k_fs k) (t_pid t)\<rparr>
      in (set_task i (\<lambda>t. t\<lparr>t_stack := 0, has_user_space := False, t_state := TASK_UNUSED, t_pid := -1, t_ppid := -1,
            t_name := []\<rparr>) k)\<lparr>task_count := task_count k - 1\<rparr>)"

text \<open>The result and the status word stored on success.\<close>

definition task_waitpid :: "int \<Rightarrow> bool \<Rightarrow> kernel \<Rightarrow> (int \<times> int option) \<times> kernel" where
  "task_waitpid pid nohang k =
     (case current k of None \<Rightarrow> ((-1, None), k)
      | Some c \<Rightarrow>
        let child = is_child k (t_pid (task_at k c)) pid
        in case first_index (\<lambda>i. child i \<and> t_state (task_at k i) = TASK_ZOMBIE) MAX_TASKS of
             Some i \<Rightarrow> ((t_pid (task_at k i), Some (exit_code (task_at k i))), reap i k)
           | None \<Rightarrow>
             if first_index child MAX_TASKS = None then ((-1, None), k)
             else if nohang then ((0, None), k)
             else ((TASK_WAIT_BLOCKED, None),
                   set_task c (\<lambda>t. t\<lparr>wait_target := pid, wait_channel := Some (ChTask c), t_state := TASK_BLOCKED\<rparr>) k))"

definition task_wait :: "kernel \<Rightarrow> int \<times> kernel" where
  "task_wait k = (let ((pid, status), k) = task_waitpid (-1) True k in (if pid = 0 then -1 else pid, k))"

section \<open>Blocking\<close>

text \<open>The \<^verbatim>\<open>ecall\<close> at the end of \<^verbatim>\<open>task_block\<close> is the trap that follows it.\<close>

definition task_block :: "channel option \<Rightarrow> kernel \<Rightarrow> kernel" where
  "task_block channel k =
     (if current k = None \<or> task_current_pid k = 0 then k
      else let (irq_state, k) = local_irq_save k;
               k = update_current (\<lambda>t. t\<lparr>wait_channel := channel, t_state := TASK_BLOCKED\<rparr>) k
        in local_irq_restore irq_state k)"

definition waits_on :: "channel option \<Rightarrow> kernel \<Rightarrow> nat \<Rightarrow> bool" where
  "waits_on channel k i \<longleftrightarrow> 1 \<le> i \<and> t_state (task_at k i) = TASK_BLOCKED \<and> wait_channel (task_at k i) = channel"

definition task_wake_one :: "channel option \<Rightarrow> kernel \<Rightarrow> int \<times> kernel" where
  "task_wake_one channel k =
     (let (irq_state, k) = local_irq_save k
      in case first_index (waits_on channel k) MAX_TASKS of
           None \<Rightarrow> (-1, local_irq_restore irq_state k)
         | Some i \<Rightarrow> let k = local_irq_restore irq_state (wake i k) in (t_pid (task_at k i), k))"

definition task_wake_all :: "channel option \<Rightarrow> kernel \<Rightarrow> int \<times> kernel" where
  "task_wake_all channel k =
     (let (irq_state, k) = local_irq_save k;
          (n, k) = for_each MAX_TASKS (\<lambda>i (n, k). if waits_on channel k i then (n + 1, wake i k) else (n, k)) (0, k)
      in (n, local_irq_restore irq_state k))"

section \<open>Scheduler settings and listings\<close>

definition task_set_scheduler :: "sched_policy \<Rightarrow> kernel \<Rightarrow> kernel" where
  "task_set_scheduler policy k = k\<lparr>scheduler_policy := policy\<rparr>"

definition task_set_quantum :: "u32 \<Rightarrow> kernel \<Rightarrow> kernel" where
  "task_set_quantum ticks k =
     (let ticks = (if ticks = 0 then 1 else ticks)
      in for_each MAX_TASKS (\<lambda>i k.
           if t_state (task_at k i) \<noteq> TASK_UNUSED
           then set_task i (\<lambda>t. t\<lparr>time_slice := ticks, ticks_left := ticks\<rparr>) k else k)
         (k\<lparr>scheduler_quantum := ticks\<rparr>))"

record task_info =
  ti_pid :: int
  ti_ppid :: int
  ti_state :: task_state
  ti_runtime_ticks :: u64
  ti_context_switches :: u64
  ti_name :: cstr

definition task_get_processes :: "kernel \<Rightarrow> int \<Rightarrow> int \<times> task_info list" where
  "task_get_processes k capacity =
     (if capacity < 0 then (-1, [])
      else let entries = take (nat capacity)
             (map (\<lambda>t. \<lparr>ti_pid = t_pid t, ti_ppid = t_ppid t, ti_state = t_state t, ti_runtime_ticks = runtime_ticks t,
                       ti_context_switches = context_switches t, ti_name = copy_name (Some (t_name t))\<rparr>)
               (filter (\<lambda>t. t_state t \<noteq> TASK_UNUSED) (map (task_at k) [0..<MAX_TASKS])))
        in (int (length entries), entries))"

section \<open>The static variables\<close>

text \<open>Their values before start-up; the other components are the machine's.\<close>

definition zero_task :: task where
  "zero_task =
     \<lparr>t_ctx = \<lparr>ctx_ra = 0, ctx_sp = 0, ctx_s = replicate 12 0\<rparr>,
      trap_ctx = \<lparr>tc_regs = replicate 32 0, tc_epc = 0, tc_status = 0, tc_satp = 0\<rparr>,
      t_stack = 0, t_state = TASK_UNUSED, t_pid = 0, t_ppid = 0, exit_code = 0, wait_target = 0, wait_channel = None,
      time_slice = 0, ticks_left = 0, created_order = 0, ready_order = 0, runtime_ticks = 0, context_switches = 0,
      cwd_inode = 0, has_user_space = False, address_space = zero_space, t_name = []\<rparr>"

definition boot_kernel :: "u64 \<Rightarrow> kcontext \<Rightarrow> csr \<Rightarrow> clint \<Rightarrow> mem_state \<Rightarrow> kernel_tables \<Rightarrow> fs \<Rightarrow> console \<Rightarrow> kernel" where
  "boot_kernel stacks live c cl m g s con =
     \<lparr>tasks = replicate MAX_TASKS zero_task, current = None, task_count = 0, next_pid = 1, order_counter = 0,
      scheduler_policy = SCHED_RR, scheduler_quantum = 1, switch_samples = 0, max_switch_ticks = 0,
      task_stacks = stacks, live_ctx = live, k_csr = c, k_clint = cl, k_mem = m, k_tables = g, k_fs = s, k_con = con,
      tick_count = 0, timer_interval = 50000, timeslice_ms = 10, trap_silent = False, halted = False,
      dirent_buffer = replicate 8192 0, process_buffer = replicate 768 0\<rparr>"

end
