(* ===== verification/Os_Task_Inv.thy ===== *)
theory Os_Task_Inv
  imports Os_Task
begin

text \<open>
  The invariant of the task table, its preservation by every operation, and the histories of the
  scheduler.
\<close>

section \<open>Lookups after updates\<close>

named_theorems task_simps

lemma set_task_simps [simp]:
  "length (tasks (set_task i f k)) = length (tasks k)"
  "current (set_task i f k) = current k" "task_count (set_task i f k) = task_count k"
  "next_pid (set_task i f k) = next_pid k" "order_counter (set_task i f k) = order_counter k"
  "scheduler_policy (set_task i f k) = scheduler_policy k" "scheduler_quantum (set_task i f k) = scheduler_quantum k"
  "task_stacks (set_task i f k) = task_stacks k" "k_csr (set_task i f k) = k_csr k" "k_fs (set_task i f k) = k_fs k"
  "k_mem (set_task i f k) = k_mem k" "k_con (set_task i f k) = k_con k" "k_clint (set_task i f k) = k_clint k"
  "k_tables (set_task i f k) = k_tables k" "live_ctx (set_task i f k) = live_ctx k"
  by (simp_all add: set_task_def)

lemma task_at_set [simp]:
  "i < length (tasks k) \<Longrightarrow> task_at (set_task i f k) j = (if j = i then f (task_at k i) else task_at k j)"
  by (simp add: task_at_def set_task_def nth_list_update)

lemma task_at_update [simp]:
  "task_at (k\<lparr>current := c\<rparr>) = task_at k" "task_at (k\<lparr>task_count := n\<rparr>) = task_at k"
  "task_at (k\<lparr>next_pid := p\<rparr>) = task_at k" "task_at (k\<lparr>order_counter := u\<rparr>) = task_at k"
  "task_at (k\<lparr>switch_samples := u\<rparr>) = task_at k" "task_at (k\<lparr>max_switch_ticks := u\<rparr>) = task_at k"
  "task_at (k\<lparr>scheduler_policy := pol\<rparr>) = task_at k" "task_at (k\<lparr>scheduler_quantum := q\<rparr>) = task_at k"
  "task_at (k\<lparr>k_csr := cs\<rparr>) = task_at k" "task_at (k\<lparr>k_mem := m\<rparr>) = task_at k" "task_at (k\<lparr>k_fs := s\<rparr>) = task_at k"
  "task_at (k\<lparr>k_con := con\<rparr>) = task_at k" "task_at (k\<lparr>live_ctx := l\<rparr>) = task_at k" "task_at (k\<lparr>k_clint := cl\<rparr>) = task_at k"
  "task_at (k\<lparr>tick_count := tk\<rparr>) = task_at k" "task_at (k\<lparr>timer_interval := ti\<rparr>) = task_at k"
  "task_at (k\<lparr>timeslice_ms := ms\<rparr>) = task_at k" "task_at (k\<lparr>trap_silent := b\<rparr>) = task_at k" "task_at (k\<lparr>halted := b\<rparr>) = task_at k"
  "task_at (k\<lparr>dirent_buffer := bs\<rparr>) = task_at k" "task_at (k\<lparr>process_buffer := bs\<rparr>) = task_at k" "task_at (k\<lparr>k_tables := g\<rparr>) = task_at k"
  by (simp_all add: task_at_def fun_eq_iff)

section \<open>The invariant\<close>

abbreviation used_task :: "task \<Rightarrow> bool" where "used_task t \<equiv> t_state t \<noteq> TASK_UNUSED"
abbreviation live_task :: "task \<Rightarrow> bool" where "live_task t \<equiv> t_state t \<noteq> TASK_UNUSED \<and> t_state t \<noteq> TASK_ZOMBIE"

text \<open>One used slot: its stack, its process id, its saved frame, and a live parent for all but the idle task.\<close>

definition slot_ok :: "kernel \<Rightarrow> nat \<Rightarrow> bool" where
  "slot_ok k i \<longleftrightarrow>
     (let t = task_at k i
      in t_stack t = (if i = 0 then 0 else stack_of k i) \<and>
         (if i = 0 then t_pid t = 0 else 0 < t_pid t \<and> t_pid t < next_pid k) \<and>
         0 < time_slice t \<and>
         (t_state t = TASK_RUNNING \<longrightarrow> current k = Some i) \<and>
         length (tc_regs (trap_ctx t)) = 32 \<and>
         (0 < i \<longrightarrow> (\<exists>p < 16. live_task (task_at k p) \<and> t_pid (task_at k p) = t_ppid t)))"

definition task_ok :: "kernel \<Rightarrow> bool" where
  "task_ok k \<longleftrightarrow>
     length (tasks k) = 16 \<and>
     (\<exists>c < 16. current k = Some c \<and> used_task (task_at k c)) \<and>
     (t_state (task_at k 0) = TASK_READY \<or> t_state (task_at k 0) = TASK_RUNNING) \<and>
     task_count k = int (card {i. i < 16 \<and> used_task (task_at k i)}) \<and>
     0 < next_pid k \<and> next_pid k \<le> INT_MAX \<and> 0 < scheduler_quantum k \<and>
     (\<forall>i < 16. used_task (task_at k i) \<longrightarrow> slot_ok k i) \<and>
     (\<forall>i < 16. \<forall>j < 16. used_task (task_at k i) \<longrightarrow> used_task (task_at k j) \<longrightarrow>
        t_pid (task_at k i) = t_pid (task_at k j) \<longrightarrow> i = j)"

text \<open>A change of a slot that does not matter to the other slots.\<close>

definition kept :: "kernel \<Rightarrow> kernel \<Rightarrow> nat \<Rightarrow> bool" where
  "kept k k' i \<longleftrightarrow>
     (let t = task_at k i; t' = task_at k' i
      in t_stack t' = t_stack t \<and> t_pid t' = t_pid t \<and> (used_task t' \<longleftrightarrow> used_task t) \<and>
         (t_state t' = TASK_ZOMBIE \<longleftrightarrow> t_state t = TASK_ZOMBIE) \<and> t_ppid t' = t_ppid t \<and>
         (0 < time_slice t \<longrightarrow> 0 < time_slice t') \<and>
         (length (tc_regs (trap_ctx t)) = 32 \<longrightarrow> length (tc_regs (trap_ctx t')) = 32) \<and>
         (t_state t' = TASK_RUNNING \<longrightarrow> current k' = Some i))"

lemma task_ok_kept:
  assumes "task_ok k" "length (tasks k') = 16" "\<And>i. i < 16 \<Longrightarrow> kept k k' i"
    "\<exists>c < 16. current k' = Some c \<and> used_task (task_at k c)"
    "task_count k' = task_count k" "next_pid k' = next_pid k" "task_stacks k' = task_stacks k"
    "0 < scheduler_quantum k'"
    "t_state (task_at k' 0) = TASK_READY \<or> t_state (task_at k' 0) = TASK_RUNNING"
  shows "task_ok k'"
proof -
  note kept = assms(3) [unfolded kept_def Let_def]
  have used: "used_task (task_at k' i) \<longleftrightarrow> used_task (task_at k i)" if "i < 16" for i using kept [OF that] by simp
  have set: "{i. i < 16 \<and> used_task (task_at k' i)} = {i. i < 16 \<and> used_task (task_at k i)}" using used by auto
  have slot: "slot_ok k' i" if i: "i < 16" "used_task (task_at k' i)" for i
  proof -
    have s: "slot_ok k i" using assms(1) i used by (simp add: task_ok_def)
    have "\<exists>p < 16. live_task (task_at k' p) \<and> t_pid (task_at k' p) = t_ppid (task_at k' i)" if "0 < i"
    proof -
      obtain p where p: "p < 16" "live_task (task_at k p)" "t_pid (task_at k p) = t_ppid (task_at k i)"
        using s \<open>0 < i\<close> unfolding slot_ok_def Let_def by blast
      have "live_task (task_at k' p)" using kept [OF p(1)] p(2) by argo
      moreover have "t_pid (task_at k' p) = t_ppid (task_at k' i)" using kept [OF p(1)] kept [OF i(1)] p(3) by argo
      ultimately show ?thesis using p(1) by blast
    qed
    then show ?thesis using s kept [OF i(1)] assms(6,7) i used
      by (cases "i = 0") (simp_all add: slot_ok_def Let_def stack_of_def)
  qed
  have pids: "t_pid (task_at k' i) = t_pid (task_at k i)" if "i < 16" for i using kept [OF that] by simp
  show ?thesis unfolding task_ok_def
  proof (intro conjI)
    show "\<exists>c < 16. current k' = Some c \<and> used_task (task_at k' c)" using assms(4) used by auto
    show "task_count k' = int (card {i. i < 16 \<and> used_task (task_at k' i)})"
      using assms(1,5) unfolding set by (simp add: task_ok_def)
    show "\<forall>i < 16. \<forall>j < 16. used_task (task_at k' i) \<longrightarrow> used_task (task_at k' j) \<longrightarrow>
        t_pid (task_at k' i) = t_pid (task_at k' j) \<longrightarrow> i = j"
      using assms(1) used pids by (simp add: task_ok_def)
    show "\<forall>i < 16. used_task (task_at k' i) \<longrightarrow> slot_ok k' i" using slot by simp
    show "0 < next_pid k'" "next_pid k' \<le> INT_MAX" using assms(1,6) by (simp_all add: task_ok_def)
  qed (use assms in simp_all)
qed

section \<open>The scheduler's choice\<close>

abbreviation ready :: "kernel \<Rightarrow> nat \<Rightarrow> bool" where
  "ready k i \<equiv> t_state (task_at k i) = TASK_READY"

text \<open>The number of slots from the one after the current task to slot \<open>j\<close>, going round.\<close>

definition distance :: "kernel \<Rightarrow> nat \<Rightarrow> nat" where
  "distance k j = (j + 15 - (case current k of None \<Rightarrow> 15 | Some c \<Rightarrow> c)) mod 16"

lemma distance_less: "distance k j < 16"
  by (simp add: distance_def)

lemma mod_16: "n < 32 \<Longrightarrow> n mod 16 = (if n < 16 then n else n - 16)" for n :: nat
  by (simp add: mod_if)

lemma round_index:
  fixes i c j :: nat assumes "c < 16" "j < 16" "i < 16"
  shows "((c + 1) mod 16 + i) mod 16 = j \<longleftrightarrow> i = (j + 15 - c) mod 16"
proof -
  have "((c + 1) mod 16 + i) mod 16 = (c + 1 + i) mod 16" by (rule mod_add_left_eq)
  also have "\<dots> = (if c + 1 + i < 16 then c + 1 + i else c + 1 + i - 16)" by (rule mod_16) (use assms in simp)
  finally have 1: "((c + 1) mod 16 + i) mod 16 = (if c + 1 + i < 16 then c + 1 + i else c + 1 + i - 16)" .
  have 2: "(j + 15 - c) mod 16 = (if j + 15 - c < 16 then j + 15 - c else j + 15 - c - 16)"
    by (rule mod_16) (use assms in simp)
  show ?thesis unfolding 1 2 using assms by (cases "c + 1 + i < 16"; cases "j + 15 - c < 16") auto
qed

lemma round_less: "((c :: nat) + i) mod 16 < 16"
  by simp

lemma select_rr_Some:
  assumes "\<And>c. current k = Some c \<Longrightarrow> c < 16" "select_rr k = Some n"
  shows "n < 16 \<and> ready k n \<and> (\<forall>j < 16. ready k j \<longrightarrow> distance k n \<le> distance k j)"
proof -
  define s where "s = (case current k of None \<Rightarrow> 0 | Some c \<Rightarrow> (c + 1) mod 16)"
  obtain i where i: "i < 16" "ready k ((s + i) mod 16)" "\<forall>i' < i. \<not> ready k ((s + i') mod 16)" "n = (s + i) mod 16"
    using assms(2) by (auto simp: select_rr_def Let_def s_def first_index_Some)
  have dist: "i' = distance k ((s + i') mod 16)" if "i' < 16" for i'
  proof (cases "current k")
    case (Some c)
    then show ?thesis using that assms(1) round_index [of c "(s + i') mod 16" i'] by (simp add: distance_def s_def)
  qed (use that in \<open>simp add: distance_def s_def\<close>)
  have inv_dist: "(s + distance k j) mod 16 = j" if "j < 16" for j
    using that assms(1) round_index [of _ j "distance k j"] distance_less [of k j]
    by (auto simp: distance_def s_def split: option.splits)
  have "distance k n \<le> distance k j" if "j < 16" "ready k j" for j
    using i(3) inv_dist [OF that(1)] that(2) dist [OF i(1)] i(4) by (metis not_le)
  then show ?thesis using i by simp
qed

lemma select_rr_None:
  assumes "\<And>c. current k = Some c \<Longrightarrow> c < 16" "select_rr k = None" "j < 16"
  shows "\<not> ready k j"
proof -
  define s where "s = (case current k of None \<Rightarrow> 0 | Some c \<Rightarrow> (c + 1) mod 16)"
  have "(s + distance k j) mod 16 = j"
    using assms(1,3) round_index [of _ j "distance k j"] distance_less [of k j]
    by (auto simp: distance_def s_def split: option.splits)
  then show ?thesis using assms(2) distance_less [of k j] by (auto simp: select_rr_def Let_def s_def first_index_None)
qed

definition best_of :: "kernel \<Rightarrow> nat \<Rightarrow> nat option \<Rightarrow> bool" where
  "best_of k m b \<longleftrightarrow>
     (case b of None \<Rightarrow> \<forall>i < m. \<not> ready k i
      | Some n \<Rightarrow> n < m \<and> ready k n \<and> (\<forall>i < m. ready k i \<longrightarrow> ready_order (task_at k n) \<le> ready_order (task_at k i)) \<and>
          (\<forall>i < n. ready k i \<longrightarrow> ready_order (task_at k n) < ready_order (task_at k i)))"

lemma best_of_better: "best_of k m b \<Longrightarrow> best_of k (Suc m) (better k m b)"
  by (cases b) (auto simp: best_of_def better_def less_Suc_eq)

lemma select_fcfs_best: "best_of k 16 (select_fcfs k)"
proof -
  have "best_of k m (for_each m (better k) None)" for m
    by (induction m) (simp_all add: best_of_def [of k 0] for_each_Suc best_of_better)
  then show ?thesis by (simp add: select_fcfs_def)
qed

lemma select_next_Some:
  assumes "\<And>c. current k = Some c \<Longrightarrow> c < 16" "select_next k = Some n" shows "n < 16" "ready k n"
  using assms select_rr_Some [of k n] select_fcfs_best [of k] by (auto simp: select_next_def best_of_def split: if_splits)

lemma select_next_None:
  assumes "\<And>c. current k = Some c \<Longrightarrow> c < 16" "select_next k = None" "j < 16" shows "\<not> ready k j"
  using assms select_rr_None [of k j] select_fcfs_best [of k] by (auto simp: select_next_def best_of_def split: if_splits)


text \<open>A concrete kernel for examples: the idle task after start-up, on an empty machine.\<close>

definition sample_boot :: kernel where
  "sample_boot = boot_kernel 0x80100000 \<lparr>ctx_ra = 0, ctx_sp = 0, ctx_s = replicate 12 0\<rparr> (\<lambda>_. 0) clint_init boot_mem
     \<lparr>kernel_l2 = 0, kernel_l1_dram = 0, kernel_l1_mmio = 0\<rparr>
     \<lparr>fs_disk = \<lambda>_. replicate 512 0, open_files = replicate MINIFS_MAX_OPEN_FILES empty_ofd,
      fd_tables = replicate MINIFS_MAX_PROCESSES empty_fds, block_buffer = replicate 512 0,
      indirect_buffer = replicate 512 0, bitmap_buffer = replicate 2048 0\<rparr> \<lparr>con_in = [], con_out = []\<rparr>"


section \<open>Preservation: switching\<close>

lemma task_ok_frame [simp]:
  "task_ok (k\<lparr>order_counter := u\<rparr>) = task_ok k" "task_ok (k\<lparr>switch_samples := u\<rparr>) = task_ok k"
  "task_ok (k\<lparr>max_switch_ticks := u\<rparr>) = task_ok k" "task_ok (k\<lparr>scheduler_policy := pol\<rparr>) = task_ok k"
  "task_ok (k\<lparr>k_csr := cs\<rparr>) = task_ok k" "task_ok (k\<lparr>k_mem := m\<rparr>) = task_ok k" "task_ok (k\<lparr>k_fs := s\<rparr>) = task_ok k"
  "task_ok (k\<lparr>k_con := con\<rparr>) = task_ok k" "task_ok (k\<lparr>live_ctx := l\<rparr>) = task_ok k" "task_ok (k\<lparr>k_clint := cl\<rparr>) = task_ok k"
  "task_ok (k\<lparr>tick_count := tk\<rparr>) = task_ok k" "task_ok (k\<lparr>timer_interval := ti\<rparr>) = task_ok k"
  "task_ok (k\<lparr>timeslice_ms := ms\<rparr>) = task_ok k" "task_ok (k\<lparr>trap_silent := b\<rparr>) = task_ok k" "task_ok (k\<lparr>halted := b\<rparr>) = task_ok k"
  "task_ok (k\<lparr>dirent_buffer := bs\<rparr>) = task_ok k" "task_ok (k\<lparr>process_buffer := bs\<rparr>) = task_ok k" "task_ok (k\<lparr>k_tables := g\<rparr>) = task_ok k"
  by (simp_all add: task_ok_def slot_ok_def stack_of_def)

lemma trap_write_simps [simp]:
  "task_at (trap_write a v k) = task_at k" "tasks (trap_write a v k) = tasks k" "current (trap_write a v k) = current k"
  "task_ok (trap_write a v k) = task_ok k" "scheduler_policy (trap_write a v k) = scheduler_policy k"
  "task_count (trap_write a v k) = task_count k" "k_fs (trap_write a v k) = k_fs k" "k_mem (trap_write a v k) = k_mem k"
  by (simp_all add: trap_write_def)

lemma task_okD:
  assumes "task_ok k"
  shows "length (tasks k) = 16" "0 < next_pid k" "0 < scheduler_quantum k"
    "t_state (task_at k 0) = TASK_READY \<or> t_state (task_at k 0) = TASK_RUNNING"
    "\<And>i. i < 16 \<Longrightarrow> used_task (task_at k i) \<Longrightarrow> slot_ok k i"
    "\<And>i j. i < 16 \<Longrightarrow> j < 16 \<Longrightarrow> used_task (task_at k i) \<Longrightarrow> used_task (task_at k j) \<Longrightarrow>
       t_pid (task_at k i) = t_pid (task_at k j) \<Longrightarrow> i = j"
    "task_count k = int (card {i. i < 16 \<and> used_task (task_at k i)})" "next_pid k \<le> INT_MAX"
  using assms by (simp_all add: task_ok_def)

lemma task_ok_current:
  assumes "task_ok k" obtains c where "current k = Some c" "c < 16" "used_task (task_at k c)"
  using assms by (auto simp: task_ok_def)

lemma task_ok_running:
  assumes "task_ok k" "i < 16" "t_state (task_at k i) = TASK_RUNNING" shows "current k = Some i"
  using task_okD(5) [OF assms(1,2)] assms(3) by (simp add: slot_ok_def Let_def)

lemma task_ok_set:
  assumes "task_ok k" "i < 16"
    "let t = task_at k i; t' = f t
     in t_stack t' = t_stack t \<and> t_pid t' = t_pid t \<and> (used_task t' \<longleftrightarrow> used_task t) \<and>
        (t_state t' = TASK_ZOMBIE \<longleftrightarrow> t_state t = TASK_ZOMBIE) \<and>
        t_ppid t' = t_ppid t \<and> (0 < time_slice t \<longrightarrow> 0 < time_slice t') \<and>
        (length (tc_regs (trap_ctx t)) = 32 \<longrightarrow> length (tc_regs (trap_ctx t')) = 32) \<and>
        (t_state t' = TASK_RUNNING \<longrightarrow> current k = Some i) \<and>
        (i = 0 \<longrightarrow> t_state t' = TASK_READY \<or> t_state t' = TASK_RUNNING)"
  shows "task_ok (set_task i f k)"
proof (rule task_ok_kept [OF assms(1)])
  note l = task_okD(1) [OF assms(1)]
  show "kept k (set_task i f k) j" if j: "j < 16" for j
  proof (cases "j = i")
    case True
    then show ?thesis using assms l by (simp add: kept_def Let_def)
  next
    case False
    then show ?thesis using assms l j task_ok_running [OF assms(1) j] by (simp add: kept_def Let_def)
  qed
  show "\<exists>c < 16. current (set_task i f k) = Some c \<and> used_task (task_at k c)"
    using task_ok_current [OF assms(1)] by (metis set_task_simps(2))
  show "t_state (task_at (set_task i f k) 0) = TASK_READY \<or> t_state (task_at (set_task i f k) 0) = TASK_RUNNING"
    using assms l task_okD(4) [OF assms(1)] by (simp add: Let_def)
qed (use task_okD [OF assms(1)] in simp_all)

lemma make_ready_ok:
  assumes "task_ok k" "i < 16" "live_task (task_at k i)" shows "task_ok (make_ready i k)"
proof -
  have "task_ok (set_task i (\<lambda>t. t\<lparr>t_state := TASK_READY, ready_order := order_counter k + 1\<rparr>) (k\<lparr>order_counter := order_counter k + 1\<rparr>))"
    by (rule task_ok_set) (use assms in \<open>simp_all add: Let_def\<close>)
  then show ?thesis by (simp add: make_ready_def Let_def)
qed

lemma start_task_ok:
  assumes "task_ok k" "n < 16" "live_task (task_at k n)" "\<And>i. i < 16 \<Longrightarrow> i \<noteq> n \<Longrightarrow> t_state (task_at k i) \<noteq> TASK_RUNNING"
  shows "task_ok (start_task n k)"
proof (rule task_ok_kept [OF assms(1)])
  note l = task_okD(1) [OF assms(1)]
  show "kept k (start_task n k) j" if "j < 16" for j
    using assms l that by (cases "j = n") (simp_all add: kept_def Let_def start_task_def)
  show "t_state (task_at (start_task n k) 0) = TASK_READY \<or> t_state (task_at (start_task n k) 0) = TASK_RUNNING"
    using assms l task_okD(4) [OF assms(1)] assms(4) [of 0] by (cases "n = 0") (auto simp: start_task_def)
qed (use assms task_okD [OF assms(1)] in \<open>simp_all add: start_task_def\<close>)

lemma restore_csr: "\<exists>c. restore_trap_context i k = (tc_regs (trap_ctx (task_at k i)), k\<lparr>k_csr := c\<rparr>)"
  by (simp add: restore_trap_context_def Let_def trap_write_def) blast

lemma save_trap_context_ok:
  assumes "task_ok k" "i < 16" "used_task (task_at k i)" "length tf = 32"
  shows "task_ok (save_trap_context i tf k)"
  unfolding save_trap_context_def
  by (rule task_ok_set) (use assms task_okD(4) [OF assms(1)] task_ok_running [OF assms(1,2)] in \<open>auto simp: Let_def\<close>)

lemma switch_prev:
  assumes "task_ok k" "current k = Some prev" "k1 = (if t_state (task_at k prev) = TASK_RUNNING then make_ready prev k else k)"
  shows "task_ok k1" "prev < 16" "used_task (task_at k prev)" "current k1 = Some prev"
    "\<And>i. i < 16 \<Longrightarrow> t_state (task_at k1 i) \<noteq> TASK_RUNNING"
proof -
  show c: "prev < 16" "used_task (task_at k prev)" using task_ok_current [OF assms(1)] assms(2) by auto
  show ok: "task_ok k1" using assms c make_ready_ok [OF assms(1) c(1)] by simp
  show cur: "current k1 = Some prev" using assms by (simp add: make_ready_def Let_def)
  have "t_state (task_at k1 prev) \<noteq> TASK_RUNNING"
    using assms(3) c task_okD(1) [OF assms(1)] by (simp add: make_ready_def Let_def)
  then show "t_state (task_at k1 i) \<noteq> TASK_RUNNING" if "i < 16" for i
    using task_ok_running [OF ok that] cur by auto
qed

lemma switch_rest_ok:
  assumes "task_ok k" "current k = Some prev"
  shows "task_ok (snd (switch_rest prev tf k))"
proof -
  define k1 where "k1 = (if t_state (task_at k prev) = TASK_RUNNING then make_ready prev k else k)"
  note p = switch_prev [OF assms k1_def]
  show ?thesis
  proof (cases "select_next k1")
    case None
    have "task_ok (set_task prev (\<lambda>t. t\<lparr>t_state := TASK_RUNNING, ticks_left := time_slice t\<rparr>) k1)" if "ready k1 prev"
      by (rule task_ok_set) (use p that in \<open>simp_all add: Let_def\<close>)
    then show ?thesis using None p(1) by (simp add: switch_rest_def Let_def flip: k1_def)
  next
    case (Some n)
    have n: "n < 16" "ready k1 n" using select_next_Some [OF _ Some] p(2,4) by auto
    have "task_ok (start_task n k1)" by (rule start_task_ok) (use p n in auto)
    then show ?thesis using Some restore_csr [of n "start_task n k1"]
      by (auto simp: switch_rest_def Let_def split: prod.splits simp flip: k1_def)
  qed
qed

lemma save_simps [simp]:
  "current (save_trap_context i tf k) = current k" "scheduler_policy (save_trap_context i tf k) = scheduler_policy k"
  "task_count (save_trap_context i tf k) = task_count k"
  by (simp_all add: save_trap_context_def)

lemma switch_from_trap_ok:
  assumes "task_ok k" "length tf = 32" shows "task_ok (snd (switch_from_trap tf force k))"
proof -
  obtain c where c: "current k = Some c" "c < 16" "used_task (task_at k c)" using task_ok_current [OF assms(1)] .
  define k1 where "k1 = save_trap_context c tf k"
  define k2 where "k2 = set_task c (\<lambda>t. t\<lparr>runtime_ticks := runtime_ticks t + 1\<rparr>) k1"
  have 1: "task_ok k1" unfolding k1_def by (rule save_trap_context_ok) (use assms c in simp_all)
  have l: "length (tasks k1) = 16" by (rule task_okD(1) [OF 1])
  have i: "c = 0 \<longrightarrow> ready k1 c \<or> t_state (task_at k1 c) = TASK_RUNNING" using task_okD(4) [OF 1] by simp
  have 2: "task_ok k2" unfolding k2_def
    by (rule task_ok_set [OF 1 c(2)]) (use i task_ok_running [OF 1 c(2)] in \<open>simp add: Let_def\<close>)
  have 3: "task_ok (set_task c (\<lambda>t. t\<lparr>ticks_left := ticks_left t - 1\<rparr>) k2)"
    by (rule task_ok_set [OF 2 c(2)])
      (use i task_ok_running [OF 1 c(2)] l c(2) in \<open>simp add: Let_def k2_def\<close>)
  have cur: "current k1 = Some c" "current k2 = Some c" using c by (simp_all add: k1_def k2_def)
  note r = switch_rest_ok [OF 1 cur(1), of tf] switch_rest_ok [OF 2 cur(2), of tf]
  show ?thesis
    using assms(1) c(1) 1 2 3 r
    by (simp add: switch_from_trap_def Let_def flip: k1_def k2_def)
qed

lemma timed_switch_ok: "task_ok k \<Longrightarrow> length tf = 32 \<Longrightarrow> task_ok (snd (timed_switch now tf force k))"
  using switch_from_trap_ok [of k tf force] by (auto simp: timed_switch_def Let_def split: prod.splits)

lemma yield_ok:
  assumes "task_ok k" "task_current_state k = TASK_RUNNING"
  shows "task_ok (yield k)"
proof -
  obtain prev where c: "current k = Some prev" using task_ok_current [OF assms(1)] .
  define k1 where "k1 = (if t_state (task_at k prev) = TASK_RUNNING then make_ready prev k else k)"
  note p = switch_prev [OF assms(1) c k1_def]
  have run: "t_state (task_at k prev) = TASK_RUNNING" using assms c by (simp add: task_current_state_def)
  have live: "live_task (task_at k1 prev)"
    using run p(2) task_okD(1) [OF assms(1)] by (simp add: k1_def make_ready_def Let_def)
  have "task_ok (set_task prev (\<lambda>t. t\<lparr>t_state := TASK_RUNNING\<rparr>) k1)"
    by (rule task_ok_set) (use p live in \<open>simp_all add: Let_def\<close>)
  moreover have "task_ok (switch_to prev n (start_task n k1))" if "select_next k1 = Some n" for n
  proof -
    have n: "n < 16" "ready k1 n" using select_next_Some [OF _ that] p(2,4) by auto
    have s: "task_ok (start_task n k1)" by (rule start_task_ok) (use p n in auto)
    have "task_ok (set_task prev (\<lambda>t. t\<lparr>t_ctx := live_ctx (start_task n k1)\<rparr>) (start_task n k1))"
      by (rule task_ok_set [OF s p(2)])
        (use task_ok_running [OF s p(2)] task_okD(4) [OF s] in \<open>auto simp: Let_def\<close>)
    then show ?thesis by (simp add: switch_to_def Let_def)
  qed
  ultimately show ?thesis using assms(1) c
    by (auto simp: yield_def Let_def split: option.splits simp flip: k1_def)
qed

section \<open>Preservation: creation and termination\<close>

text \<open>Slots outside use do not matter, and process ids may be skipped.\<close>

lemma task_ok_same:
  assumes "task_ok k" "length (tasks k') = 16" "\<And>i. i < 16 \<Longrightarrow> used_task (task_at k i) \<Longrightarrow> task_at k' i = task_at k i"
    "\<And>i. i < 16 \<Longrightarrow> \<not> used_task (task_at k i) \<Longrightarrow> \<not> used_task (task_at k' i)"
    "current k' = current k" "task_count k' = task_count k" "next_pid k \<le> next_pid k'" "task_stacks k' = task_stacks k"
    "0 < scheduler_quantum k'" "next_pid k' \<le> INT_MAX"
  shows "task_ok k'"
proof -
  have used: "used_task (task_at k' i) \<longleftrightarrow> used_task (task_at k i)" if "i < 16" for i using assms(3,4) [OF that] by metis
  then have set: "{i. i < 16 \<and> used_task (task_at k' i)} = {i. i < 16 \<and> used_task (task_at k i)}" by auto
  have slot: "slot_ok k' i" if i: "i < 16" "used_task (task_at k' i)" for i
  proof -
    have s: "slot_ok k i" using task_okD(5) [OF assms(1) i(1)] i used by simp
    have "\<exists>p < 16. live_task (task_at k' p) \<and> t_pid (task_at k' p) = t_ppid (task_at k' i)" if "0 < i"
    proof -
      obtain p where "p < 16" "live_task (task_at k p)" "t_pid (task_at k p) = t_ppid (task_at k i)"
        using s \<open>0 < i\<close> unfolding slot_ok_def Let_def by blast
      then show ?thesis using assms(3) [of p] assms(3) [of i] i used by metis
    qed
    then show ?thesis using s assms(3) [of i] assms(5,7,8) i used
      by (cases "i = 0") (simp_all add: slot_ok_def Let_def stack_of_def)
  qed
  have zero: "t_state (task_at k' 0) = TASK_READY \<or> t_state (task_at k' 0) = TASK_RUNNING"
    using task_okD(4) [OF assms(1)] assms(3) [of 0] by auto
  have cur: "\<exists>c < 16. current k' = Some c \<and> used_task (task_at k' c)"
    using task_ok_current [OF assms(1)] assms(5) used by metis
  show ?thesis unfolding task_ok_def set
  proof (intro conjI cur zero)
    show "\<forall>i < 16. used_task (task_at k' i) \<longrightarrow> slot_ok k' i" using slot by simp
    show "\<forall>i < 16. \<forall>j < 16. used_task (task_at k' i) \<longrightarrow> used_task (task_at k' j) \<longrightarrow>
        t_pid (task_at k' i) = t_pid (task_at k' j) \<longrightarrow> i = j"
      using task_okD(6) [OF assms(1)] assms(3) used by simp
  qed (use assms task_okD [OF assms(1)] in simp_all)
qed

lemma task_ok_add:
  assumes "task_ok k" "length (tasks k') = 16" "slot < 16" "1 \<le> slot" "\<not> used_task (task_at k slot)"
    "\<And>i. i < 16 \<Longrightarrow> i \<noteq> slot \<Longrightarrow> task_at k' i = task_at k i"
    "t_state (task_at k' slot) = TASK_READY" "t_stack (task_at k' slot) = stack_of k slot"
    "t_pid (task_at k' slot) = next_pid k" "0 < time_slice (task_at k' slot)"
    "length (tc_regs (trap_ctx (task_at k' slot))) = 32"
    "p < 16" "live_task (task_at k p)" "t_ppid (task_at k' slot) = t_pid (task_at k p)"
    "current k' = current k" "task_count k' = task_count k + 1" "next_pid k' = next_pid k + 1"
    "task_stacks k' = task_stacks k" "0 < scheduler_quantum k'" "next_pid k < INT_MAX"
  shows "task_ok k'"
proof -
  let ?U = "\<lambda>k. {i. i < 16 \<and> used_task (task_at k i)}"
  have "i \<in> ?U k' \<longleftrightarrow> i \<in> insert slot (?U k)" for i by (cases "i = slot") (use assms(3,5,6,7) in auto)
  then have set: "?U k' = insert slot (?U k)" by blast
  have card: "card (?U k') = card (?U k) + 1" unfolding set using assms(5) by simp
  have fresh: "t_pid (task_at k i) < next_pid k" if "i < 16" "used_task (task_at k i)" for i
    using task_okD(2,5) [OF assms(1)] that by (cases "i = 0") (auto simp: slot_ok_def Let_def)
  have slot: "slot_ok k' i" if i: "i < 16" "used_task (task_at k' i)" for i
  proof (cases "i = slot")
    case True
    have "p \<noteq> slot" using assms(5,13) by auto
    then have "live_task (task_at k' p) \<and> t_pid (task_at k' p) = t_ppid (task_at k' i)" using True assms by simp
    then show ?thesis using True assms task_okD(2) [OF assms(1)] by (auto simp: slot_ok_def Let_def stack_of_def)
  next
    case False
    then have t: "task_at k' i = task_at k i" using assms(6) i by simp
    then have s: "slot_ok k i" using task_okD(5) [OF assms(1) i(1)] i by simp
    have "\<exists>p < 16. live_task (task_at k' p) \<and> t_pid (task_at k' p) = t_ppid (task_at k' i)" if "0 < i"
    proof -
      obtain p where p: "p < 16" "live_task (task_at k p)" "t_pid (task_at k p) = t_ppid (task_at k i)"
        using s \<open>0 < i\<close> unfolding slot_ok_def Let_def by blast
      then have "p \<noteq> slot" using assms(5) by auto
      then show ?thesis using p t assms(6) by metis
    qed
    then show ?thesis using s t assms(15,17,18) by (cases "i = 0") (simp_all add: slot_ok_def Let_def stack_of_def)
  qed
  have zero: "t_state (task_at k' 0) = TASK_READY \<or> t_state (task_at k' 0) = TASK_RUNNING"
    using task_okD(4) [OF assms(1)] assms(4,6) by simp
  have cur: "\<exists>c < 16. current k' = Some c \<and> used_task (task_at k' c)"
    using task_ok_current [OF assms(1)] assms(5,6,15) by metis
  have pids: "i = j" if ij: "i < 16" "j < 16" "used_task (task_at k' i)" "used_task (task_at k' j)"
    "t_pid (task_at k' i) = t_pid (task_at k' j)" for i j
  proof (cases "i = slot \<or> j = slot")
    case True
    then show ?thesis using ij fresh [of i] fresh [of j] assms(6,9) by (metis less_irrefl)
  next
    case False
    then show ?thesis using ij task_okD(6) [OF assms(1) ij(1,2)] assms(6) by simp
  qed
  show ?thesis unfolding task_ok_def card
  proof (intro conjI cur zero)
    show "\<forall>i < 16. used_task (task_at k' i) \<longrightarrow> slot_ok k' i" using slot by simp
    show "\<forall>i < 16. \<forall>j < 16. used_task (task_at k' i) \<longrightarrow> used_task (task_at k' j) \<longrightarrow>
        t_pid (task_at k' i) = t_pid (task_at k' j) \<longrightarrow> i = j" using pids by simp
  qed (use assms task_okD [OF assms(1)] in simp_all)
qed

lemma task_ok_remove:
  assumes "task_ok k" "length (tasks k') = 16" "slot < 16" "1 \<le> slot" "t_state (task_at k slot) = TASK_ZOMBIE"
    "\<And>i. i < 16 \<Longrightarrow> i \<noteq> slot \<Longrightarrow> task_at k' i = task_at k i" "\<not> used_task (task_at k' slot)"
    "current k \<noteq> Some slot" "current k' = current k" "task_count k' = task_count k - 1" "next_pid k' = next_pid k"
    "task_stacks k' = task_stacks k" "0 < scheduler_quantum k'"
  shows "task_ok k'"
proof -
  let ?U = "\<lambda>k. {i. i < 16 \<and> used_task (task_at k i)}"
  have "i \<in> ?U k \<longleftrightarrow> i \<in> insert slot (?U k')" for i by (cases "i = slot") (use assms(3,5,6,7) in auto)
  then have set: "?U k = insert slot (?U k')" by blast
  have card: "int (card (?U k)) = int (card (?U k')) + 1" unfolding set using assms(7) by simp
  have same: "i \<noteq> slot \<and> task_at k' i = task_at k i" if "i < 16" "used_task (task_at k' i)" for i
    using that assms(6,7) by auto
  have slot: "slot_ok k' i" if i: "i < 16" "used_task (task_at k' i)" for i
  proof -
    have t: "task_at k' i = task_at k i" using same [OF i] by simp
    then have s: "slot_ok k i" using task_okD(5) [OF assms(1) i(1)] i by simp
    have "\<exists>p < 16. live_task (task_at k' p) \<and> t_pid (task_at k' p) = t_ppid (task_at k' i)" if "0 < i"
    proof -
      obtain p where p: "p < 16" "live_task (task_at k p)" "t_pid (task_at k p) = t_ppid (task_at k i)"
        using s \<open>0 < i\<close> unfolding slot_ok_def Let_def by blast
      then have "p \<noteq> slot" using assms(5) by auto
      then show ?thesis using p t assms(6) by metis
    qed
    then show ?thesis using s t assms(9,11,12) by (cases "i = 0") (simp_all add: slot_ok_def Let_def stack_of_def)
  qed
  have zero: "t_state (task_at k' 0) = TASK_READY \<or> t_state (task_at k' 0) = TASK_RUNNING"
    using task_okD(4) [OF assms(1)] assms(4,6) by simp
  have cur: "\<exists>c < 16. current k' = Some c \<and> used_task (task_at k' c)"
    using task_ok_current [OF assms(1)] assms(6,8,9) by metis
  show ?thesis unfolding task_ok_def
  proof (intro conjI cur zero)
    show "\<forall>i < 16. used_task (task_at k' i) \<longrightarrow> slot_ok k' i" using slot by simp
    show "\<forall>i < 16. \<forall>j < 16. used_task (task_at k' i) \<longrightarrow> used_task (task_at k' j) \<longrightarrow>
        t_pid (task_at k' i) = t_pid (task_at k' j) \<longrightarrow> i = j"
      using task_okD(6) [OF assms(1)] same by metis
    show "task_count k' = int (card (?U k'))" using assms(10) card task_okD(7) [OF assms(1)] by simp
  qed (use assms task_okD [OF assms(1)] in simp_all)
qed

text \<open>A process becomes a zombie, and its children pass to the idle task.\<close>

lemma task_ok_zombie:
  assumes "task_ok k" "length (tasks k') = 16" "z < 16" "1 \<le> z" "live_task (task_at k z)"
    "t_state (task_at k' z) = TASK_ZOMBIE"
    "\<And>i. i < 16 \<Longrightarrow> let t = task_at k i; t' = task_at k' i
       in t_stack t' = t_stack t \<and> t_pid t' = t_pid t \<and> (used_task t' \<longleftrightarrow> used_task t) \<and> time_slice t' = time_slice t \<and>
          tc_regs (trap_ctx t') = tc_regs (trap_ctx t) \<and>
          (i \<noteq> z \<longrightarrow> (t_state t' = TASK_ZOMBIE \<longleftrightarrow> t_state t = TASK_ZOMBIE)) \<and>
          (t_state t' = TASK_RUNNING \<longrightarrow> t_state t = TASK_RUNNING) \<and>
          (1 \<le> i \<longrightarrow> used_task t \<longrightarrow> t_ppid t' = (if t_ppid t = t_pid (task_at k z) then 0 else t_ppid t))"
    "t_state (task_at k' 0) = TASK_READY \<or> t_state (task_at k' 0) = TASK_RUNNING"
    "current k' = current k" "task_count k' = task_count k" "next_pid k' = next_pid k"
    "task_stacks k' = task_stacks k" "0 < scheduler_quantum k'"
  shows "task_ok k'"
proof -
  note t = assms(7) [unfolded Let_def]
  have used: "used_task (task_at k' i) \<longleftrightarrow> used_task (task_at k i)" if "i < 16" for i using t [OF that] by argo
  have pid: "t_pid (task_at k' i) = t_pid (task_at k i)" if "i < 16" for i using t [OF that] by argo
  have set: "{i. i < 16 \<and> used_task (task_at k' i)} = {i. i < 16 \<and> used_task (task_at k i)}" using used by auto
  have live: "live_task (task_at k' i)" if "i < 16" "i \<noteq> z" "live_task (task_at k i)" for i using t [OF that(1)] that by argo
  have root: "live_task (task_at k' 0)" "t_pid (task_at k' 0) = 0"
    using assms(8) t [of 0] task_okD(4,5) [OF assms(1)] by (auto simp: slot_ok_def Let_def)
  have slot: "slot_ok k' i" if i: "i < 16" "used_task (task_at k' i)" for i
  proof -
    have s: "slot_ok k i" using task_okD(5) [OF assms(1) i(1)] i used by simp
    have "\<exists>p < 16. live_task (task_at k' p) \<and> t_pid (task_at k' p) = t_ppid (task_at k' i)" if "0 < i"
    proof (cases "t_ppid (task_at k i) = t_pid (task_at k z)")
      case True
      then have "t_ppid (task_at k' i) = 0" using t [OF i(1)] used [OF i(1)] i \<open>0 < i\<close> by simp
      then show ?thesis using root by (intro exI [of _ 0]) simp
    next
      case False
      then have pp: "t_ppid (task_at k' i) = t_ppid (task_at k i)" using t [OF i(1)] used [OF i(1)] i \<open>0 < i\<close> by simp
      obtain p where p: "p < 16" "live_task (task_at k p)" "t_pid (task_at k p) = t_ppid (task_at k i)"
        using s \<open>0 < i\<close> unfolding slot_ok_def Let_def by blast
      then have "p \<noteq> z" using False by auto
      then show ?thesis using p live [of p] pid [of p] pp by auto
    qed
    then show ?thesis using s t [OF i(1)] assms(9,11,12)
      by (cases "i = 0") (simp_all add: slot_ok_def Let_def stack_of_def)
  qed
  have cur: "\<exists>c < 16. current k' = Some c \<and> used_task (task_at k' c)"
    using task_ok_current [OF assms(1)] assms(9) used by metis
  show ?thesis unfolding task_ok_def set
  proof (intro conjI cur assms(8))
    show "\<forall>i < 16. used_task (task_at k' i) \<longrightarrow> slot_ok k' i" using slot by simp
    show "\<forall>i < 16. \<forall>j < 16. used_task (task_at k' i) \<longrightarrow> used_task (task_at k' j) \<longrightarrow>
        t_pid (task_at k' i) = t_pid (task_at k' j) \<longrightarrow> i = j"
      using task_okD(6) [OF assms(1)] used pid by simp
  qed (use assms task_okD [OF assms(1)] in simp_all)
qed

end
