(* ===== verification/Os_Task_Ops.thy ===== *)
theory Os_Task_Ops
  imports Os_Task_Inv
begin

text \<open>
  Every operation of \<^verbatim>\<open>kernel/task.c\<close> keeps the invariant of the task table; histories of operations.
\<close>

section \<open>Preservation: the calls\<close>

lemma free_slot_Some: "free_slot k = Some i \<Longrightarrow> 1 \<le> i \<and> i < 16 \<and> \<not> used_task (task_at k i)"
  by (auto simp: free_slot_def first_index_Some)

lemma running_current:
  assumes "task_ok k" "task_current_state k = TASK_RUNNING"
  obtains c where "current k = Some c" "c < 16" "t_state (task_at k c) = TASK_RUNNING"
proof -
  obtain c where "current k = Some c" "c < 16" using task_ok_current [OF assms(1)] .
  then show thesis using that assms(2) by (simp add: task_current_state_def)
qed

text \<open>A new task, and its withdrawal when the file system has no descriptors for it.\<close>

lemma new_task_ok:
  assumes "task_ok k" "task_current_state k = TASK_RUNNING" "free_slot k = Some slot" "k1 = counted (set_task slot f k)" "next_pid k < INT_MAX"
    "\<And>t. t_state (f t) = TASK_READY \<and> t_stack (f t) = stack_of k slot \<and> t_pid (f t) = next_pid k \<and>
       t_ppid (f t) = task_current_pid k \<and> time_slice (f t) = scheduler_quantum k \<and> length (tc_regs (trap_ctx (f t))) = 32"
  shows "task_ok k1" "(\<And>t. t_state (g t) = TASK_UNUSED) \<Longrightarrow>
    task_ok ((set_task slot g (k1\<lparr>k_fs := s\<rparr>))\<lparr>task_count := task_count k1 - 1\<rparr>)"
proof -
  note s = free_slot_Some [OF assms(3)]
  obtain c where c: "current k = Some c" "c < 16" "t_state (task_at k c) = TASK_RUNNING"
    using running_current [OF assms(1,2)] .
  note l = task_okD [OF assms(1)]
  show "task_ok k1"
    by (rule task_ok_add [OF assms(1), of k1 slot c])
      (use assms(4-6) c s l in \<open>simp_all add: counted_def task_current_pid_def\<close>)
  show "task_ok ((set_task slot g (k1\<lparr>k_fs := s\<rparr>))\<lparr>task_count := task_count k1 - 1\<rparr>)" if "\<And>t. t_state (g t) = TASK_UNUSED"
    by (rule task_ok_same [OF assms(1)])
      (use that assms(4,5) c s l in \<open>auto simp: counted_def\<close>)
qed

text \<open>The two ways to make a task, as one shape.\<close>

definition withdraw :: "nat \<Rightarrow> int \<Rightarrow> int \<times> fs \<Rightarrow> kernel \<Rightarrow> (task \<Rightarrow> task) \<Rightarrow> int \<times> kernel" where
  "withdraw slot pid rs k1 g =
     (if fst rs < 0 then (-1, (set_task slot g (k1\<lparr>k_fs := snd rs\<rparr>))\<lparr>task_count := task_count k1 - 1\<rparr>)
      else (pid, k1\<lparr>k_fs := snd rs\<rparr>))"

definition created :: "u64 \<Rightarrow> cstr option \<Rightarrow> kernel \<Rightarrow> nat \<Rightarrow> task \<Rightarrow> task" where
  "created entry name k slot t =
     (let sp = stack_of k slot + 0x4000
      in (fresh_task k slot t)\<lparr>has_user_space := False, t_name := copy_name name,
           t_ctx := (t_ctx t)\<lparr>ctx_ra := entry, ctx_sp := sp\<rparr>,
           trap_ctx := \<lparr>tc_regs = (replicate 32 0)[2 := sp], tc_epc = entry,
             tc_status = trap_read SSTATUS k OR SSTATUS_SPP OR SSTATUS_SPIE, tc_satp = trap_read SATP k\<rparr>\<rparr>)"

definition forked :: "u64 list \<Rightarrow> u64 \<Rightarrow> task_address_space \<Rightarrow> kernel \<Rightarrow> nat \<Rightarrow> task \<Rightarrow> task" where
  "forked tf child_epc space k slot t =
     (fresh_task k slot t)\<lparr>has_user_space := True, address_space := space, t_name := copy_name (Some (lit ''fork-child'')),
       trap_ctx := \<lparr>tc_regs = (take 32 tf)[10 := 0], tc_epc = child_epc,
         tc_status = trap_read SSTATUS k AND NOT SSTATUS_SPP, tc_satp = as_satp space\<rparr>\<rparr>"

lemma task_create_eq:
  "entry \<noteq> 0 \<Longrightarrow> task_count k < 16 \<Longrightarrow> free_slot k = Some slot \<Longrightarrow>
   task_create entry name k =
     (if next_pid k \<ge> INT_MAX then None else Some (let k1 = counted (set_task slot (created entry name k slot) k)
      in withdraw slot (next_pid k) (minifs_process_init (k_fs k) (next_pid k)) k1
           (\<lambda>t. t\<lparr>t_stack := 0, t_state := TASK_UNUSED\<rparr>)))"
  by (simp add: task_create_def created_def [abs_def] withdraw_def Let_def count_task_def counted_def split: prod.splits)

lemma task_fork_eq:
  "current k = Some c \<Longrightarrow> c \<noteq> slot \<Longrightarrow> length (tasks k) = 16 \<Longrightarrow> task_count k < 16 \<Longrightarrow> free_slot k = Some slot \<Longrightarrow>
   task_fork_from_trap tf epc space k =
     (if next_pid k \<ge> INT_MAX then None else Some (let k1 = counted (set_task slot (forked tf epc space k slot) k)
      in withdraw slot (next_pid k) (minifs_process_fork (k_fs k) (t_pid (task_at k c)) (next_pid k)) k1
           (\<lambda>t. t\<lparr>has_user_space := False, t_stack := 0, t_state := TASK_UNUSED\<rparr>)))"
  using free_slot_Some [of k slot]
  by (simp add: task_fork_from_trap_def forked_def [abs_def] withdraw_def Let_def count_task_def counted_def split: prod.splits)

lemma fresh_simps [simp]:
  "t_state (fresh_task k slot t) = TASK_READY" "t_stack (fresh_task k slot t) = stack_of k slot"
  "t_pid (fresh_task k slot t) = next_pid k" "t_ppid (fresh_task k slot t) = task_current_pid k"
  "time_slice (fresh_task k slot t) = scheduler_quantum k"
  by (simp_all add: fresh_task_def task_current_pid_def)

lemma task_create_ok:
  assumes "task_ok k" "task_current_state k = TASK_RUNNING" "task_create entry name k = Some (pid, k')" shows "task_ok k'"
proof (cases "entry = 0 \<or> task_count k \<ge> 16 \<or> free_slot k = None")
  case False
  then obtain slot where slot: "free_slot k = Some slot" by auto
  have n: "next_pid k < INT_MAX" using assms(3) False slot by (auto simp: task_create_eq split: if_splits)
  have "task_ok (counted (set_task slot (created entry name k slot) k))"
    by (rule new_task_ok(1) [OF assms(1,2) slot refl n]) (simp add: created_def Let_def)
  moreover have "task_ok ((set_task slot (\<lambda>t. t\<lparr>t_stack := 0, t_state := TASK_UNUSED\<rparr>)
      ((counted (set_task slot (created entry name k slot) k))\<lparr>k_fs := s\<rparr>))
        \<lparr>task_count := task_count (counted (set_task slot (created entry name k slot) k)) - 1\<rparr>)" for s
    by (rule new_task_ok(2) [OF assms(1,2) slot refl n]) (simp_all add: created_def Let_def)
  ultimately show ?thesis using False slot n assms(3) by (auto simp: task_create_eq withdraw_def Let_def split: if_splits)
qed (use assms in \<open>auto simp: task_create_def split: option.splits\<close>)

lemma task_fork_ok:
  assumes "task_ok k" "task_current_state k = TASK_RUNNING" "length tf = 32"
    "task_fork_from_trap tf epc space k = Some (pid, k')"
  shows "task_ok k'"
proof (cases "current k = None \<or> task_count k \<ge> 16 \<or> free_slot k = None")
  case False
  then obtain slot where slot: "free_slot k = Some slot" by auto
  obtain c where c: "current k = Some c" "c < 16" "t_state (task_at k c) = TASK_RUNNING"
    using running_current [OF assms(1,2)] .
  have "c \<noteq> slot" using free_slot_Some [OF slot] c by auto
  note eq = task_fork_eq [OF c(1) \<open>c \<noteq> slot\<close> task_okD(1) [OF assms(1)] _ slot]
  have n: "next_pid k < INT_MAX" using assms(4) False eq by (auto split: if_splits)
  have "task_ok (counted (set_task slot (forked tf epc space k slot) k))"
    by (rule new_task_ok(1) [OF assms(1,2) slot refl n]) (simp add: forked_def assms(3))
  moreover have "task_ok ((set_task slot (\<lambda>t. t\<lparr>has_user_space := False, t_stack := 0, t_state := TASK_UNUSED\<rparr>)
      ((counted (set_task slot (forked tf epc space k slot) k))\<lparr>k_fs := s\<rparr>))
        \<lparr>task_count := task_count (counted (set_task slot (forked tf epc space k slot) k)) - 1\<rparr>)" for s
    by (rule new_task_ok(2) [OF assms(1,2) slot refl n]) (simp_all add: forked_def assms(3))
  ultimately show ?thesis using False n eq assms(4) by (auto simp: withdraw_def Let_def split: if_splits)
qed (use assms in \<open>auto simp: task_fork_from_trap_def split: option.splits\<close>)

lemma update_current_ok:
  assumes "task_ok k" "\<And>t. t_state (f t) = t_state t \<and> t_stack (f t) = t_stack t \<and> t_pid (f t) = t_pid t \<and>
    t_ppid (f t) = t_ppid t \<and> time_slice (f t) = time_slice t \<and> tc_regs (trap_ctx (f t)) = tc_regs (trap_ctx t)"
  shows "task_ok (update_current f k)"
proof -
  obtain c where c: "current k = Some c" "c < 16" "used_task (task_at k c)" using task_ok_current [OF assms(1)] .
  have "task_ok (set_task c f k)"
    by (rule task_ok_set [OF assms(1) c(2)])
      (use assms(2) task_okD(4) [OF assms(1)] task_ok_running [OF assms(1) c(2)] in \<open>simp add: Let_def\<close>)
  then show ?thesis using c by (simp add: update_current_def)
qed

lemma space_ok:
  assumes "task_ok k"
  shows "task_ok (snd (task_attach_address_space space k))" "task_ok (snd (task_replace_address_space space k))"
proof -
  obtain c where c: "current k = Some c" using task_ok_current [OF assms] .
  have "task_ok (update_current (\<lambda>t. t\<lparr>address_space := space, has_user_space := True,
                                       trap_ctx := (trap_ctx t)\<lparr>tc_satp := as_satp space\<rparr>\<rparr>) k)"
    "task_ok (update_current (\<lambda>t. t\<lparr>address_space := space, trap_ctx := (trap_ctx t)\<lparr>tc_satp := as_satp space\<rparr>\<rparr>) k)"
    by (rule update_current_ok [OF assms]; simp)+
  then show "task_ok (snd (task_attach_address_space space k))" "task_ok (snd (task_replace_address_space space k))"
    using c assms by (simp_all add: task_attach_address_space_def task_replace_address_space_def update_current_def)
qed

lemma irq_ok [simp]:
  "task_ok (snd (local_irq_save k)) = task_ok k" "task_ok (local_irq_restore st k) = task_ok k"
  "task_at (snd (local_irq_save k)) = task_at k" "task_at (local_irq_restore st k) = task_at k"
  "current (snd (local_irq_save k)) = current k" "current (local_irq_restore st k) = current k"
  by (simp_all add: local_irq_save_def local_irq_restore_def)

lemma task_ok_idle: "task_ok k \<Longrightarrow> t_pid (task_at k 0) = 0 \<and> live_task (task_at k 0)"
  using task_okD(4) [of k] task_okD(5) [of k 0] by (auto simp: slot_ok_def Let_def)

lemma task_block_ok:
  assumes "task_ok k" "task_current_state k = TASK_RUNNING" shows "task_ok (task_block ch k)"
proof (cases "task_current_pid k = 0")
  case False
  obtain c where c: "current k = Some c" "c < 16" "t_state (task_at k c) = TASK_RUNNING"
    using running_current [OF assms] .
  have "c \<noteq> 0" using False c(1) task_ok_idle [OF assms(1)] by (metis option.simps(5) task_current_pid_def)
  obtain st k1 where k1: "local_irq_save k = (st, k1)" by (metis surj_pair)
  then have k1': "k1 = snd (local_irq_save k)" by simp
  have "task_ok (set_task c (\<lambda>t. t\<lparr>wait_channel := ch, t_state := TASK_BLOCKED\<rparr>) k1)"
    by (rule task_ok_set) (use assms c \<open>c \<noteq> 0\<close> k1' in \<open>simp_all add: Let_def\<close>)
  moreover have "current k1 = Some c" using irq_ok(5) [of k] k1 c by simp
  ultimately show ?thesis using c False k1 by (simp add: task_block_def update_current_def)
qed (use assms in \<open>simp add: task_block_def\<close>)

lemma wake_ok:
  assumes "task_ok k" "i < 16" "t_state (task_at k i) = TASK_BLOCKED" shows "task_ok (wake i k)"
  unfolding wake_def
proof (rule task_ok_set [OF make_ready_ok])
  have "t_state (task_at (make_ready i k) i) = TASK_READY"
    using assms task_okD(1) [OF assms(1)] by (simp add: make_ready_def Let_def)
  then show "let t = task_at (make_ready i k) i; t' = t\<lparr>wait_channel := None\<rparr>
     in t_stack t' = t_stack t \<and> t_pid t' = t_pid t \<and> (used_task t' \<longleftrightarrow> used_task t) \<and>
        (t_state t' = TASK_ZOMBIE \<longleftrightarrow> t_state t = TASK_ZOMBIE) \<and>
        t_ppid t' = t_ppid t \<and> (0 < time_slice t \<longrightarrow> 0 < time_slice t') \<and>
        (length (tc_regs (trap_ctx t)) = 32 \<longrightarrow> length (tc_regs (trap_ctx t')) = 32) \<and>
        (t_state t' = TASK_RUNNING \<longrightarrow> current (make_ready i k) = Some i) \<and>
        (i = 0 \<longrightarrow> t_state t' = TASK_READY \<or> t_state t' = TASK_RUNNING)"
    by (auto simp: Let_def)
qed (use assms in simp_all)

lemma wake_one_ok:
  assumes "task_ok k" shows "task_ok (snd (task_wake_one ch k))"
proof -
  obtain st k1 where k1: "local_irq_save k = (st, k1)" by (metis surj_pair)
  then have ok: "task_ok k1" using assms irq_ok(1) [of k] by simp
  show ?thesis using ok wake_ok [OF ok]
    by (auto simp: task_wake_one_def Let_def k1 first_index_Some waits_on_def split: option.splits)
qed

lemma for_each_inv:
  assumes "P s" "\<And>i s. i < n \<Longrightarrow> P s \<Longrightarrow> P (f i s)" shows "P (for_each n f s)"
  using assms by (induction n) (simp_all add: for_each_Suc)

lemma wake_all_ok:
  assumes "task_ok k" shows "task_ok (snd (task_wake_all ch k))"
proof -
  obtain st k1 where k1: "local_irq_save k = (st, k1)" by (metis surj_pair)
  then have ok: "task_ok k1" using assms irq_ok(1) [of k] by simp
  let ?f = "\<lambda>i (n :: int, k). if waits_on ch k i then (n + 1, wake i k) else (n, k)"
  have "(\<lambda>(n, k). task_ok k) (for_each 16 ?f (0, k1))"
    by (rule for_each_inv) (use ok wake_ok in \<open>auto simp: waits_on_def split: if_splits\<close>)
  then show ?thesis by (auto simp: task_wake_all_def Let_def k1 split: prod.splits)
qed

lemma set_quantum_ok:
  assumes "task_ok k" shows "task_ok (task_set_quantum q k)"
proof -
  define r where "r = (if q = 0 then 1 else q)"
  have r: "0 < r" by (auto simp: r_def word_gt_0)
  have "task_ok (k\<lparr>scheduler_quantum := r\<rparr>)"
    by (rule task_ok_same [OF assms]) (use task_okD(1,8) [OF assms] r in auto)
  moreover have "task_ok (set_task i (\<lambda>t. t\<lparr>time_slice := r, ticks_left := r\<rparr>) k)"
    if "task_ok k" "i < 16" for i k
    by (rule task_ok_set [OF that(1,2)])
      (use task_okD(4) [OF that(1)] task_ok_running [OF that(1,2)] r in \<open>simp add: Let_def\<close>)
  ultimately show ?thesis unfolding task_set_quantum_def Let_def r_def [symmetric]
    by (intro for_each_inv [where P = task_ok]) simp_all
qed

text \<open>Exit and kill.\<close>

lemma length_tasks [simp]:
  "length (tasks (make_ready i k)) = length (tasks k)" "length (tasks (wake i k)) = length (tasks k)"
  "length (tasks (wake_parent i k)) = length (tasks k)" "length (tasks (orphan pid i k)) = length (tasks k)"
  by (simp_all add: make_ready_def wake_def wake_parent_def orphan_def Let_def split: option.split)

lemma orphan_all:
  assumes "length (tasks k) = 16"
  shows "task_at (for_each 16 (orphan pid) k) j =
      (if 1 \<le> j \<and> j < 16 \<and> used_task (task_at k j) \<and> t_ppid (task_at k j) = pid then (task_at k j)\<lparr>t_ppid := 0\<rparr> else task_at k j)
    \<and> length (tasks (for_each 16 (orphan pid) k)) = 16 \<and> current (for_each 16 (orphan pid) k) = current k \<and>
    task_count (for_each 16 (orphan pid) k) = task_count k \<and> next_pid (for_each 16 (orphan pid) k) = next_pid k \<and>
    task_stacks (for_each 16 (orphan pid) k) = task_stacks k \<and>
    scheduler_quantum (for_each 16 (orphan pid) k) = scheduler_quantum k"
proof -
  have "n \<le> 16 \<Longrightarrow> length (tasks (for_each n (orphan pid) k)) = 16 \<and> current (for_each n (orphan pid) k) = current k \<and>
    task_count (for_each n (orphan pid) k) = task_count k \<and> next_pid (for_each n (orphan pid) k) = next_pid k \<and>
    task_stacks (for_each n (orphan pid) k) = task_stacks k \<and>
    scheduler_quantum (for_each n (orphan pid) k) = scheduler_quantum k \<and>
    (\<forall>j. task_at (for_each n (orphan pid) k) j =
      (if 1 \<le> j \<and> j < n \<and> used_task (task_at k j) \<and> t_ppid (task_at k j) = pid then (task_at k j)\<lparr>t_ppid := 0\<rparr> else task_at k j))"
    for n
    by (induction n) (auto simp: for_each_Suc orphan_def assms less_Suc_eq)
  from this [of 16] show ?thesis by simp
qed

lemma wake_parent_facts:
  assumes "length (tasks k) = 16"
  shows "task_at (wake_parent i k) j = task_at k j \<or>
      (t_state (task_at k j) = TASK_BLOCKED \<and> j < 16 \<and>
       (\<exists>u. task_at (wake_parent i k) j = (task_at k j)\<lparr>t_state := TASK_READY, ready_order := u, wait_channel := None\<rparr>))"
    "current (wake_parent i k) = current k" "task_count (wake_parent i k) = task_count k"
    "next_pid (wake_parent i k) = next_pid k" "task_stacks (wake_parent i k) = task_stacks k"
    "scheduler_quantum (wake_parent i k) = scheduler_quantum k"
  using assms by (auto simp: wake_parent_def wake_def make_ready_def Let_def find_pid_def first_index_Some split: option.split)

lemma zombie_ok:
  assumes "task_ok k" "z < 16" "1 \<le> z" "live_task (task_at k z)"
    "k1 = set_task z (\<lambda>t. t\<lparr>exit_code := code, t_state := TASK_ZOMBIE, wait_channel := w t\<rparr>) k"
    "k2 = wake_parent z (k1\<lparr>k_fs := s\<rparr>)"
  shows "task_ok (for_each 16 (orphan (t_pid (task_at k z))) k2)"
proof -
  note l = task_okD(1) [OF assms(1)]
  define k0 where "k0 = k1\<lparr>k_fs := s\<rparr>"
  have k0: "length (tasks k0) = 16" "current k0 = current k" "task_count k0 = task_count k" "next_pid k0 = next_pid k"
    "task_stacks k0 = task_stacks k" "scheduler_quantum k0 = scheduler_quantum k"
    "\<And>j. task_at k0 j = (if j = z then (task_at k z)\<lparr>exit_code := code, t_state := TASK_ZOMBIE, wait_channel := w (task_at k z)\<rparr> else task_at k j)"
    using assms(2,5) l by (simp_all add: k0_def)
  have l2: "length (tasks k2) = 16" using k0 by (simp add: assms(6) flip: k0_def)
  note w = wake_parent_facts [OF k0(1), of z, folded assms(6) [folded k0_def]]
  note o = orphan_all [OF l2, of "t_pid (task_at k z)"]
  let ?k = "for_each 16 (orphan (t_pid (task_at k z))) k2"
  show ?thesis
  proof (rule task_ok_zombie [OF assms(1) _ assms(2,3,4)])
    show "t_state (task_at ?k z) = TASK_ZOMBIE" using o [of z] w(1) [of z] k0(7) [of z] by auto
    show "let t = task_at k i; t' = task_at ?k i
       in t_stack t' = t_stack t \<and> t_pid t' = t_pid t \<and> (used_task t' \<longleftrightarrow> used_task t) \<and> time_slice t' = time_slice t \<and>
          tc_regs (trap_ctx t') = tc_regs (trap_ctx t) \<and>
          (i \<noteq> z \<longrightarrow> (t_state t' = TASK_ZOMBIE \<longleftrightarrow> t_state t = TASK_ZOMBIE)) \<and>
          (t_state t' = TASK_RUNNING \<longrightarrow> t_state t = TASK_RUNNING) \<and>
          (1 \<le> i \<longrightarrow> used_task t \<longrightarrow> t_ppid t' = (if t_ppid t = t_pid (task_at k z) then 0 else t_ppid t))" if "i < 16" for i
    proof (cases "i = z")
      case True
      have "task_at k2 z = task_at k0 z" using w(1) [of z] k0(7) [of z] by auto
      then show ?thesis using o [of z] k0(7) [of z] True assms(2,3,4) by (simp add: Let_def)
    next
      case False
      then have t0: "task_at k0 i = task_at k i" using k0(7) by simp
      show ?thesis
        using w(1) [of i] unfolding t0
      proof (elim disjE conjE exE)
        assume "task_at k2 i = task_at k i"
        then show ?thesis using o [of i] that False by (simp add: Let_def)
      next
        fix u assume "task_at k2 i = (task_at k i)\<lparr>t_state := TASK_READY, ready_order := u, wait_channel := None\<rparr>"
          "t_state (task_at k i) = TASK_BLOCKED"
        then show ?thesis using o [of i] that False by (simp add: Let_def)
      qed
    qed
    show "t_state (task_at ?k 0) = TASK_READY \<or> t_state (task_at ?k 0) = TASK_RUNNING"
      using o [of 0] w(1) [of 0] k0(7) [of 0] assms(3) task_okD(4) [OF assms(1)] by auto
  qed (use o w k0 task_okD [OF assms(1)] in simp_all)
qed

lemma task_exit_ok:
  assumes "task_ok k" "task_current_state k = TASK_RUNNING" shows "task_ok (task_exit code k)"
proof (cases "task_current_pid k = 0")
  case False
  obtain c where c: "current k = Some c" "c < 16" "t_state (task_at k c) = TASK_RUNNING"
    using running_current [OF assms] .
  have "c \<noteq> 0" using False c(1) task_ok_idle [OF assms(1)] by (metis option.simps(5) task_current_pid_def)
  define k1 where "k1 = set_task c (\<lambda>t. t\<lparr>exit_code := code, t_state := TASK_ZOMBIE, wait_channel := wait_channel t\<rparr>) k"
  define k0 where "k0 = k1\<lparr>k_fs := minifs_close_all (k_fs k1) (t_pid (task_at k1 c))\<rparr>"
  have l: "length (tasks k0) = 16" "t_pid (task_at k0 c) = t_pid (task_at k c)"
    using task_okD(1) [OF assms(1)] c(2) by (simp_all add: k1_def k0_def)
  have "t_pid (task_at (wake_parent c k0) c) = t_pid (task_at k c)"
    using wake_parent_facts(1) [OF l(1), of c c] l(2) by auto
  moreover have "task_ok (for_each 16 (orphan (t_pid (task_at k c))) (wake_parent c k0))"
    by (rule zombie_ok [OF assms(1) c(2) _ _ k1_def]) (use \<open>c \<noteq> 0\<close> c k0_def in auto)
  ultimately show ?thesis using False c(1)
    by (simp add: task_exit_def Let_def task_current_pid_def k0_def k1_def)
qed (use task_ok_current [OF assms(1)] assms in \<open>auto simp: task_exit_def task_current_pid_def split: option.splits\<close>)

lemma task_kill_ok:
  assumes "task_ok k" shows "task_ok (snd (task_kill pid code k))"
proof (cases "snd (task_kill pid code k) = k")
  case False
  then obtain i where i: "find_pid k pid = Some i" "t_pid (task_at k i) \<noteq> 0" "live_task (task_at k i)"
    by (auto simp: task_kill_def Let_def split: option.splits if_splits)
  have i16: "i < 16" "i \<noteq> 0" using i task_ok_idle [OF assms] by (auto simp: find_pid_def first_index_Some intro!: gr0I)
  define k1 where "k1 = set_task i (\<lambda>t. t\<lparr>exit_code := code, t_state := TASK_ZOMBIE, wait_channel := None\<rparr>) k"
  define k0 where "k0 = k1\<lparr>k_fs := minifs_close_all (k_fs k1) (t_pid (task_at k1 i))\<rparr>"
  have l: "length (tasks k0) = 16" "t_pid (task_at k0 i) = t_pid (task_at k i)"
    using task_okD(1) [OF assms(1)] i16 by (simp_all add: k1_def k0_def)
  have "t_pid (task_at (wake_parent i k0) i) = t_pid (task_at k i)"
    using wake_parent_facts(1) [OF l(1), of i i] l(2) by auto
  moreover have "task_ok (for_each 16 (orphan (t_pid (task_at k i))) (wake_parent i k0))"
    by (rule zombie_ok [OF assms(1) i16(1) _ i(3) k1_def]) (use i16 k0_def in auto)
  ultimately show ?thesis using False i(1)
    by (simp add: task_kill_def Let_def k0_def k1_def split: if_splits)
qed (use assms in simp)

text \<open>Waiting.\<close>

lemma reap_facts:
  assumes "length (tasks k) = 16" "i < 16"
  shows "j \<noteq> i \<Longrightarrow> task_at (reap i k) j = task_at k j" "t_state (task_at (reap i k) i) = TASK_UNUSED"
    "length (tasks (reap i k)) = 16" "current (reap i k) = current k" "task_count (reap i k) = task_count k - 1"
    "next_pid (reap i k) = next_pid k" "task_stacks (reap i k) = task_stacks k"
    "scheduler_quantum (reap i k) = scheduler_quantum k"
  using assms by (simp_all add: reap_def Let_def split: prod.split)

lemma task_waitpid_ok:
  assumes "task_ok k" "task_current_state k = TASK_RUNNING" "nohang \<or> task_current_pid k \<noteq> 0"
  shows "task_ok (snd (task_waitpid pid nohang k))"
proof -
  obtain c where c: "current k = Some c" "c < 16" "t_state (task_at k c) = TASK_RUNNING"
    using running_current [OF assms(1,2)] .
  note l = task_okD [OF assms(1)]
  let ?child = "is_child k (t_pid (task_at k c)) pid"
  show ?thesis
  proof (cases "first_index (\<lambda>i. ?child i \<and> t_state (task_at k i) = TASK_ZOMBIE) 16")
    case (Some i)
    then have i: "i < 16" "1 \<le> i" "t_state (task_at k i) = TASK_ZOMBIE" by (auto simp: first_index_Some is_child_def)
    then have "current k \<noteq> Some i" using c by auto
    have "task_ok (reap i k)"
      by (rule task_ok_remove [OF assms(1) _ i(1,2,3)])
        (use reap_facts [OF l(1) i(1)] l(3) \<open>current k \<noteq> Some i\<close> in simp_all)
    then show ?thesis using c Some by (simp add: task_waitpid_def)
  next
    case None
    have "task_ok (set_task c (\<lambda>t. t\<lparr>wait_target := pid, wait_channel := Some (ChTask c), t_state := TASK_BLOCKED\<rparr>) k)" if "\<not> nohang"
    proof (rule task_ok_set [OF assms(1) c(2)])
      have "c \<noteq> 0" using that assms(3) c(1) task_ok_idle [OF assms(1)] by (metis option.simps(5) task_current_pid_def)
      then show "let t = task_at k c; t' = t\<lparr>wait_target := pid, wait_channel := Some (ChTask c), t_state := TASK_BLOCKED\<rparr>
        in t_stack t' = t_stack t \<and> t_pid t' = t_pid t \<and> (used_task t' \<longleftrightarrow> used_task t) \<and>
        (t_state t' = TASK_ZOMBIE \<longleftrightarrow> t_state t = TASK_ZOMBIE) \<and>
        t_ppid t' = t_ppid t \<and> (0 < time_slice t \<longrightarrow> 0 < time_slice t') \<and>
        (length (tc_regs (trap_ctx t)) = 32 \<longrightarrow> length (tc_regs (trap_ctx t')) = 32) \<and>
        (t_state t' = TASK_RUNNING \<longrightarrow> current k = Some c) \<and>
        (c = 0 \<longrightarrow> t_state t' = TASK_READY \<or> t_state t' = TASK_RUNNING)"
        using c by (simp add: Let_def)
    qed
    then show ?thesis using c None assms(1) by (simp add: task_waitpid_def Let_def)
  qed
qed

text \<open>Start-up.\<close>

lemma clear_all:
  assumes "length (tasks k) = 16"
  shows "length (tasks (for_each 16 clear_slot k)) = 16 \<and> task_stacks (for_each 16 clear_slot k) = task_stacks k \<and>
    scheduler_quantum (for_each 16 clear_slot k) = scheduler_quantum k \<and>
    (\<forall>j < 16. t_state (task_at (for_each 16 clear_slot k) j) = TASK_UNUSED \<and>
       trap_ctx (task_at (for_each 16 clear_slot k) j) = trap_ctx (task_at k j))"
proof -
  have "n \<le> 16 \<Longrightarrow> length (tasks (for_each n clear_slot k)) = 16 \<and> task_stacks (for_each n clear_slot k) = task_stacks k \<and>
    scheduler_quantum (for_each n clear_slot k) = scheduler_quantum k \<and>
    (\<forall>j. trap_ctx (task_at (for_each n clear_slot k) j) = trap_ctx (task_at k j)) \<and>
    (\<forall>j < n. t_state (task_at (for_each n clear_slot k) j) = TASK_UNUSED)" for n
    by (induction n) (auto simp: for_each_Suc clear_slot_def Let_def assms less_Suc_eq)
  from this [of 16] show ?thesis by simp
qed

lemma task_init_ok:
  assumes "length (tasks k) = 16" "length (tc_regs (trap_ctx (task_at k 0))) = 32" "0 < scheduler_quantum k"
  shows "task_ok (task_init k)" "task_current_state (task_init k) = TASK_RUNNING"
proof -
  define k0 where "k0 = for_each 16 clear_slot k"
  note c = clear_all [OF assms(1), folded k0_def]
  have l: "length (tasks (task_init k)) = 16" "current (task_init k) = Some 0" "next_pid (task_init k) = 1"
    "task_count (task_init k) = 1" "scheduler_quantum (task_init k) = scheduler_quantum k"
    using c by (simp_all add: task_init_def Let_def flip: k0_def)
  have t: "t_state (task_at (task_init k) 0) = TASK_RUNNING" "t_pid (task_at (task_init k) 0) = 0"
    "t_stack (task_at (task_init k) 0) = 0" "time_slice (task_at (task_init k) 0) = scheduler_quantum k"
    "length (tc_regs (trap_ctx (task_at (task_init k) 0))) = 32"
    using c assms(2) by (simp_all add: task_init_def Let_def flip: k0_def)
  have u: "t_state (task_at (task_init k) j) = TASK_UNUSED" if "j < 16" "0 < j" for j
    using c that by (simp add: task_init_def Let_def flip: k0_def)
  then have used: "i = 0" if "i < 16" "used_task (task_at (task_init k) i)" for i using that by (cases i) auto
  then have set: "{i. i < 16 \<and> used_task (task_at (task_init k) i)} = {0}" using t(1) by auto
  have "slot_ok (task_init k) 0" using t l assms(3) by (simp add: slot_ok_def Let_def)
  then have slots: "\<forall>i < 16. used_task (task_at (task_init k) i) \<longrightarrow> slot_ok (task_init k) i" using used by metis
  have pids: "\<forall>i < 16. \<forall>j < 16. used_task (task_at (task_init k) i) \<longrightarrow> used_task (task_at (task_init k) j) \<longrightarrow>
      t_pid (task_at (task_init k) i) = t_pid (task_at (task_init k) j) \<longrightarrow> i = j" using used by blast
  show "task_ok (task_init k)" unfolding task_ok_def set
    by (intro conjI slots pids) (use l t assms(3) in simp_all)
  show "task_current_state (task_init k) = TASK_RUNNING" using l t by (simp add: task_current_state_def)
qed

section \<open>Histories\<close>

text \<open>
  The steps of the kernel as the task table sees them.  Timer ticks and forced switches come from the trap handler;
  the calls are made by the running task.  A task that waits without \<^verbatim>\<open>WNOHANG\<close> is not the idle task.
  A creation that would increment \<^verbatim>\<open>next_pid\<close> past the greatest int is undefined and no step.
  Programs and the other parts of the kernel change the rest of the state in any way.
\<close>

inductive kstep :: "kernel \<Rightarrow> kernel \<Rightarrow> bool" where
  tick: "length tf = 32 \<Longrightarrow> kstep k (snd (sched_tick now tf k))"
| resched: "length tf = 32 \<Longrightarrow> kstep k (snd (task_reschedule now tf k))"
| yields: "task_current_state k = TASK_RUNNING \<Longrightarrow> kstep k (yield k)"
| create: "task_current_state k = TASK_RUNNING \<Longrightarrow> task_create entry name k = Some (pid, k') \<Longrightarrow> kstep k k'"
| fork: "task_current_state k = TASK_RUNNING \<Longrightarrow> length tf = 32 \<Longrightarrow>
    task_fork_from_trap tf epc space k = Some (pid, k') \<Longrightarrow> kstep k k'"
| exit: "task_current_state k = TASK_RUNNING \<Longrightarrow> kstep k (task_exit code k)"
| kill: "kstep k (snd (task_kill pid code k))"
| waits: "task_current_state k = TASK_RUNNING \<Longrightarrow> nohang \<or> task_current_pid k \<noteq> 0 \<Longrightarrow>
    kstep k (snd (task_waitpid pid nohang k))"
| block: "task_current_state k = TASK_RUNNING \<Longrightarrow> kstep k (task_block ch k)"
| wake_one: "kstep k (snd (task_wake_one ch k))"
| wake_all: "kstep k (snd (task_wake_all ch k))"
| attach: "kstep k (snd (task_attach_address_space space k))"
| replace_space: "kstep k (snd (task_replace_address_space space k))"
| set_cwd: "kstep k (task_set_current_cwd inode k)"
| set_name: "kstep k (task_set_current_name name k)"
| set_entry: "kstep k (task_set_current_entry entry k)"
| scheduler: "kstep k (task_set_scheduler policy k)"
| quantum: "kstep k (task_set_quantum q k)"
| other: "kstep k (k\<lparr>live_ctx := l, k_csr := c, k_clint := cl, k_mem := m, k_fs := s, k_con := con,
    tick_count := tk, timer_interval := ti, timeslice_ms := ms, trap_silent := b, halted := h,
    dirent_buffer := db, process_buffer := pb\<rparr>)"

lemma kstep_ok: "kstep k k' \<Longrightarrow> task_ok k \<Longrightarrow> task_ok k'"
proof (induction rule: kstep.induct)
  case (yields k)
  then show ?case by (rule yield_ok [rotated])
next
  case (create k entry name pid k')
  then show ?case by (intro task_create_ok [of k entry name pid k'])
next
  case (fork k tf epc space pid k')
  then show ?case by (intro task_fork_ok [of k tf epc space pid k'])
qed (simp_all add: sched_tick_def task_reschedule_def timed_switch_ok task_exit_ok task_kill_ok
    task_waitpid_ok task_block_ok wake_one_ok wake_all_ok space_ok task_set_current_cwd_def task_set_current_name_def
    task_set_current_entry_def task_set_scheduler_def update_current_ok set_quantum_ok)

lemma undefined_creation:
  "task_create entry name k = None \<Longrightarrow> INT_MAX \<le> next_pid k"
  "task_fork_from_trap tf epc space k = None \<Longrightarrow> INT_MAX \<le> next_pid k"
  by (auto simp: task_create_def task_fork_from_trap_def count_task_def Let_def split: if_splits option.splits prod.splits)

text \<open>
  C24. The task table stays consistent.  From start-up on, after every sequence of ticks, switches and calls with defined
  behaviour: the idle task holds slot 0 and is ready or running; exactly the current task may be running; the process ids
  of the used slots are distinct ints and every process but the idle task has a live parent; every used slot has its own
  kernel stack, a full saved frame and a positive time slice; and \<open>task_count\<close> counts the used slots.  The process ids are
  never reused: creating a process has undefined behaviour (\<^verbatim>\<open>next_pid++\<close> overflows) only once \<open>next_pid\<close> has
  reached the greatest int, that is after \<open>2 ^ 31 - 2\<close> process ids.
\<close>

theorem task_history:
  assumes "length (tasks k) = 16" "length (tc_regs (trap_ctx (task_at k 0))) = 32" "0 < scheduler_quantum k"
    "kstep\<^sup>*\<^sup>* (task_init k) k'"
  shows "task_ok k' \<and> (\<forall>entry name. task_create entry name k' = None \<longrightarrow> next_pid k' = INT_MAX) \<and>
    (\<forall>tf epc space. task_fork_from_trap tf epc space k' = None \<longrightarrow> next_pid k' = INT_MAX)"
proof -
  have ok: "task_ok k'"
    using assms(4) by (induction rule: rtranclp_induct) (use task_init_ok(1) [OF assms(1-3)] kstep_ok in auto)
  have "next_pid k' = INT_MAX" if "INT_MAX \<le> next_pid k'" using that task_okD(8) [OF ok] by (rule order_antisym [rotated])
  then show ?thesis using ok undefined_creation by blast
qed

lemma sample_boot_simps: "length (tasks sample_boot) = 16" "task_at sample_boot 0 = zero_task" "scheduler_quantum sample_boot = 1"
  by (simp_all add: sample_boot_def boot_kernel_def task_at_def)

theorem task_history_witness:
  "\<exists>pid k. task_create 0x80001000 (Some (lit ''shell'')) (task_init sample_boot) = Some (pid, k) \<and>
     task_ok (snd (sched_tick 0 (replicate 32 7) k))"
proof -
  have i: "length (tasks sample_boot) = 16" "length (tc_regs (trap_ctx (task_at sample_boot 0))) = 32"
    "0 < scheduler_quantum sample_boot"
    by (simp_all add: sample_boot_simps zero_task_def)
  have "next_pid (task_init sample_boot) = 1" by (simp add: task_init_def Let_def)
  then obtain pid k where c: "task_create 0x80001000 (Some (lit ''shell'')) (task_init sample_boot) = Some (pid, k)"
    using task_history [OF i rtranclp.rtrancl_refl]
    by (cases "task_create 0x80001000 (Some (lit ''shell'')) (task_init sample_boot)") auto
  have "kstep (task_init sample_boot) k" by (rule kstep.create [OF task_init_ok(2) [OF i] c])
  moreover have "kstep k (snd (sched_tick 0 (replicate 32 7) k))" by (rule kstep.tick) simp
  ultimately have "kstep\<^sup>*\<^sup>* (task_init sample_boot) (snd (sched_tick 0 (replicate 32 7) k))"
    by (rule rtranclp.rtrancl_into_rtrancl [OF r_into_rtranclp])
  then show ?thesis using task_history [OF i] c by blast
qed

end
