(* ===== verification/Os_Sched.thy ===== *)
theory Os_Sched
  imports Os_Task_Ops
begin

text \<open>
  Properties of the scheduler: a blocked or dead task is left for a ready one, round robin reaches every
  ready task, and a task gets its registers back.
\<close>

section \<open>The result of a switch\<close>

lemma switch_rest_Some:
  assumes "k1 = (if t_state (task_at k prev) = TASK_RUNNING then make_ready prev k else k)" "select_next k1 = Some n"
  shows "\<exists>c. switch_rest prev tf k =
    ((n \<noteq> prev, tc_regs (trap_ctx (task_at (start_task n k1) n))), (start_task n k1)\<lparr>k_csr := c\<rparr>)"
  using assms(2) restore_csr [of n "start_task n k1"]
  by (auto simp: switch_rest_def Let_def simp flip: assms(1))

lemma task_count_two:
  assumes "task_ok k" "i < 16" "j < 16" "i \<noteq> j" "used_task (task_at k i)" "used_task (task_at k j)"
  shows "\<not> task_count k \<le> 1"
proof -
  have "card {i, j} \<le> card {i. i < 16 \<and> used_task (task_at k i)}" by (rule card_mono) (use assms in auto)
  then show ?thesis using assms(4) task_okD(7) [OF assms(1)] by simp
qed

lemma start_task_at:
  "n < length (tasks k) \<Longrightarrow> task_at (start_task n k) i =
     (if i = n then (task_at k n)\<lparr>t_state := TASK_RUNNING, ticks_left := time_slice (task_at k n),
                      context_switches := context_switches (task_at k n) + 1\<rparr> else task_at k i)"
  by (simp add: start_task_def)

lemma make_ready_at:
  "n < length (tasks k) \<Longrightarrow> task_at (make_ready n k) i =
     (if i = n then (task_at k n)\<lparr>t_state := TASK_READY, ready_order := order_counter k + 1\<rparr> else task_at k i)"
  by (simp add: make_ready_def Let_def)

section \<open>Leaving a task that cannot run\<close>

text \<open>
  C28. A process that exits or blocks gives up the processor: when the current task is blocked or a zombie,
  \<open>task_reschedule\<close> switches to another task, which was ready and is now the one running task, and returns its
  saved registers as the trap frame.
\<close>

theorem reschedule_runs:
  assumes "task_ok k" "length tf = 32" "current k = Some c" "t_state (task_at k c) = TASK_BLOCKED \<or> t_state (task_at k c) = TASK_ZOMBIE"
  shows "\<exists>n k'. task_reschedule now tf k = ((True, tc_regs (trap_ctx (task_at k n))), k') \<and>
    n < 16 \<and> n \<noteq> c \<and> ready k n \<and> current k' = Some n \<and> t_state (task_at k' n) = TASK_RUNNING \<and> task_ok k'"
proof -
  have c: "c < 16" "used_task (task_at k c)" using task_ok_current [OF assms(1)] assms(3) by auto
  define k1 where "k1 = save_trap_context c tf k"
  have ok: "task_ok k1" unfolding k1_def by (rule save_trap_context_ok) (use assms c in auto)
  have at: "task_at k1 i = (if i = c then (task_at k c)\<lparr>trap_ctx := trap_ctx (task_at k1 c)\<rparr> else task_at k i)" for i
    using c task_okD(1) [OF assms(1)] by (simp add: k1_def save_trap_context_def)
  have "t_state (task_at k1 c) = t_state (task_at k c)"
    using c task_okD(1) [OF assms(1)] by (simp add: k1_def save_trap_context_def)
  then have nr: "k1 = (if t_state (task_at k1 c) = TASK_RUNNING then make_ready c k1 else k1)"
    and st: "t_state (task_at k1 c) = t_state (task_at k c)" using assms(4) by auto
  have cur: "current k1 = Some c" using assms(3) by (simp add: k1_def)
  have zero: "ready k 0" "c \<noteq> 0"
    using task_okD(4) [OF assms(1)] task_ok_running [OF assms(1), of 0] assms(3,4) by (auto intro!: gr0I)
  then have "ready k1 0" using at [of 0] by simp
  then obtain n where n: "select_next k1 = Some n"
    using select_next_None [of k1 0] cur c(1) by (cases "select_next k1") auto
  have n16: "n < 16" "ready k1 n" using select_next_Some [OF _ n] cur c(1) by auto
  then have nc: "n \<noteq> c" using st assms(4) by auto
  obtain csr where r: "switch_rest c tf k1 = ((n \<noteq> c, tc_regs (trap_ctx (task_at (start_task n k1) n))), (start_task n k1)\<lparr>k_csr := csr\<rparr>)"
    using switch_rest_Some [OF nr n] by blast
  have l1: "length (tasks k1) = 16" by (rule task_okD(1) [OF ok])
  have tc: "\<not> task_count k \<le> 1" using task_count_two [OF assms(1), of 0 c] zero c by simp
  obtain k' where k': "task_reschedule now tf k = ((True, tc_regs (trap_ctx (task_at k n))), k')"
    "current k' = Some n" "task_at k' n = task_at (start_task n k1) n"
    using r nc tc assms(3) n16(1) l1 at [of n]
    by (auto simp: task_reschedule_def timed_switch_def switch_from_trap_def Let_def start_task_at start_task_def simp flip: k1_def)
  have "task_ok k'" using timed_switch_ok [OF assms(1,2), of now True] k'(1) by (simp add: task_reschedule_def)
  then show ?thesis using k' n16 nc at [of n] l1 by (intro exI [of _ n] exI [of _ k']) (simp add: start_task_at)
qed

text \<open>The idle task and one ready process.\<close>

definition sample_two :: kernel where
  "sample_two =
     (let k = task_init sample_boot in counted (set_task 1 (created 0x80001000 (Some (lit ''shell'')) k 1) k))"

lemma sample_init:
  defines "k \<equiv> task_init sample_boot"
  shows "task_ok k" "task_current_state k = TASK_RUNNING" "current k = Some 0" "scheduler_policy k = SCHED_RR"
    "scheduler_quantum k = 1" "t_state (task_at k 0) = TASK_RUNNING" "0 < j \<Longrightarrow> j < 16 \<Longrightarrow> t_state (task_at k j) = TASK_UNUSED"
    "time_slice (task_at k 0) = 1" "ticks_left (task_at k 0) = 1"
proof -
  have i: "length (tasks sample_boot) = 16" "length (tc_regs (trap_ctx (task_at sample_boot 0))) = 32"
    "0 < scheduler_quantum sample_boot"
    by (simp_all add: sample_boot_simps zero_task_def)
  show "task_ok k" "task_current_state k = TASK_RUNNING" unfolding k_def by (rule task_init_ok [OF i])+
  have c: "clear_slot i k = set_task i (\<lambda>t. t\<lparr>t_state := TASK_UNUSED, t_pid := -1, t_ppid := -1, t_stack := 0,
           has_user_space := False, cwd_inode := MINIFS_ROOT_INODE, t_name := []\<rparr>)
      (if used_task (task_at k i) \<and> t_pid (task_at k i) \<ge> 0 then k\<lparr>k_fs := minifs_close_all (k_fs k) (t_pid (task_at k i))\<rparr> else k)" for i k
    by (simp add: clear_slot_def Let_def)
  have "scheduler_policy (for_each n clear_slot sample_boot) = SCHED_RR" for n
    by (induction n) (simp_all add: for_each_Suc c, simp add: sample_boot_def boot_kernel_def)
  note a = clear_all [OF i(1)] this
  show "current k = Some 0" "scheduler_policy k = SCHED_RR" "scheduler_quantum k = 1" "t_state (task_at k 0) = TASK_RUNNING"
    "time_slice (task_at k 0) = 1" "ticks_left (task_at k 0) = 1"
    using a by (simp_all add: k_def task_init_def Let_def sample_boot_simps)
  show "t_state (task_at k j) = TASK_UNUSED" if "0 < j" "j < 16"
    using a that by (simp add: k_def task_init_def Let_def)
qed

lemma sample_two_facts:
  "task_ok sample_two" "current sample_two = Some 0" "scheduler_policy sample_two = SCHED_RR" "t_state (task_at sample_two 1) = TASK_READY"
  "i < 16 \<Longrightarrow> used_task (task_at sample_two i) \<Longrightarrow> time_slice (task_at sample_two i) = 1 \<and> ticks_left (task_at sample_two i) = 1"
proof -
  let ?k = "task_init sample_boot"
  have l: "length (tasks ?k) = 16" by (rule task_okD(1) [OF sample_init(1)])
  have "free_slot ?k = Some 1" using sample_init(7) by (auto simp: free_slot_def first_index_Some)
  then show "task_ok sample_two"
    unfolding sample_two_def Let_def
    by (rule new_task_ok(1) [OF sample_init(1,2) _ refl]) (simp_all add: created_def Let_def task_init_def)
  show "current sample_two = Some 0" "scheduler_policy sample_two = SCHED_RR" "t_state (task_at sample_two 1) = TASK_READY"
    using l sample_init by (simp_all add: sample_two_def Let_def counted_def created_def)
  show "time_slice (task_at sample_two i) = 1 \<and> ticks_left (task_at sample_two i) = 1" if "i < 16" "used_task (task_at sample_two i)"
    using that l sample_init(5-9) by (cases "i = 0"; cases "i = 1") (auto simp: sample_two_def Let_def counted_def created_def fresh_task_def)
qed

section \<open>Round robin is fair\<close>

text \<open>Timer ticks, each with the clock, the frame and the CSRs of the program it interrupts.\<close>

primrec tick_run :: "(u64 \<times> u64 list \<times> csr) list \<Rightarrow> kernel \<Rightarrow> kernel" where
  "tick_run [] k = k"
| "tick_run (x # xs) k = (case x of (now, tf, c) \<Rightarrow> tick_run xs (snd (sched_tick now tf (k\<lparr>k_csr := c\<rparr>))))"

definition rr_ok :: "nat \<Rightarrow> nat \<Rightarrow> kernel \<Rightarrow> bool" where
  "rr_ok j q k \<longleftrightarrow> task_ok k \<and> scheduler_policy k = SCHED_RR \<and> j < 16 \<and> ready k j \<and> current k \<noteq> Some j \<and> 0 < q \<and>
     (\<forall>i < 16. used_task (task_at k i) \<longrightarrow> unat (time_slice (task_at k i)) \<le> q \<and> unat (ticks_left (task_at k i)) \<le> q)"

text \<open>The ticks that may still pass before slot \<open>j\<close> runs.\<close>

definition turns :: "nat \<Rightarrow> nat \<Rightarrow> kernel \<Rightarrow> nat" where
  "turns j q k = distance k j * q + max 1 (unat (ticks_left (task_at k (the (current k)))))"

lemma distance_step:
  assumes "current k = Some c" "current k' = Some n" "c < 16" "n < 16" "j < 16" "n \<noteq> j" "distance k n \<le> distance k j"
  shows "distance k' j < distance k j"
proof -
  have d: "distance k n = (if n + 15 - c < 16 then n + 15 - c else n + 15 - c - 16)"
    "distance k j = (if j + 15 - c < 16 then j + 15 - c else j + 15 - c - 16)"
    "distance k' j = (if j + 15 - n < 16 then j + 15 - n else j + 15 - n - 16)"
    using assms by (simp_all add: distance_def mod_16)
  show ?thesis using assms(3-7) unfolding d by (auto split: if_splits)
qed

lemma slice_bound: "a < b \<Longrightarrow> m \<le> q \<Longrightarrow> a * q + m \<le> b * q" for a b m q :: nat
proof -
  assume "a < b" "m \<le> q"
  then have "a * q + m \<le> Suc a * q" "Suc a * q \<le> b * q" by (simp, intro mult_le_mono1) simp
  then show ?thesis by (rule order_trans)
qed

lemma switch_rest_rr:
  assumes "rr_ok j q k" "current k = Some c"
  shows "let k' = snd (switch_rest c tf k) in current k' = Some j \<or> rr_ok j q k' \<and> turns j q k' \<le> distance k j * q"
proof -
  have ok: "task_ok k" "j < 16" "ready k j" using assms by (simp_all add: rr_ok_def)
  have c: "c < 16" "used_task (task_at k c)" using task_ok_current [OF ok(1)] assms(2) by auto
  define k1 where "k1 = (if t_state (task_at k c) = TASK_RUNNING then make_ready c k else k)"
  note p = switch_prev [OF ok(1) assms(2) k1_def]
  have l: "length (tasks k1) = 16" by (rule task_okD(1) [OF p(1)])
  have at: "task_at k1 i = task_at k i \<or>
      (used_task (task_at k i) \<and> (\<exists>u. task_at k1 i = (task_at k i)\<lparr>t_state := TASK_READY, ready_order := u\<rparr>))" for i
    using c task_okD(1) [OF ok(1)] by (auto simp: k1_def make_ready_at)
  have rj: "ready k1 j" using at [of j] ok(3) by (metis task.select_convs(4) task.surjective task.update_convs(4,13))
  have pol: "scheduler_policy k1 = SCHED_RR" using assms(1) by (simp add: rr_ok_def k1_def make_ready_def Let_def)
  obtain n where n: "select_next k1 = Some n" using select_next_None [of k1 j] p(4) c(1) rj ok(2) by (cases "select_next k1") auto
  have n16: "n < 16" "ready k1 n" "distance k1 n \<le> distance k1 j"
    using select_rr_Some [of k1 n] n pol p(4) c(1) rj ok(2) by (auto simp: select_next_def)
  obtain csr where r: "snd (switch_rest c tf k) = (start_task n k1)\<lparr>k_csr := csr\<rparr>"
    using switch_rest_Some [OF k1_def n, of tf] by (metis snd_conv)
  have d1: "distance k1 i = distance k i" for i using p(4) assms(2) by (simp add: distance_def)
  let ?k = "(start_task n k1)\<lparr>k_csr := csr\<rparr>"
  have cur: "current ?k = Some n" by (simp add: start_task_def)
  have okk: "task_ok ?k" using switch_rest_ok [OF ok(1) assms(2), of tf] r by simp
  show ?thesis
  proof (cases "n = j")
    case False
    have slices: "unat (time_slice (task_at k1 i)) \<le> q \<and> unat (ticks_left (task_at k1 i)) \<le> q" if "i < 16" "used_task (task_at k1 i)" for i
    proof -
      have "used_task (task_at k i)" using at [of i] that(2) by auto
      then show ?thesis using assms(1) at [of i] that(1) by (auto simp: rr_ok_def)
    qed
    have "rr_ok j q ?k"
      using okk assms(1) pol rj False slices l n16 unfolding rr_ok_def
      by (simp add: start_task_at) (simp add: start_task_def)
    moreover have "distance ?k j < distance k j"
      using distance_step [OF p(4) cur c(1) n16(1) ok(2) False n16(3)] d1 by simp
    moreover have "max 1 (unat (ticks_left (task_at ?k n))) \<le> q"
      using slices [OF n16(1)] n16 l assms(1) by (simp add: start_task_at rr_ok_def)
    ultimately show ?thesis unfolding r Let_def turns_def cur option.sel using slice_bound by blast
  qed (use r cur in simp)
qed

lemma rr_count:
  assumes "rr_ok j q k" "current k = Some c" "1 < ticks_left (task_at k c)"
    "k' = set_task c (\<lambda>t. t\<lparr>ticks_left := ticks_left t - 1\<rparr>) k" "task_ok k'"
  shows "rr_ok j q k' \<and> turns j q k' < turns j q k"
proof -
  have ok: "task_ok k" "j < 16" "ready k j" "j \<noteq> c" using assms by (auto simp: rr_ok_def)
  have c: "c < 16" "used_task (task_at k c)" using task_ok_current [OF ok(1)] assms(2) by auto
  let ?n = "unat (ticks_left (task_at k c))"
  have gt: "1 < ?n" using assms(3) by (simp add: word_less_nat_alt)
  then have "ticks_left (task_at k c) \<noteq> 0" by auto
  then have m: "unat (ticks_left (task_at k c) - 1) = ?n - 1" by (rule unat_minus_one)
  have at: "task_at k' i = (if i = c then (task_at k c)\<lparr>ticks_left := ticks_left (task_at k c) - 1\<rparr> else task_at k i)" for i
    using task_okD(1) [OF ok(1)] c(1) assms(4) by simp
  have cur: "current k' = Some c" "scheduler_policy k' = SCHED_RR" using assms by (simp_all add: rr_ok_def)
  have "unat (time_slice (task_at k' i)) \<le> q \<and> unat (ticks_left (task_at k' i)) \<le> q" if "i < 16" "used_task (task_at k' i)" for i
  proof (cases "i = c")
    case True
    have "unat (time_slice (task_at k c)) \<le> q \<and> ?n \<le> q" using assms(1) c by (simp add: rr_ok_def)
    then show ?thesis using True m at [of c] by auto
  next
    case False
    then show ?thesis using assms(1) that at [of i] by (simp add: rr_ok_def)
  qed
  moreover have "ready k' j" using ok at [of j] by simp
  ultimately have "rr_ok j q k'" using assms(1,5) cur ok(4) unfolding rr_ok_def by simp
  moreover have "turns j q k' < turns j q k"
    using gt m cur(1) assms(2) at [of c] by (simp add: turns_def distance_def)
  ultimately show ?thesis ..
qed

lemma timed_switch_view:
  "current (snd (timed_switch now tf force k)) = current (snd (switch_from_trap tf force k))"
  "rr_ok j q (snd (timed_switch now tf force k)) = rr_ok j q (snd (switch_from_trap tf force k))"
  "turns j q (snd (timed_switch now tf force k)) = turns j q (snd (switch_from_trap tf force k))"
  by (auto simp: timed_switch_def Let_def rr_ok_def turns_def distance_def split: prod.split)

lemma rr_tick:
  assumes "rr_ok j q k" "length tf = 32"
  shows "let k' = snd (sched_tick now tf (k\<lparr>k_csr := csr\<rparr>)) in current k' = Some j \<or> rr_ok j q k' \<and> turns j q k' < turns j q k"
proof -
  have ok: "task_ok k" "j < 16" "ready k j" "current k \<noteq> Some j" using assms by (simp_all add: rr_ok_def)
  obtain c where c: "current k = Some c" "c < 16" "used_task (task_at k c)" using task_ok_current [OF ok(1)] .
  have l: "length (tasks k) = 16" by (rule task_okD(1) [OF ok(1)])
  have tc: "\<not> task_count k \<le> 1" using task_count_two [OF ok(1), of j c] ok c by simp
  define k2 where "k2 = set_task c (\<lambda>t. t\<lparr>runtime_ticks := runtime_ticks t + 1\<rparr>) (save_trap_context c tf (k\<lparr>k_csr := csr\<rparr>))"
  have at: "task_at k2 i = (if i = c then (task_at k c)\<lparr>trap_ctx := trap_ctx (task_at k2 c), runtime_ticks := runtime_ticks (task_at k c) + 1\<rparr>
      else task_at k i)" for i
    using c l by (simp add: k2_def save_trap_context_def)
  have st: "t_state (task_at k2 i) = t_state (task_at k i)" "t_pid (task_at k2 i) = t_pid (task_at k i)"
    "ticks_left (task_at k2 i) = ticks_left (task_at k i)" "time_slice (task_at k2 i) = time_slice (task_at k i)" for i
    using c l by (simp_all add: k2_def save_trap_context_def)
  have k2: "current k2 = Some c" "scheduler_policy k2 = SCHED_RR" "length (tasks k2) = 16"
    using c(1) l assms(1) by (simp_all add: k2_def save_trap_context_def rr_ok_def)
  have 1: "task_ok (save_trap_context c tf (k\<lparr>k_csr := csr\<rparr>))"
    by (rule save_trap_context_ok) (use ok c assms in simp_all)
  have ok2: "task_ok k2" unfolding k2_def
    by (rule task_ok_set [OF 1 c(2)])
      (use task_okD(4) [OF 1] task_ok_running [OF 1 c(2)] in \<open>auto simp: Let_def\<close>)
  have rr2: "rr_ok j q k2" using assms(1) ok2 k2 c(1) by (simp add: rr_ok_def st)
  have d2: "distance k2 j = distance k j" using k2(1) c(1) by (simp add: distance_def)
  note r = switch_rest_rr [OF rr2 k2(1), of tf, unfolded Let_def]
  define t where "t = task_at k2 c"
  consider (tick) "t_state t = TASK_RUNNING \<and> t_pid t \<noteq> 0 \<and> ticks_left t > 1"
    | (switch) "\<not> (t_state t = TASK_RUNNING \<and> t_pid t \<noteq> 0 \<and> ticks_left t > 1)" by blast
  then have "let k' = snd (switch_from_trap tf False (k\<lparr>k_csr := csr\<rparr>)) in current k' = Some j \<or> rr_ok j q k' \<and> turns j q k' < turns j q k"
  proof cases
    case tick
    define k3 where "k3 = set_task c (\<lambda>t. t\<lparr>ticks_left := ticks_left t - 1\<rparr>) k2"
    have e: "snd (switch_from_trap tf False (k\<lparr>k_csr := csr\<rparr>)) = k3"
      using tick c(1) tc k2(2) by (simp add: switch_from_trap_def Let_def k3_def t_def flip: k2_def) (simp add: k2_def)
    have "task_ok k3" using switch_from_trap_ok [of "k\<lparr>k_csr := csr\<rparr>" tf False] ok(1) assms(2) e by simp
    then show ?thesis using rr_count [OF rr2 k2(1) _ k3_def] tick d2 k2(1) c(1) st(3) [of c] unfolding e Let_def
      by (simp add: t_def turns_def)
  next
    case switch
    have "\<not> (t_pid t = 0 \<and> \<not> has_ready_non_idle k2)"
    proof
      assume a: "t_pid t = 0 \<and> \<not> has_ready_non_idle k2"
      then have "c = 0" using task_okD(6) [OF ok2, of c 0] task_ok_idle [OF ok2] c st t_def by simp
      then have "1 \<le> j" "ready k2 j" using ok c(1) st by auto
      then show False using a ok(2) by (auto simp: has_ready_non_idle_def first_index_None)
    qed
    then have e: "snd (switch_from_trap tf False (k\<lparr>k_csr := csr\<rparr>)) = snd (switch_rest c tf k2)"
      using switch c(1) tc k2(2) by (simp add: switch_from_trap_def Let_def t_def flip: k2_def) (auto simp: k2_def)
    show ?thesis unfolding e Let_def using r d2 by (auto simp: turns_def [of j q k])
  qed
  then show ?thesis by (simp add: sched_tick_def timed_switch_view Let_def)
qed

text \<open>
  C27. Round robin starves nobody.  Let a task be ready in a consistent task table, under round robin, where no time
  slice or remaining slice exceeds q ticks.  Then among the next 16 * q timer interrupts, whatever the programs they
  interrupt do with their registers and CSRs, there is one after which that task is the current one.
\<close>

theorem round_robin_fair:
  assumes "rr_ok j q k" "16 * q \<le> length ticks" "list_all (\<lambda>(now, tf, c). length tf = 32) ticks"
  shows "\<exists>n \<le> 16 * q. current (tick_run (take n ticks) k) = Some j"
proof -
  have "\<exists>n \<le> length ticks. n \<le> turns j q k \<and> current (tick_run (take n ticks) k) = Some j"
    if "rr_ok j q k" "turns j q k \<le> length ticks" "list_all (\<lambda>(now, tf, c). length tf = 32) ticks"
    for ticks :: "(u64 \<times> u64 list \<times> csr) list" and k
    using that
  proof (induction ticks arbitrary: k)
    case Nil
    then show ?case by (simp add: turns_def)
  next
    case (Cons x xs)
    obtain now tf c where x: "x = (now, tf, c)" by (cases x)
    define k' where "k' = snd (sched_tick now tf (k\<lparr>k_csr := c\<rparr>))"
    have step: "current k' = Some j \<or> rr_ok j q k' \<and> turns j q k' < turns j q k"
      using rr_tick [OF Cons.prems(1), of tf now c] Cons.prems(3) by (simp add: x k'_def Let_def)
    have pos: "1 \<le> turns j q k" by (simp add: turns_def)
    show ?case
    proof (cases "current k' = Some j")
      case True
      then show ?thesis using pos by (intro exI [of _ 1]) (simp add: x k'_def)
    next
      case False
      then have "rr_ok j q k'" "turns j q k' < turns j q k" using step by auto
      then obtain n where n: "n \<le> length xs" "n \<le> turns j q k'" "current (tick_run (take n xs) k') = Some j"
        using Cons.IH [of k'] Cons.prems by auto
      then show ?thesis using \<open>turns j q k' < turns j q k\<close> by (intro exI [of _ "Suc n"]) (simp add: x k'_def)
    qed
  qed
  from this [OF assms(1) _ assms(3)] have "\<exists>n \<le> length ticks. n \<le> turns j q k \<and> current (tick_run (take n ticks) k) = Some j"
    if "turns j q k \<le> length ticks" using that .
  moreover have "turns j q k \<le> 16 * q"
  proof -
    obtain c where c: "current k = Some c" "c < 16" "used_task (task_at k c)"
      using assms(1) task_ok_current [of k] by (auto simp: rr_ok_def)
    have "max 1 (unat (ticks_left (task_at k c))) \<le> q" using assms(1) c by (auto simp: rr_ok_def)
    then show ?thesis using slice_bound [OF distance_less [of k j]] c(1) by (simp add: turns_def)
  qed
  ultimately show ?thesis using assms(2) by (meson le_trans)
qed

theorem round_robin_fair_witness:
  "\<exists>n \<le> 16. current (tick_run (take n (replicate 16 (0, replicate 32 0, \<lambda>_. 0))) sample_two) = Some 1"
proof -
  have "rr_ok 1 1 sample_two" using sample_two_facts unfolding rr_ok_def by simp
  then show ?thesis
    using round_robin_fair [of 1 1 sample_two "replicate 16 (0, replicate 32 0, \<lambda>_. 0)"] by (simp add: list_all_iff)
qed

definition sample_blocked :: kernel where
  "sample_blocked = set_task 1 (\<lambda>t. t\<lparr>t_state := TASK_BLOCKED\<rparr>) (start_task 1 (make_ready 0 sample_two))"

theorem reschedule_runs_witness:
  "\<exists>n k'. task_reschedule 0 (replicate 32 0) sample_blocked = ((True, tc_regs (trap_ctx (task_at sample_blocked n))), k') \<and>
    n \<noteq> 1 \<and> current k' = Some n \<and> t_state (task_at k' n) = TASK_RUNNING"
proof -
  have l: "length (tasks sample_two) = 16" by (rule task_okD(1) [OF sample_two_facts(1)])
  have z: "t_state (task_at sample_two 0) = TASK_RUNNING"
    using sample_init(6) task_okD(1) [OF sample_init(1)] by (simp add: sample_two_def Let_def counted_def)
  have r: "task_ok (make_ready 0 sample_two)" by (rule make_ready_ok [OF sample_two_facts(1)]) (use z in simp_all)
  have "t_state (task_at (make_ready 0 sample_two) i) \<noteq> TASK_RUNNING" if "i < 16" for i
    using that l task_ok_running [OF sample_two_facts(1) that] sample_two_facts(2) by (auto simp: make_ready_at)
  then have s: "task_ok (start_task 1 (make_ready 0 sample_two))"
    by (intro start_task_ok [OF r]) (use l sample_two_facts(4) in \<open>simp_all add: make_ready_at\<close>)
  have cur: "current (start_task 1 (make_ready 0 sample_two)) = Some 1" by (simp add: start_task_def)
  have "task_ok sample_blocked" unfolding sample_blocked_def
    by (rule task_ok_set [OF s]) (use l cur in \<open>simp_all add: Let_def start_task_at\<close>)
  moreover have "current sample_blocked = Some 1" "t_state (task_at sample_blocked 1) = TASK_BLOCKED"
    using cur l by (simp_all add: sample_blocked_def start_task_def)
  ultimately show ?thesis using reschedule_runs [of sample_blocked "replicate 32 0" 1 0] by auto
qed

end
