(* ===== verification/Os_Resume.thy ===== *)
theory Os_Resume
  imports Os_Sched
begin

text \<open>
  A preempted process gets its registers back, whatever other processes do in between.
\<close>

section \<open>What the others leave alone\<close>

text \<open>
  \<open>still i k k'\<close>: if slot \<open>i\<close> holds in \<open>k'\<close> a process that existed in \<open>k\<close>, it held it in \<open>k\<close>, with the same saved context.
\<close>

definition still :: "nat \<Rightarrow> kernel \<Rightarrow> kernel \<Rightarrow> bool" where
  "still i k k' \<longleftrightarrow> next_pid k \<le> next_pid k' \<and>
     (used_task (task_at k' i) \<longrightarrow> t_pid (task_at k' i) < next_pid k \<longrightarrow>
        used_task (task_at k i) \<and> t_pid (task_at k' i) = t_pid (task_at k i) \<and> trap_ctx (task_at k' i) = trap_ctx (task_at k i))"

lemma still_refl [simp]: "still i k k"
  by (simp add: still_def)

lemma still_trans [trans]: "still i k k' \<Longrightarrow> still i k' k'' \<Longrightarrow> still i k k''"
  unfolding still_def by auto

lemma still_eq: "task_at k' i = task_at k i \<Longrightarrow> next_pid k \<le> next_pid k' \<Longrightarrow> still i k k'"
  by (simp add: still_def)

lemma still_set:
  assumes "i < length (tasks k)" "j < length (tasks k)"
    "i = j \<Longrightarrow> used_task (f (task_at k i)) \<Longrightarrow> t_pid (f (task_at k i)) < next_pid k \<Longrightarrow>
       used_task (task_at k i) \<and> t_pid (f (task_at k i)) = t_pid (task_at k i) \<and> trap_ctx (f (task_at k i)) = trap_ctx (task_at k i)"
  shows "still i k (set_task j f k)"
  using assms by (auto simp: still_def)

lemma still_frame [simp]:
  "still i k (k'\<lparr>current := c\<rparr>) = still i k k'" "still i k (k'\<lparr>task_count := n\<rparr>) = still i k k'"
  "still i k (k'\<lparr>order_counter := u\<rparr>) = still i k k'" "still i k (k'\<lparr>switch_samples := u\<rparr>) = still i k k'"
  "still i k (k'\<lparr>max_switch_ticks := u\<rparr>) = still i k k'" "still i k (k'\<lparr>k_csr := cs\<rparr>) = still i k k'"
  "still i k (k'\<lparr>k_fs := s\<rparr>) = still i k k'" "still i k (k'\<lparr>k_mem := m\<rparr>) = still i k k'" "still i k (k'\<lparr>live_ctx := l\<rparr>) = still i k k'"
  "still i k (k'\<lparr>scheduler_policy := p\<rparr>) = still i k k'" "still i k (k'\<lparr>k_con := con\<rparr>) = still i k k'"
  "still i k (k'\<lparr>k_clint := cl\<rparr>) = still i k k'" "still i k (k'\<lparr>tick_count := tk\<rparr>) = still i k k'"
  "still i k (k'\<lparr>timer_interval := ti\<rparr>) = still i k k'" "still i k (k'\<lparr>timeslice_ms := ms\<rparr>) = still i k k'"
  "still i k (k'\<lparr>trap_silent := b\<rparr>) = still i k k'" "still i k (k'\<lparr>halted := b\<rparr>) = still i k k'"
  "still i k (k'\<lparr>dirent_buffer := bs\<rparr>) = still i k k'" "still i k (k'\<lparr>process_buffer := bs\<rparr>) = still i k k'"
  by (simp_all add: still_def)

lemma still_make_ready:
  "i < length (tasks k) \<Longrightarrow> j < length (tasks k) \<Longrightarrow> used_task (task_at k j) \<Longrightarrow> still i k (make_ready j k)"
  by (auto simp: still_def make_ready_at) (auto simp: make_ready_def Let_def)

lemma still_start_task:
  "i < length (tasks k) \<Longrightarrow> j < length (tasks k) \<Longrightarrow> used_task (task_at k j) \<Longrightarrow> still i k (start_task j k)"
  by (auto simp: still_def start_task_at) (auto simp: start_task_def)

section \<open>Switches\<close>

lemma switch_rest_still:
  assumes "task_ok k" "current k = Some c" "i < 16"
  shows "still i k (snd (switch_rest c tf k))"
proof -
  define k1 where "k1 = (if t_state (task_at k c) = TASK_RUNNING then make_ready c k else k)"
  note p = switch_prev [OF assms(1,2) k1_def]
  have l: "length (tasks k) = 16" "length (tasks k1) = 16" using task_okD(1) [OF assms(1)] task_okD(1) [OF p(1)] by simp_all
  have s1: "still i k k1" using still_make_ready [of i k c] l p assms(3) by (simp add: k1_def)
  show ?thesis
  proof (cases "select_next k1")
    case None
    have "still i k1 (set_task c (\<lambda>t. t\<lparr>t_state := TASK_RUNNING, ticks_left := time_slice t\<rparr>) k1)" if "ready k1 c"
      by (rule still_set) (use l p assms(3) that in auto)
    then show ?thesis using None s1 still_trans [OF s1] by (simp add: switch_rest_def Let_def flip: k1_def)
  next
    case (Some n)
    have n: "n < 16" "ready k1 n" using select_next_Some [OF _ Some] p(2,4) by auto
    have "still i k1 (start_task n k1)" by (rule still_start_task) (use l n assms(3) in auto)
    then show ?thesis using switch_rest_Some [OF k1_def Some, of tf] still_trans [OF s1] by auto
  qed
qed

lemma switch_from_trap_still:
  assumes "task_ok k" "length tf = 32" "i < 16" "current k \<noteq> Some i"
  shows "still i k (snd (switch_from_trap tf force k))"
proof -
  obtain c where c: "current k = Some c" "c < 16" "used_task (task_at k c)" using task_ok_current [OF assms(1)] .
  define k1 where "k1 = save_trap_context c tf k"
  define k2 where "k2 = set_task c (\<lambda>t. t\<lparr>runtime_ticks := runtime_ticks t + 1\<rparr>) k1"
  define k3 where "k3 = set_task c (\<lambda>t. t\<lparr>ticks_left := ticks_left t - 1\<rparr>) k2"
  note l = task_okD(1) [OF assms(1)]
  have same: "task_at k1 i = task_at k i" "task_at k2 i = task_at k i" "task_at k3 i = task_at k i"
    "next_pid k1 = next_pid k" "next_pid k2 = next_pid k" "next_pid k3 = next_pid k"
    using l c assms(4) by (auto simp: k1_def k2_def k3_def save_trap_context_def)
  have s: "still i k k1" "still i k k2" "still i k k3" by (rule still_eq; simp add: same)+
  have 1: "task_ok k1" unfolding k1_def by (rule save_trap_context_ok) (use assms c in simp_all)
  have 2: "task_ok k2" unfolding k2_def
    by (rule task_ok_set [OF 1 c(2)]) (use task_okD(4) [OF 1] task_ok_running [OF 1 c(2)] in \<open>auto simp: Let_def\<close>)
  have cur: "current k1 = Some c" "current k2 = Some c" using c by (simp_all add: k1_def k2_def)
  have r: "still i k (snd (switch_rest c tf k1))" "still i k (snd (switch_rest c tf k2))"
    using still_trans [OF s(1) switch_rest_still [OF 1 cur(1) assms(3)]]
      still_trans [OF s(2) switch_rest_still [OF 2 cur(2) assms(3)]] by simp_all
  show ?thesis using c(1) s r
    by (simp add: switch_from_trap_def Let_def k3_def flip: k1_def k2_def)
qed

lemma timed_switch_still:
  "task_ok k \<Longrightarrow> length tf = 32 \<Longrightarrow> i < 16 \<Longrightarrow> current k \<noteq> Some i \<Longrightarrow> still i k (snd (timed_switch now tf force k))"
  using switch_from_trap_still [of k tf i force] by (auto simp: timed_switch_def Let_def split: prod.split)

lemma yield_still:
  assumes "task_ok k" "task_current_state k = TASK_RUNNING" "i < 16"
  shows "still i k (yield k)"
proof -
  obtain c where c: "current k = Some c" "c < 16" using task_ok_current [OF assms(1)] .
  define k1 where "k1 = (if t_state (task_at k c) = TASK_RUNNING then make_ready c k else k)"
  note p = switch_prev [OF assms(1) c(1) k1_def]
  have l: "length (tasks k) = 16" "length (tasks k1) = 16" using task_okD(1) [OF assms(1)] task_okD(1) [OF p(1)] by simp_all
  have s1: "still i k k1" using still_make_ready [of i k c] l p assms(3) by (simp add: k1_def)
  have run: "t_state (task_at k c) = TASK_RUNNING" using assms(2) c(1) by (simp add: task_current_state_def)
  then have u: "used_task (task_at k1 c)" using l c by (simp add: k1_def make_ready_at)
  have "still i k1 (set_task c (\<lambda>t. t\<lparr>t_state := TASK_RUNNING\<rparr>) k1)" by (rule still_set) (use l c assms(3) u in auto)
  moreover have "still i k1 (switch_to c n (start_task n k1))" if "select_next k1 = Some n" for n
  proof -
    have n: "n < 16" "ready k1 n" using select_next_Some [OF _ that] p(2,4) by auto
    have "still i k1 (start_task n k1)" by (rule still_start_task) (use l n assms(3) in auto)
    moreover have "length (tasks (start_task n k1)) = 16" using l by (simp add: start_task_def)
    then have "still i (start_task n k1) (set_task c (\<lambda>t. t\<lparr>t_ctx := live_ctx (start_task n k1)\<rparr>) (start_task n k1))"
      by (intro still_set) (use c assms(3) in auto)
    ultimately have "still i k1 (set_task c (\<lambda>t. t\<lparr>t_ctx := live_ctx (start_task n k1)\<rparr>) (start_task n k1))"
      by (rule still_trans)
    then show ?thesis by (simp add: switch_to_def Let_def)
  qed
  ultimately show ?thesis using c s1 still_trans [OF s1]
    by (auto simp: yield_def Let_def split: option.split simp flip: k1_def)
qed

section \<open>Calls\<close>

lemma new_task_still:
  assumes "length (tasks k) = 16" "free_slot k = Some slot" "i < 16" "\<And>t. t_pid (f t) = next_pid k"
  shows "still i k (counted (set_task slot f k))"
    "(\<And>t. t_state (g t) = TASK_UNUSED) \<Longrightarrow>
     still i k ((set_task slot g ((counted (set_task slot f k))\<lparr>k_fs := s\<rparr>))\<lparr>task_count := n\<rparr>)"
  using assms free_slot_Some [OF assms(2)] by (auto simp: still_def counted_def)

lemma create_still:
  assumes "length (tasks k) = 16" "i < 16" "task_create entry name k = Some (pid, k')" shows "still i k k'"
proof (cases "entry = 0 \<or> task_count k \<ge> 16 \<or> free_slot k = None")
  case False
  then obtain slot where slot: "free_slot k = Some slot" by auto
  have "t_pid (created entry name k slot t) = next_pid k" for t by (simp add: created_def Let_def)
  then show ?thesis using False slot new_task_still [OF assms(1) slot assms(2), of "created entry name k slot"] assms(3)
    by (auto simp: task_create_eq withdraw_def Let_def split: if_splits)
qed (use assms(3) in \<open>auto simp: task_create_def split: option.splits\<close>)

lemma fork_still:
  assumes "task_ok k" "task_current_state k = TASK_RUNNING" "i < 16"
    "task_fork_from_trap tf epc space k = Some (pid, k')"
  shows "still i k k'"
proof (cases "current k = None \<or> task_count k \<ge> 16 \<or> free_slot k = None")
  case False
  then obtain slot where slot: "free_slot k = Some slot" by auto
  obtain c where c: "current k = Some c" "c < 16" "t_state (task_at k c) = TASK_RUNNING"
    using running_current [OF assms(1,2)] .
  have "c \<noteq> slot" using free_slot_Some [OF slot] c by auto
  have l: "length (tasks k) = 16" by (rule task_okD(1) [OF assms(1)])
  have "t_pid (forked tf epc space k slot t) = next_pid k" for t by (simp add: forked_def)
  then show ?thesis
    using False slot new_task_still [OF l slot assms(3), of "forked tf epc space k slot"] task_fork_eq [OF c(1) \<open>c \<noteq> slot\<close> l _ slot] assms(4)
    by (auto simp: withdraw_def Let_def split: if_splits)
qed (use assms(4) in \<open>auto simp: task_fork_from_trap_def split: option.splits\<close>)

lemma zombie_still:
  assumes "length (tasks k) = 16" "z < 16" "i < 16" "used_task (task_at k z)"
  shows "still i k (for_each 16 (orphan pid) (wake_parent z ((set_task z (\<lambda>t. t\<lparr>exit_code := code, t_state := TASK_ZOMBIE, wait_channel := w t\<rparr>) k)\<lparr>k_fs := s\<rparr>)))"
proof -
  define k0 where "k0 = (set_task z (\<lambda>t. t\<lparr>exit_code := code, t_state := TASK_ZOMBIE, wait_channel := w t\<rparr>) k)\<lparr>k_fs := s\<rparr>"
  have l: "length (tasks k0) = 16" "next_pid k0 = next_pid k" using assms by (simp_all add: k0_def)
  have 0: "still i k k0" unfolding k0_def using assms by (simp add: still_def)
  have 1: "still i k0 (wake_parent z k0)"
    using wake_parent_facts(1) [OF l(1), of z i] wake_parent_facts(4) [OF l(1), of z] by (auto simp: still_def)
  have l2: "length (tasks (wake_parent z k0)) = 16" using l by simp
  have 2: "still i (wake_parent z k0) (for_each 16 (orphan pid) (wake_parent z k0))"
    using orphan_all [OF l2, of pid i] by (auto simp: still_def)
  show ?thesis using still_trans [OF still_trans [OF 0 1] 2] by (simp add: k0_def)
qed

lemma exit_still:
  assumes "task_ok k" "i < 16" shows "still i k (task_exit code k)"
proof (cases "current k")
  case (Some c)
  then have c: "c < 16" "used_task (task_at k c)" using task_ok_current [OF assms(1)] by auto
  show ?thesis
    using zombie_still [OF task_okD(1) [OF assms(1)] c(1) assms(2) c(2), where code = code and w = wait_channel] Some
    by (auto simp: task_exit_def Let_def)
qed (simp add: task_exit_def)

lemma kill_still:
  assumes "task_ok k" "i < 16" shows "still i k (snd (task_kill pid code k))"
proof (cases "find_pid k pid")
  case (Some z)
  then have z: "z < 16" "used_task (task_at k z)" by (auto simp: find_pid_def first_index_Some)
  show ?thesis
    using zombie_still [OF task_okD(1) [OF assms(1)] z(1) assms(2) z(2), where code = code and w = "\<lambda>_. None"] Some
    by (auto simp: task_kill_def Let_def)
qed (simp add: task_kill_def)

lemma waitpid_still:
  assumes "task_ok k" "i < 16" shows "still i k (snd (task_waitpid pid nohang k))"
proof -
  obtain c where c: "current k = Some c" "c < 16" "used_task (task_at k c)" using task_ok_current [OF assms(1)] .
  note l = task_okD(1) [OF assms(1)]
  have "still i k (reap j k)" if "j < 16" for j
    using reap_facts [OF l that] by (cases "i = j") (auto simp: still_def)
  moreover have "still i k (set_task c (\<lambda>t. t\<lparr>wait_target := pid, wait_channel := Some (ChTask c), t_state := TASK_BLOCKED\<rparr>) k)"
    by (rule still_set) (use l c assms(2) in auto)
  ultimately show ?thesis using c
    by (auto simp: task_waitpid_def Let_def first_index_Some split: option.split)
qed

lemma still_irq [simp]:
  "still i (snd (local_irq_save k)) k' = still i k k'" "still i k (local_irq_restore st k') = still i k k'"
  by (simp_all add: still_def local_irq_save_def local_irq_restore_def trap_write_def)

lemma wake_still: "length (tasks k) = 16 \<Longrightarrow> i < 16 \<Longrightarrow> j < 16 \<Longrightarrow> used_task (task_at k j) \<Longrightarrow> still i k (wake j k)"
  by (auto simp: still_def wake_def make_ready_at) (auto simp: make_ready_def Let_def)

lemma block_still:
  assumes "task_ok k" "i < 16" shows "still i k (task_block ch k)"
proof -
  obtain c where c: "current k = Some c" "c < 16" "used_task (task_at k c)" using task_ok_current [OF assms(1)] .
  obtain st k1 where k1: "local_irq_save k = (st, k1)" by (metis surj_pair)
  have l: "length (tasks k1) = 16" "current k1 = Some c" "task_at k1 = task_at k" "\<And>k'. still i k1 k' = still i k k'"
    using k1 irq_ok(3,5) [of k] still_irq(1) [of i k] task_okD(1) [OF assms(1)] c(1)
    by (auto simp: local_irq_save_def)
  have "still i k1 (set_task c (\<lambda>t. t\<lparr>wait_channel := ch, t_state := TASK_BLOCKED\<rparr>) k1)"
    by (rule still_set) (use l c assms(2) in auto)
  then show ?thesis using l c k1 by (simp add: task_block_def update_current_def)
qed

lemma wake_one_still:
  assumes "task_ok k" "i < 16" shows "still i k (snd (task_wake_one ch k))"
proof -
  obtain st k1 where k1: "local_irq_save k = (st, k1)" by (metis surj_pair)
  have l: "length (tasks k1) = 16" "\<And>k'. still i k1 k' = still i k k'"
    using k1 still_irq(1) [of i k] task_okD(1) [OF assms(1)] by (auto simp: local_irq_save_def)
  have "still i k k1" using l(2) [of k1] by simp
  then show ?thesis using l wake_still [OF l(1) assms(2)]
    by (auto simp: task_wake_one_def Let_def k1 first_index_Some waits_on_def split: option.split)
qed

lemma wake_all_still:
  assumes "task_ok k" "i < 16" shows "still i k (snd (task_wake_all ch k))"
proof -
  obtain st k1 where k1: "local_irq_save k = (st, k1)" by (metis surj_pair)
  have l: "length (tasks k1) = 16" "\<And>k'. still i k1 k' = still i k k'"
    using k1 still_irq(1) [of i k] task_okD(1) [OF assms(1)] by (auto simp: local_irq_save_def)
  let ?f = "\<lambda>i (n :: int, k). if waits_on ch k i then (n + 1, wake i k) else (n, k)"
  have "(\<lambda>(n, k). length (tasks k) = 16 \<and> still i k1 k) (for_each 16 ?f (0, k1))"
  proof (rule for_each_inv)
    fix j :: nat and nk :: "int \<times> kernel" assume j: "j < 16" and nk: "case nk of (n, k) \<Rightarrow> length (tasks k) = 16 \<and> still i k1 k"
    obtain n k' where [simp]: "nk = (n, k')" by (cases nk)
    show "case ?f j nk of (n, k) \<Rightarrow> length (tasks k) = 16 \<and> still i k1 k"
      using nk j still_trans [OF _ wake_still [of k' i j]] assms(2) by (auto simp: waits_on_def)
  qed (use l(1) still_refl [of i k1] in simp)
  then show ?thesis using l by (auto simp: task_wake_all_def Let_def k1 split: prod.splits)
qed

lemma update_still:
  assumes "task_ok k" "i < 16" "current k \<noteq> Some i" shows "still i k (update_current f k)"
proof -
  obtain c where c: "current k = Some c" "c < 16" using task_ok_current [OF assms(1)] .
  then show ?thesis using assms task_okD(1) [OF assms(1)] by (auto simp: update_current_def intro!: still_set)
qed

lemma space_still:
  assumes "task_ok k" "i < 16" "current k \<noteq> Some i"
  shows "still i k (snd (task_attach_address_space space k))" "still i k (snd (task_replace_address_space space k))"
proof -
  obtain c where c: "current k = Some c" "c < 16" using task_ok_current [OF assms(1)] .
  then show "still i k (snd (task_attach_address_space space k))" "still i k (snd (task_replace_address_space space k))"
    using assms task_okD(1) [OF assms(1)]
    by (auto simp: task_attach_address_space_def task_replace_address_space_def intro!: still_set)
qed

lemma quantum_still:
  assumes "task_ok k" "i < 16" shows "still i k (task_set_quantum q k)"
proof -
  let ?q = "if q = 0 then 1 else q"
  have "length (tasks (for_each 16 (\<lambda>i k. if used_task (task_at k i) then set_task i (\<lambda>t. t\<lparr>time_slice := ?q, ticks_left := ?q\<rparr>) k else k)
      (k\<lparr>scheduler_quantum := ?q\<rparr>))) = 16 \<and>
    still i k (for_each 16 (\<lambda>i k. if used_task (task_at k i) then set_task i (\<lambda>t. t\<lparr>time_slice := ?q, ticks_left := ?q\<rparr>) k else k)
      (k\<lparr>scheduler_quantum := ?q\<rparr>))"
  proof (rule for_each_inv [where P = "\<lambda>k'. length (tasks k') = 16 \<and> still i k k'"])
    show "length (tasks (k\<lparr>scheduler_quantum := ?q\<rparr>)) = 16 \<and> still i k (k\<lparr>scheduler_quantum := ?q\<rparr>)"
      using task_okD(1) [OF assms(1)] by (simp add: still_def)
    fix j :: nat and k' assume a: "j < 16" "length (tasks k') = 16 \<and> still i k k'"
    have "still i k' (set_task j (\<lambda>t. t\<lparr>time_slice := ?q, ticks_left := ?q\<rparr>) k')"
      by (rule still_set) (use a assms(2) in auto)
    then show "length (tasks (if used_task (task_at k' j) then set_task j (\<lambda>t. t\<lparr>time_slice := ?q, ticks_left := ?q\<rparr>) k' else k')) = 16 \<and>
      still i k (if used_task (task_at k' j) then set_task j (\<lambda>t. t\<lparr>time_slice := ?q, ticks_left := ?q\<rparr>) k' else k')"
      using a still_trans by auto
  qed
  then show ?thesis by (simp add: task_set_quantum_def Let_def)
qed

lemma kstep_still: "kstep k k' \<Longrightarrow> task_ok k \<Longrightarrow> i < 16 \<Longrightarrow> current k \<noteq> Some i \<Longrightarrow> still i k k'"
proof (induction rule: kstep.induct)
  case (create k entry name pid k')
  then show ?case using create_still [OF task_okD(1), of k i entry name pid k'] by simp
next
  case (fork k tf epc space pid k')
  then show ?case using fork_still [of k i tf epc space pid k'] by simp
qed (simp_all add: sched_tick_def task_reschedule_def timed_switch_still yield_still
      exit_still kill_still waitpid_still block_still wake_one_still wake_all_still space_still update_still quantum_still
      task_set_current_cwd_def task_set_current_name_def task_set_current_entry_def task_set_scheduler_def)

section \<open>Coming back\<close>

text \<open>A history in which slot \<open>i\<close> is never the current one.\<close>

inductive away :: "nat \<Rightarrow> kernel \<Rightarrow> kernel \<Rightarrow> bool" for i where
  away_refl: "current k \<noteq> Some i \<Longrightarrow> away i k k"
| away_step: "away i k k' \<Longrightarrow> kstep k' k'' \<Longrightarrow> current k'' \<noteq> Some i \<Longrightarrow> away i k k''"

lemma away_still: "away i k k' \<Longrightarrow> task_ok k \<Longrightarrow> i < 16 \<Longrightarrow> still i k k' \<and> task_ok k' \<and> current k' \<noteq> Some i"
proof (induction rule: away.induct)
  case (away_step k k' k'')
  then show ?case using kstep_still [of k' k'' i] kstep_ok [of k' k''] still_trans by blast
qed simp

definition restored :: "trap_context \<Rightarrow> u64 list \<Rightarrow> kernel \<Rightarrow> bool" where
  "restored x tf k \<longleftrightarrow> tf = tc_regs x \<and> trap_read SEPC k = tc_epc x \<and> trap_read SATP k = tc_satp x \<and>
     trap_read SSTATUS k = tc_status x AND MASK_SSTATUS"

lemma restore_reads: "restore_trap_context i k = (tf, k') \<Longrightarrow> restored (trap_ctx (task_at k i)) tf k'"
  by (auto simp: restore_trap_context_def restored_def Let_def trap_write_def trap_read_def csr_store_def csr_load_views
      masked_write_read split: if_splits)

text \<open>A trap either leaves the current task in place or ends in \<open>switch_rest\<close> with its context saved.\<close>

lemma switch_form:
  assumes "task_ok k" "length tf = 32" "current k = Some c"
  obtains (stay) k' where "switch_from_trap tf force k = ((False, tf), k')" "current k' = Some c"
  | (switch) k' where "switch_from_trap tf force k = switch_rest c tf k'" "task_ok k'" "current k' = Some c"
      "\<And>i. i \<noteq> c \<Longrightarrow> task_at k' i = task_at k i" "t_pid (task_at k' c) = t_pid (task_at k c)" "t_state (task_at k' c) = t_state (task_at k c)"
      "trap_ctx (task_at k' c) = \<lparr>tc_regs = tf, tc_epc = trap_read SEPC k, tc_status = trap_read SSTATUS k, tc_satp = trap_read SATP k\<rparr>"
proof -
  have c: "c < 16" "used_task (task_at k c)" using task_ok_current [OF assms(1)] assms(3) by auto
  define k1 where "k1 = save_trap_context c tf k"
  define k2 where "k2 = set_task c (\<lambda>t. t\<lparr>runtime_ticks := runtime_ticks t + 1\<rparr>) k1"
  note l = task_okD(1) [OF assms(1)]
  have 1: "task_ok k1" unfolding k1_def by (rule save_trap_context_ok) (use assms c in simp_all)
  have 2: "task_ok k2" unfolding k2_def
    by (rule task_ok_set [OF 1 c(1)]) (use task_okD(4) [OF 1] task_ok_running [OF 1 c(1)] in \<open>auto simp: Let_def\<close>)
  have facts: "current k' = Some c \<and> (\<forall>i. i \<noteq> c \<longrightarrow> task_at k' i = task_at k i) \<and> t_pid (task_at k' c) = t_pid (task_at k c) \<and>
      t_state (task_at k' c) = t_state (task_at k c) \<and>
      trap_ctx (task_at k' c) = \<lparr>tc_regs = tf, tc_epc = trap_read SEPC k, tc_status = trap_read SSTATUS k, tc_satp = trap_read SATP k\<rparr>"
    if "k' = k1 \<or> k' = k2" for k'
    using that l c assms(2,3) by (auto simp: k1_def k2_def save_trap_context_def)
  have "current (set_task c (\<lambda>t. t\<lparr>ticks_left := ticks_left t - 1\<rparr>) k2) = Some c" using facts [of k2] by simp
  then have "switch_from_trap tf force k = switch_rest c tf k1 \<or> switch_from_trap tf force k = switch_rest c tf k2 \<or>
      (\<exists>k'. switch_from_trap tf force k = ((False, tf), k') \<and> current k' = Some c)"
    unfolding switch_from_trap_def assms(3) option.case Let_def k1_def [symmetric] k2_def [symmetric]
    using assms(3) facts [of k2] by auto
  then consider (a) "switch_from_trap tf force k = switch_rest c tf k1" | (b) "switch_from_trap tf force k = switch_rest c tf k2"
    | (s) k' where "switch_from_trap tf force k = ((False, tf), k')" "current k' = Some c" by blast
  then show thesis
  proof cases
    case a
    then show thesis using switch [of k1] 1 facts [of k1] by simp
  next
    case b
    then show thesis using switch [of k2] 2 facts [of k2] by simp
  next
    case s
    then show thesis by (rule stay)
  qed
qed

lemma switch_back:
  assumes "task_ok k" "length tf = 32" "current k \<noteq> Some i" "i < 16" "switch_from_trap tf force k = ((b, tf'), k')" "current k' = Some i"
  shows "restored (trap_ctx (task_at k i)) tf' k'"
proof -
  obtain c where c: "current k = Some c" "c < 16" using task_ok_current [OF assms(1)] .
  then have "i \<noteq> c" using assms(3) by auto
  show ?thesis
  proof (rule switch_form [OF assms(1,2) c(1), of force], goal_cases)
    case (2 kx)
    note switch = 2
    define k1 where "k1 = (if t_state (task_at kx c) = TASK_RUNNING then make_ready c kx else kx)"
    note p = switch_prev [OF switch(2,3) k1_def]
    have l: "length (tasks kx) = 16" "length (tasks k1) = 16" using task_okD(1) [OF switch(2)] task_okD(1) [OF p(1)] by simp_all
    show ?thesis
    proof (cases "select_next k1")
      case None
      then have "current k' = Some c" using assms(5) switch(1,3) p(4)
        by (auto simp: switch_rest_def Let_def split: if_splits simp flip: k1_def)
      then show ?thesis using assms(6) \<open>i \<noteq> c\<close> by simp
    next
      case (Some n)
      have r: "restore_trap_context n (start_task n k1) = (tf', k')" and "n < 16"
        using Some assms(5) switch(1) select_next_Some(1) [OF _ Some] p(2,4)
        by (auto simp: switch_rest_def Let_def split: prod.splits simp flip: k1_def)
      have "n = i" using restore_csr [of n "start_task n k1"] r assms(6) by (auto simp: start_task_def)
      moreover have "trap_ctx (task_at (start_task i k1) i) = trap_ctx (task_at k i)"
        using l assms(4) switch(4) [OF \<open>i \<noteq> c\<close>] \<open>i \<noteq> c\<close> c(2) by (simp add: start_task_at k1_def make_ready_at)
      ultimately show ?thesis using restore_reads [OF r] by simp
    qed
  qed (use assms \<open>i \<noteq> c\<close> in auto)
qed

lemma switch_away:
  assumes "task_ok k" "length tf = 32" "current k = Some i" "switch_from_trap tf force k = ((True, tf'), k')"
  shows "current k' \<noteq> Some i" "used_task (task_at k' i)" "t_pid (task_at k' i) = t_pid (task_at k i)"
    "trap_ctx (task_at k' i) = \<lparr>tc_regs = tf, tc_epc = trap_read SEPC k, tc_status = trap_read SSTATUS k, tc_satp = trap_read SATP k\<rparr>"
proof -
  have i: "i < 16" "used_task (task_at k i)" using task_ok_current [OF assms(1)] assms(3) by auto
  have "current k' \<noteq> Some i \<and> used_task (task_at k' i) \<and> t_pid (task_at k' i) = t_pid (task_at k i) \<and>
    trap_ctx (task_at k' i) = \<lparr>tc_regs = tf, tc_epc = trap_read SEPC k, tc_status = trap_read SSTATUS k, tc_satp = trap_read SATP k\<rparr>"
  proof (rule switch_form [OF assms(1,2,3), of force], goal_cases)
    case (2 kx)
    note switch = 2
    define k1 where "k1 = (if t_state (task_at kx i) = TASK_RUNNING then make_ready i kx else kx)"
    note p = switch_prev [OF switch(2,3) k1_def]
    have l: "length (tasks kx) = 16" "length (tasks k1) = 16" using task_okD(1) [OF switch(2)] task_okD(1) [OF p(1)] by simp_all
    have at: "trap_ctx (task_at k1 i) = trap_ctx (task_at kx i)" "t_pid (task_at k1 i) = t_pid (task_at kx i)" "used_task (task_at k1 i)"
      using l i switch(6) by (simp_all add: k1_def make_ready_at)
    show ?thesis
    proof (cases "select_next k1")
      case None
      then show ?thesis using assms(4) switch(1) by (auto simp: switch_rest_def Let_def simp flip: k1_def)
    next
      case (Some n)
      have "n < 16" using select_next_Some(1) [OF _ Some] p(2,4) by auto
      obtain csr where "k' = (start_task n k1)\<lparr>k_csr := csr\<rparr>" "n \<noteq> i"
        using switch_rest_Some [OF k1_def Some, of tf] assms(4) switch(1) by auto
      then show ?thesis using l at switch \<open>n < 16\<close> by (simp add: start_task_at) (simp add: start_task_def)
    qed
  qed (use assms in auto)
  then show "current k' \<noteq> Some i" "used_task (task_at k' i)" "t_pid (task_at k' i) = t_pid (task_at k i)"
    "trap_ctx (task_at k' i) = \<lparr>tc_regs = tf, tc_epc = trap_read SEPC k, tc_status = trap_read SSTATUS k, tc_satp = trap_read SATP k\<rparr>"
    by simp_all
qed

text \<open>
  C26. A preempted process resumes with its own registers.  Let a trap with frame \<open>tf\<close> switch away from process p; let the
  kernel and the other processes take any steps; and let a later trap switch back to p's slot, p being still there.  Then
  that trap returns the frame \<open>tf\<close>, and the program counter, the status and the address space (sepc, sstatus, satp) are
  those of the moment p was interrupted.
\<close>

theorem registers_restored:
  assumes "task_ok k" "length tf = 32" "current k = Some i" "switch_from_trap tf force k = ((True, tf1), k1)" "away i k1 k2"
    "length tf2 = 32" "switch_from_trap tf2 force2 k2 = ((True, tf3), k3)" "current k3 = Some i"
    "t_pid (task_at k2 i) = t_pid (task_at k i)" "used_task (task_at k2 i)"
  shows "tf3 = tf \<and> trap_read SEPC k3 = trap_read SEPC k \<and> trap_read SSTATUS k3 = trap_read SSTATUS k \<and>
    trap_read SATP k3 = trap_read SATP k"
proof -
  have i: "i < 16" using task_ok_current [OF assms(1)] assms(3) by auto
  have ok1: "task_ok k1" using switch_from_trap_ok [OF assms(1,2), of force] assms(4) by simp
  note a = switch_away [OF assms(1-4)]
  have away: "still i k1 k2" "task_ok k2" "current k2 \<noteq> Some i" using away_still [OF assms(5) ok1 i] by auto
  have "t_pid (task_at k1 i) < next_pid k1"
    using task_okD(2,5) [OF ok1] i a(2) by (cases "i = 0") (auto simp: slot_ok_def Let_def)
  then have x: "trap_ctx (task_at k2 i) = trap_ctx (task_at k1 i)" using away(1) assms(9,10) a(3) by (simp add: still_def)
  show ?thesis
    using switch_back [OF away(2) assms(6) away(3) i assms(7,8)]
    unfolding x a(4) restored_def by (simp add: trap_read_def csr_load_views and.assoc)
qed

text \<open>Two processes take turns.\<close>

definition pair :: "nat \<Rightarrow> nat \<Rightarrow> kernel \<Rightarrow> bool" where
  "pair c d k \<longleftrightarrow> task_ok k \<and> scheduler_policy k = SCHED_RR \<and> current k = Some c \<and> t_state (task_at k c) = TASK_RUNNING \<and>
     c < 16 \<and> d < 16 \<and> d \<noteq> c \<and> ready k d \<and> (\<forall>i < 16. ready k i \<longrightarrow> i = d)"

lemma pair_swap:
  assumes "pair c d k" "length tf = 32"
  shows "\<exists>tf' k'. switch_from_trap tf True k = ((True, tf'), k') \<and> pair d c k' \<and> (\<forall>i. t_pid (task_at k' i) = t_pid (task_at k i))"
proof -
  have p: "task_ok k" "scheduler_policy k = SCHED_RR" "current k = Some c" "t_state (task_at k c) = TASK_RUNNING"
    "c < 16" "d < 16" "d \<noteq> c" "ready k d" "\<And>i. i < 16 \<Longrightarrow> ready k i \<Longrightarrow> i = d" using assms(1) by (simp_all add: pair_def)
  define k0 where "k0 = save_trap_context c tf k"
  define k1 where "k1 = make_ready c k0"
  have l: "length (tasks k) = 16" "length (tasks k0) = 16" "length (tasks k1) = 16"
    using task_okD(1) [OF p(1)] by (simp_all add: k0_def k1_def save_trap_context_def)
  have at: "t_state (task_at k1 i) = (if i = c then TASK_READY else t_state (task_at k i))" "t_pid (task_at k1 i) = t_pid (task_at k i)" for i
    using l p(5) by (simp_all add: k1_def k0_def make_ready_at save_trap_context_def)
  have k1: "k1 = (if t_state (task_at k0 c) = TASK_RUNNING then make_ready c k0 else k0)"
    using l p(4,5) by (simp add: k1_def k0_def save_trap_context_def)
  have cur: "current k1 = Some c" "scheduler_policy k1 = SCHED_RR" using p(2,3) by (simp_all add: k1_def k0_def make_ready_def Let_def)
  have r: "ready k1 i \<longleftrightarrow> i = c \<or> i = d" if "i < 16" for i using at(1) [of i] p(8,9) that by auto
  obtain n where n: "select_next k1 = Some n"
    using select_next_None [of k1 d] cur p(5,6) r by (cases "select_next k1") auto
  have n16: "n < 16" "ready k1 n" "distance k1 n \<le> distance k1 d"
    using select_rr_Some [of k1 n] n cur p(5,6) r by (auto simp: select_next_def)
  have "distance k1 d < 15" using p(5-7) cur(1) by (auto simp: distance_def mod_16)
  then have nd: "n = d" using n16 r [OF n16(1)] p(5) cur(1) by (auto simp: distance_def mod_16)
  have tc: "\<not> task_count k \<le> 1" using task_count_two [OF p(1), of c d] p(4-8) by simp
  obtain csr where e: "switch_from_trap tf True k =
      ((d \<noteq> c, tc_regs (trap_ctx (task_at (start_task d k1) d))), (start_task d k1)\<lparr>k_csr := csr\<rparr>)"
    using switch_rest_Some [OF k1 n, of tf] tc p(3) nd by (auto simp: switch_from_trap_def Let_def simp flip: k0_def)
  have "task_ok ((start_task d k1)\<lparr>k_csr := csr\<rparr>)" using switch_from_trap_ok [OF p(1) assms(2), of True] e by simp
  then have "pair d c ((start_task d k1)\<lparr>k_csr := csr\<rparr>)"
    using p(5-7) r l cur by (simp add: pair_def start_task_at) (auto simp: start_task_def)
  then show ?thesis using e p(6,7) l at(2) by (auto simp: start_task_at)
qed

theorem registers_restored_witness:
  "\<exists>tf1 k1 tf3 k3. switch_from_trap (replicate 32 7) True sample_two = ((True, tf1), k1) \<and>
     switch_from_trap (replicate 32 9) True k1 = ((True, tf3), k3) \<and> current k3 = Some 0 \<and> tf3 = replicate 32 7"
proof -
  have r: "\<forall>i < 16. ready sample_two i \<longrightarrow> i = 1"
    using sample_init(6,7) task_okD(1) [OF sample_init(1)]
    by (auto simp: sample_two_def Let_def counted_def) (metis gr0I task_state.distinct(1,9))
  have z: "t_state (task_at sample_two 0) = TASK_RUNNING"
    using sample_init(6) task_okD(1) [OF sample_init(1)] by (simp add: sample_two_def Let_def counted_def)
  have p: "pair 0 1 sample_two" unfolding pair_def
    by (intro conjI sample_two_facts(1-4) z r) simp_all
  obtain tf1 k1 where 1: "switch_from_trap (replicate 32 7) True sample_two = ((True, tf1), k1)" "pair 1 0 k1"
    "t_pid (task_at k1 0) = t_pid (task_at sample_two 0)"
    using pair_swap [OF p, of "replicate 32 7"] by auto
  obtain tf3 k3 where 3: "switch_from_trap (replicate 32 9) True k1 = ((True, tf3), k3)" "pair 0 1 k3"
    using pair_swap [OF 1(2), of "replicate 32 9"] by auto
  have "away 0 k1 k1" by (rule away_refl) (use 1(2) in \<open>simp add: pair_def\<close>)
  then have "tf3 = replicate 32 7"
    using registers_restored [OF sample_two_facts(1) _ sample_two_facts(2) 1(1) _ _ 3(1)] 3(2) 1(2,3) by (auto simp: pair_def)
  then show ?thesis using 1(1) 3 by (auto simp: pair_def)
qed

end
