(* ===== verification/Os_Exec.thy ===== *)
theory Os_Exec
  imports Os_Resume
begin

text \<open>
  Loading programs (\<^verbatim>\<open>kernel/user.c\<close>, lines 188-388 and 471-554): the checks on the ELF file, its segments, the initial
  stack with arguments and environment, and the replacement of the running program.  An argument vector is the list
  of its strings, None the null pointer.  The path buffers of the callers are byte strings.
\<close>

section \<open>The file\<close>

definition get16 :: "u8 list \<Rightarrow> nat \<Rightarrow> u16" where
  "get16 buf off = ucast (le_load 2 (\<lambda>i. buf ! (off + i)))"

definition get64 :: "u8 list \<Rightarrow> nat \<Rightarrow> u64" where
  "get64 buf off = le_load 8 (\<lambda>i. buf ! (off + i))"

definition enc64 :: "u64 \<Rightarrow> u8 list" where
  "enc64 w = map (le_byte w) [0..<8]"

record elf64_header =
  e_ident :: "u8 list"
  e_type :: u16
  e_machine :: u16
  e_version :: u32
  e_entry :: u64
  e_phoff :: u64
  e_ehsize :: u16
  e_phentsize :: u16
  e_phnum :: u16

text \<open>The fields the loader reads, at their offsets; the others (shoff, flags, shentsize, shnum, shstrndx) are not used.\<close>

definition elf_header_of :: "u8 list \<Rightarrow> elf64_header" where
  "elf_header_of b =
     \<lparr>e_ident = take 16 b, e_type = get16 b 16, e_machine = get16 b 18, e_version = get32 b 20, e_entry = get64 b 24,
      e_phoff = get64 b 32, e_ehsize = get16 b 52, e_phentsize = get16 b 54, e_phnum = get16 b 56\<rparr>"

record elf64_program_header =
  p_type :: u32
  p_flags :: u32
  p_offset :: u64
  p_vaddr :: u64
  p_filesz :: u64
  p_memsz :: u64

definition program_header_of :: "u8 list \<Rightarrow> elf64_program_header" where
  "program_header_of b =
     \<lparr>p_type = get32 b 0, p_flags = get32 b 4, p_offset = get64 b 8, p_vaddr = get64 b 16, p_filesz = get64 b 32, p_memsz = get64 b 40\<rparr>"

definition valid_elf_header :: "elf64_header \<Rightarrow> u32 \<Rightarrow> bool" where
  "valid_elf_header h file_size \<longleftrightarrow>
     take 7 (e_ident h) = [0x7f, 69, 76, 70, 2, 1, 1] \<and>
     e_type h = 2 \<and> e_machine h = 243 \<and> e_version h = 1 \<and> e_ehsize h = 64 \<and> e_phentsize h = 56 \<and>
     e_phnum h > 0 \<and> e_phnum h \<le> 16 \<and> e_phoff h \<le> ucast file_size \<and>
     e_phoff h + ucast (e_phnum h) * ucast (e_phentsize h) \<le> ucast file_size \<and>
     e_entry h \<ge> USER_MIN_VA \<and> e_entry h < USER_STACK_BOTTOM"

section \<open>Segments\<close>

definition segment_flags :: "u32 \<Rightarrow> u64" where
  "segment_flags f =
     (if f AND 4 \<noteq> 0 then PTE_R else 0) OR (if f AND 2 \<noteq> 0 then PTE_W else 0) OR (if f AND 1 \<noteq> 0 then PTE_X else 0)"

definition segment_ok :: "elf64_program_header \<Rightarrow> u32 \<Rightarrow> bool" where
  "segment_ok p file_size \<longleftrightarrow>
     \<not> (p_filesz p > p_memsz p \<or> p_offset p > ucast file_size \<or> p_filesz p > ucast file_size - p_offset p \<or>
        p_vaddr p < USER_MIN_VA \<or> p_vaddr p + p_memsz p < p_vaddr p \<or> p_vaddr p + p_memsz p > USER_STACK_BOTTOM) \<and>
     (let flags = segment_flags (p_flags p)
      in \<not> (flags AND (PTE_R OR PTE_W OR PTE_X) = 0 \<or> (flags AND PTE_W \<noteq> 0 \<and> flags AND PTE_R = 0)))"

definition page_list :: "u64 \<Rightarrow> u64 \<Rightarrow> u64 list" where
  "page_list lo hi = (if lo < hi then map (\<lambda>i. lo + of_nat i * PAGE_SIZE) [0..<unat (hi - lo) div 4096] else [])"

primrec map_pages :: "u64 list \<Rightarrow> u64 \<Rightarrow> task_address_space \<Rightarrow> mem_state \<Rightarrow> (int \<times> task_address_space) \<times> mem_state" where
  "map_pages [] flags space s = ((0, space), s)"
| "map_pages (va # vas) flags space s =
     (let ((r, space), s) = map_user_page space va flags s
      in if r < 0 then ((-1, space), s) else map_pages vas flags space s)"

text \<open>
  The copy in chunks of a sector; the chunk is computed on 32 bits, which the size of the file bounds.
\<close>

function load_bytes :: "u32 \<Rightarrow> elf64_program_header \<Rightarrow> task_address_space \<Rightarrow> nat \<Rightarrow> nat \<Rightarrow> kernel \<Rightarrow> int \<times> kernel" where
  "load_bytes inode p space copied filesz k =
     (if copied < filesz then
        let chunk = min (filesz - copied) 512;
            ((r, buf), s) = minifs_pread (k_fs k) inode (ucast (p_offset p + of_nat copied)) (Some (replicate 512 0)) (of_nat chunk);
            k = k\<lparr>k_fs := s\<rparr>
        in if r \<noteq> int chunk then (-1, k)
           else let (r, m) = copy_to_space space (p_vaddr p + of_nat copied) (the buf) (of_nat chunk) (k_mem k);
                    k = k\<lparr>k_mem := m\<rparr>
             in if r < 0 then (-1, k) else load_bytes inode p space (copied + chunk) filesz k
      else (0, k))"
  by auto
termination
  by (relation "measure (\<lambda>(inode, p, space, copied, filesz, k). filesz - copied)") auto

declare load_bytes.simps [simp del]

definition load_segment :: "u32 \<Rightarrow> elf64_program_header \<Rightarrow> u32 \<Rightarrow> task_address_space \<Rightarrow> kernel \<Rightarrow> (int \<times> task_address_space) \<times> kernel" where
  "load_segment inode p file_size space k =
     (if p_type p \<noteq> 1 then ((0, space), k)
      else if p_memsz p = 0 then ((if p_filesz p \<noteq> 0 then -1 else 0, space), k)
      else if \<not> segment_ok p file_size then ((-1, space), k)
      else let lo = p_vaddr p AND NOT (PAGE_SIZE - 1);
               hi = (p_vaddr p + p_memsz p + PAGE_SIZE - 1) AND NOT (PAGE_SIZE - 1);
               ((r, space), m) = map_pages (page_list lo hi) (segment_flags (p_flags p)) space (k_mem k);
               k = k\<lparr>k_mem := m\<rparr>
        in if r < 0 then ((-1, space), k)
           else let (r, k) = load_bytes inode p space 0 (unat (p_filesz p)) k in ((r, space), k))"

primrec load_segments :: "u32 \<Rightarrow> elf64_header \<Rightarrow> u32 \<Rightarrow> nat list \<Rightarrow> task_address_space \<Rightarrow> kernel \<Rightarrow> (int \<times> task_address_space) \<times> kernel" where
  "load_segments inode h file_size [] space k = ((0, space), k)"
| "load_segments inode h file_size (i # is) space k =
     (let offset = ucast (e_phoff h + of_nat i * ucast (e_phentsize h)) :: u32;
          ((r, buf), s) = minifs_pread (k_fs k) inode offset (Some (replicate 56 0)) 56;
          k = k\<lparr>k_fs := s\<rparr>
      in if r \<noteq> 56 then ((-1, space), k)
         else let ((r, space), k) = load_segment inode (program_header_of (the buf)) file_size space k
           in if r < 0 then ((-1, space), k) else load_segments inode h file_size is space k)"

text \<open>The header with its size and mode; None when the file is not a program.\<close>

definition read_header :: "u32 \<Rightarrow> kernel \<Rightarrow> (elf64_header \<times> u32) option \<times> kernel" where
  "read_header inode k =
     (let ((r, size), s) = minifs_inode_size (k_fs k) inode (Some 0); k = k\<lparr>k_fs := s\<rparr>
      in if r < 0 then (None, k)
         else let ((r, mode), s) = minifs_inode_mode (k_fs k) inode (Some 0); k = k\<lparr>k_fs := s\<rparr>
           in if r < 0 \<or> the mode AND 0x100 = 0 then (None, k)
              else let ((r, buf), s) = minifs_pread (k_fs k) inode 0 (Some (replicate 64 0)) 64; k = k\<lparr>k_fs := s\<rparr>;
                       h = elf_header_of (the buf)
                in if r \<noteq> 64 \<or> \<not> valid_elf_header h (the size) then (None, k) else (Some (h, the size), k))"

text \<open>The last checks of the loader and the stack pages.\<close>

definition finish_elf :: "elf64_header \<Rightarrow> task_address_space \<Rightarrow> kernel \<Rightarrow> (int \<times> task_address_space) \<times> kernel" where
  "finish_elf h space k =
     (case find_mapping space (e_entry h) of None \<Rightarrow> ((-1, space), k)
      | Some i \<Rightarrow>
        if pm_flags (as_pages space ! i) AND PTE_X = 0 then ((-1, space), k)
        else let ((r, space), m) = map_pages (page_list USER_STACK_BOTTOM USER_STACK_TOP) (PTE_R OR PTE_W) space (k_mem k)
          in ((r, space), k\<lparr>k_mem := m\<rparr>))"

record loaded_program =
  lp_space :: task_address_space
  lp_entry :: u64
  lp_stack_pointer :: u64
  lp_argv_pointer :: u64
  lp_envp_pointer :: u64
  lp_argc :: nat

definition load_elf :: "u32 \<Rightarrow> loaded_program \<Rightarrow> kernel \<Rightarrow> (int \<times> loaded_program) \<times> kernel" where
  "load_elf inode program k =
     (let (header, k) = read_header inode k
      in case header of None \<Rightarrow> ((-1, program), k)
         | Some (h, file_size) \<Rightarrow>
           let ((r, space), m) = create_empty_space (k_tables k) (lp_space program) (k_mem k); k = k\<lparr>k_mem := m\<rparr>
           in if r < 0 then ((-1, program\<lparr>lp_space := space\<rparr>), k)
              else let ((r, space), k) = load_segments inode h file_size [0..<unat (e_phnum h)] space k;
                       ((r, space), k) = (if r < 0 then ((r, space), k) else finish_elf h space k)
                in if r < 0 then
                     (let (space, m) = user_space_destroy space (k_mem k)
                      in ((-1, program\<lparr>lp_space := space\<rparr>), k\<lparr>k_mem := m\<rparr>))
                   else ((0, program\<lparr>lp_space := space, lp_entry := e_entry h\<rparr>), k))"

section \<open>The initial stack\<close>

definition string_length_limited :: "cstr \<Rightarrow> nat \<Rightarrow> int" where
  "string_length_limited string limit = (if length string \<ge> limit then -1 else int (length string))"

text \<open>Counts the strings of a vector of at most \<open>maximum\<close>; None when there are more or they take too many bytes.\<close>

fun count_strings :: "nat \<Rightarrow> cstr list \<Rightarrow> int \<Rightarrow> int option" where
  "count_strings maximum [] string_bytes = Some string_bytes"
| "count_strings 0 (s # ss) string_bytes = None"
| "count_strings (Suc n) (s # ss) string_bytes =
     (let len = string_length_limited s 2048
      in if len < 0 \<or> string_bytes + len + 1 > 2048 then None
         else count_strings n ss (string_bytes + len + 1))"

text \<open>Pushes strings, the last of the vector first; the addresses come out in the order of the vector.\<close>

primrec push_strings :: "task_address_space \<Rightarrow> cstr list \<Rightarrow> u64 \<Rightarrow> u64 list \<Rightarrow> mem_state \<Rightarrow> (u64 \<times> u64 list) option \<times> mem_state" where
  "push_strings space [] stack addresses m = (Some (stack, addresses), m)"
| "push_strings space (s # ss) stack addresses m =
     (let len = of_int (string_length_limited s 2048 + 1) :: u64;
          stack = stack - len;
          (r, m) = copy_to_space space stack (s @ [0]) len m
      in if r < 0 then (None, m) else push_strings space ss stack (stack # addresses) m)"

primrec copy_all :: "task_address_space \<Rightarrow> (u64 \<times> u8 list) list \<Rightarrow> mem_state \<Rightarrow> int \<times> mem_state" where
  "copy_all space [] m = (0, m)"
| "copy_all space (x # xs) m =
     (let (r, m) = copy_to_space space (fst x) (snd x) (of_nat (length (snd x))) m
      in if r < 0 then (-1, m) else copy_all space xs m)"

definition build_initial_stack :: "loaded_program \<Rightarrow> cstr list option \<Rightarrow> cstr list option \<Rightarrow> mem_state \<Rightarrow> (int \<times> loaded_program) \<times> mem_state" where
  "build_initial_stack program argv envp m =
     (let args = (case argv of None \<Rightarrow> [] | Some a \<Rightarrow> a);
          env = (case envp of None \<Rightarrow> [] | Some e \<Rightarrow> e);
          space = lp_space program
      in case count_strings 16 args 0 of None \<Rightarrow> ((-1, program), m)
         | Some bytes \<Rightarrow>
           (case count_strings 8 env bytes of None \<Rightarrow> ((-1, program), m)
            | Some _ \<Rightarrow>
              (case push_strings space (rev env) USER_STACK_TOP [] m of (None, m) \<Rightarrow> ((-1, program), m)
               | (Some (stack, env_addresses), m) \<Rightarrow>
                 (case push_strings space (rev args) stack [] m of (None, m) \<Rightarrow> ((-1, program), m)
                  | (Some (stack, argv_addresses), m) \<Rightarrow>
                    let argc = of_nat (length args) :: u64;
                        envc = of_nat (length env) :: u64;
                        stack = (stack - (1 + argc + 1 + envc + 1) * 8) AND NOT 15;
                        argv_pointer = stack + 8;
                        envp_pointer = argv_pointer + (argc + 1) * 8;
                        program = program\<lparr>lp_argv_pointer := argv_pointer, lp_envp_pointer := envp_pointer\<rparr>;
                        (r, m) = copy_all space
                          [(stack, enc64 argc),
                           (argv_pointer, concat (map enc64 argv_addresses)), (argv_pointer + argc * 8, enc64 0),
                           (envp_pointer, concat (map enc64 env_addresses)), (envp_pointer + envc * 8, enc64 0)] m
                    in if r < 0 \<or> stack < USER_STACK_BOTTOM then ((-1, program), m)
                       else ((0, program\<lparr>lp_stack_pointer := stack, lp_argc := length args\<rparr>), m)))))"

section \<open>Programs\<close>

definition prepare_program :: "cstr \<Rightarrow> cstr list option \<Rightarrow> cstr list option \<Rightarrow> loaded_program \<Rightarrow> kernel \<Rightarrow> (int \<times> loaded_program) \<times> kernel" where
  "prepare_program path argv envp program k =
     (let program = program\<lparr>lp_space := zero_space\<rparr>;
          ((r, inode), s) = minifs_resolve_file (k_fs k) (task_current_cwd k) (Some path) (Some 0);
          k = k\<lparr>k_fs := s\<rparr>
      in if r < 0 then ((-1, program), k)
         else let ((r, program), k) = load_elf (the inode) program k
           in if r < 0 then ((-1, program), k)
              else let ((r, program), m) = build_initial_stack program argv envp (k_mem k); k = k\<lparr>k_mem := m\<rparr>
                in if r < 0 then
                     (let (space, m) = user_space_destroy (lp_space program) (k_mem k)
                      in ((-1, program\<lparr>lp_space := space\<rparr>), k\<lparr>k_mem := m\<rparr>))
                   else ((0, program), k))"

text \<open>The local variable \<^verbatim>\<open>program\<close> before it is filled.\<close>

definition no_program :: loaded_program where
  "no_program = \<lparr>lp_space = zero_space, lp_entry = 0, lp_stack_pointer = 0, lp_argv_pointer = 0, lp_envp_pointer = 0, lp_argc = 0\<rparr>"

definition user_execve :: "u64 list \<Rightarrow> cstr \<Rightarrow> cstr list option \<Rightarrow> cstr list option \<Rightarrow> kernel \<Rightarrow> (int \<times> u64 list) \<times> kernel" where
  "user_execve tf path argv envp k =
     (let ((r, program), k) = prepare_program path argv envp no_program k
      in if r < 0 then ((-1, tf), k)
         else let ((r, old_space), k) = task_replace_address_space (lp_space program) k
           in if r < 0 then
                (let (space, m) = user_space_destroy (lp_space program) (k_mem k) in ((-1, tf), k\<lparr>k_mem := m\<rparr>))
              else let k = trap_write SATP (as_satp (lp_space program)) k;
                       (old, m) = user_space_destroy (the old_space) (k_mem k);
                       k = k\<lparr>k_mem := m\<rparr>;
                       tf = (replicate 32 0)[2 := lp_stack_pointer program, 10 := of_nat (lp_argc program),
                              11 := lp_argv_pointer program, 12 := lp_envp_pointer program]
                in ((0, tf), trap_write SEPC (lp_entry program) k))"

definition user_init :: "kernel \<Rightarrow> int \<times> kernel" where
  "user_init k =
     (let ((r, program), k) = prepare_program (lit ''/bin/shell'') (Some [lit ''/bin/shell''])
            (Some [lit ''PATH=/bin:/tests'', lit ''HOME=/'', lit ''PWD=/'']) no_program k
      in if r < 0 then (-1, kprint ''user_init: cannot load /bin/shell\<newline>'' [] k)
         else let (r, k) = task_attach_address_space (lp_space program) k
           in if r < 0 then
                (let (space, m) = user_space_destroy (lp_space program) (k_mem k)
                 in (-1, kprint ''user_init: no current process\<newline>'' [] (k\<lparr>k_mem := m\<rparr>)))
              else let k = trap_write SATP (as_satp (lp_space program)) k;
                       k = update_current (\<lambda>t. t\<lparr>trap_ctx := (trap_ctx t)\<lparr>tc_regs := (tc_regs (trap_ctx t))
                             [2 := lp_stack_pointer program, 10 := of_nat (lp_argc program),
                              11 := lp_argv_pointer program, 12 := lp_envp_pointer program]\<rparr>\<rparr>) k
                in (0, task_set_current_entry (lp_entry program) k))"

text \<open>
  \<^verbatim>\<open>enter_user\<close> up to its \<^verbatim>\<open>sret\<close>: the registers sp, a0, a1, a2 and the CSRs.  There is a current task.
\<close>

definition enter_user :: "kernel \<Rightarrow> (u64 \<times> u64 \<times> u64 \<times> u64) \<times> kernel" where
  "enter_user k =
     (let status = (trap_read SSTATUS k AND NOT SSTATUS_SPP) OR SSTATUS_SPIE;
          regs = tc_regs (trap_ctx (task_at k (the (current k))));
          k = trap_write SSTATUS status k;
          k = trap_write SEPC (tc_epc (trap_ctx (task_at k (the (current k))))) k;
          k = trap_write SSCRATCH (task_current_kernel_stack_top k) k
      in ((regs ! 2, regs ! 10, regs ! 11, regs ! 12), k))"

end
