(* ===== verification/Fs_Bytes.thy ===== *)
theory Fs_Bytes
  imports Fs_Disk
begin

text \<open>
  Byte-level facts of MiniFS: little-endian words in buffers, the layout of inodes, bitmaps.
\<close>

section \<open>Buffers\<close>

lemma length_copy_bytes [simp]: "off + length bs \<le> length buf \<Longrightarrow> length (copy_bytes buf off bs) = length buf"
  by (simp add: copy_bytes_def)

lemma nth_copy_bytes:
  "off + length bs \<le> length buf \<Longrightarrow> k < length buf \<Longrightarrow>
   copy_bytes buf off bs ! k = (if off \<le> k \<and> k < off + length bs then bs ! (k - off) else buf ! k)"
  by (auto simp: copy_bytes_def nth_append)

lemma length_bytes_at [simp]: "off + n \<le> length buf \<Longrightarrow> length (bytes_at buf off n) = n"
  by (simp add: bytes_at_def)

lemma nth_bytes_at: "off + n \<le> length buf \<Longrightarrow> k < n \<Longrightarrow> bytes_at buf off n ! k = buf ! (off + k)"
  by (simp add: bytes_at_def)

lemma bytes_at_copy_same:
  "off + length bs \<le> length buf \<Longrightarrow> n = length bs \<Longrightarrow> bytes_at (copy_bytes buf off bs) off n = bs"
  by (rule nth_equalityI) (simp_all add: nth_bytes_at nth_copy_bytes)

lemma bytes_at_copy_other:
  assumes "off + length bs \<le> length buf" "off' + n \<le> length buf" "off' + n \<le> off \<or> off + length bs \<le> off'"
  shows "bytes_at (copy_bytes buf off bs) off' n = bytes_at buf off' n"
  by (rule nth_equalityI) (use assms in \<open>auto simp: nth_bytes_at nth_copy_bytes\<close>)

lemma copy_bytes_at_same: "off + n \<le> length buf \<Longrightarrow> copy_bytes buf off (bytes_at buf off n) = buf"
  by (rule nth_equalityI) (auto simp: nth_bytes_at nth_copy_bytes)

section \<open>Words in buffers\<close>

lemma length_enc32 [simp]: "length (enc32 w) = 4"
  by (simp add: enc32_def)

lemma nth_enc32: "i < 4 \<Longrightarrow> enc32 w ! i = le_byte (ucast w) i"
  by (simp add: enc32_def)

lemma get32_cong: "(\<And>i. i < 4 \<Longrightarrow> a ! (off + i) = b ! (off' + i)) \<Longrightarrow> get32 a off = get32 b off'"
  unfolding get32_def by (intro arg_cong [where f = ucast] le_load_cong) auto

lemma get32_enc32: "get32 (enc32 w) 0 = w"
proof -
  have "le_load 4 (\<lambda>i. enc32 w ! i) = le_load 4 (le_byte (ucast w))"
    by (rule le_load_cong) (simp_all add: nth_enc32)
  also have "\<dots> = ucast w" by (subst le_load_le_byte) (rule bit_word_eqI, auto simp: bit_simps dest: bit_imp_le_length)
  finally have "get32 (enc32 w) 0 = ucast (ucast w :: u64)" unfolding get32_def by simp
  also have "\<dots> = w" by (rule bit_word_eqI) (auto simp: bit_ucast_iff)
  finally show ?thesis .
qed

lemma enc32_get32:
  assumes "off + 4 \<le> length buf" shows "enc32 (get32 buf off) = bytes_at buf off 4"
proof (rule nth_equalityI)
  fix i assume "i < length (enc32 (get32 buf off))"
  then have i: "i < 4" by simp
  have "le_byte (ucast (ucast (le_load 4 (\<lambda>i. buf ! (off + i))) :: u32)) i = le_byte (le_load 4 (\<lambda>i. buf ! (off + i))) i"
    by (rule bit_word_eqI) (use i in \<open>auto simp: le_simps bit_ucast_iff\<close>)
  with i show "enc32 (get32 buf off) ! i = bytes_at buf off 4 ! i"
    using assms by (simp add: nth_enc32 get32_def le_byte_le_load nth_bytes_at)
qed (use assms in simp)

lemma get32_copy_same:
  "off + 4 \<le> length buf \<Longrightarrow> get32 (copy_bytes buf off (enc32 w)) off = w"
  by (subst get32_enc32 [symmetric, of w], rule get32_cong) (simp add: nth_copy_bytes)

lemma get32_copy_other:
  assumes "off + length bs \<le> length buf" "off' + 4 \<le> length buf" "off' + 4 \<le> off \<or> off + length bs \<le> off'"
  shows "get32 (copy_bytes buf off bs) off' = get32 buf off'"
  by (rule get32_cong) (use assms in \<open>auto simp: nth_copy_bytes\<close>)

lemma get32_zeros: "off + 4 \<le> n \<Longrightarrow> get32 (replicate n 0) off = 0"
proof -
  assume "off + 4 \<le> n"
  then have "get32 (replicate n 0) off = get32 (enc32 0) 0"
    by (intro get32_cong) (simp add: nth_enc32 le_byte_def)
  then show ?thesis by (simp only: get32_enc32)
qed

lemma get32_bytes_at: "off + n \<le> length buf \<Longrightarrow> k + 4 \<le> n \<Longrightarrow> get32 (bytes_at buf off n) k = get32 buf (off + k)"
  by (rule get32_cong) (simp add: nth_bytes_at add.assoc)

lemma length_concat_enc32 [simp]: "length (concat (map enc32 ws)) = 4 * length ws"
  by (induction ws) auto

lemma get32_concat: "i < length ws \<Longrightarrow> get32 (concat (map enc32 ws)) (4 * i) = ws ! i"
proof (induction ws arbitrary: i)
  case (Cons w ws)
  show ?case
  proof (cases i)
    case 0
    then have "get32 (concat (map enc32 (w # ws))) (4 * i) = get32 (enc32 w) 0"
      by (intro get32_cong) (simp add: nth_append)
    then show ?thesis using 0 by (simp add: get32_enc32)
  next
    case (Suc j)
    have "get32 (concat (map enc32 (w # ws))) (4 * i) = get32 (concat (map enc32 ws)) (4 * j)"
      by (intro get32_cong) (simp add: nth_append Suc)
    then show ?thesis using Cons Suc by simp
  qed
qed simp

section \<open>Inodes\<close>

definition ino_shape :: "minifs_inode \<Rightarrow> bool" where
  "ino_shape ino \<longleftrightarrow> length (i_direct ino) = 10"

lemma length_inode_bytes [simp]: "ino_shape ino \<Longrightarrow> length (inode_bytes ino) = 64"
  by (simp add: inode_bytes_def inode_words_def ino_shape_def)

lemma ino_shape_inode_of [simp]: "ino_shape (inode_of bs)"
  by (simp add: ino_shape_def inode_of_def)

lemma ino_shape_zero [simp]: "ino_shape zero_inode"
  by (simp add: ino_shape_def zero_inode_def)

lemma inode_of_bytes:
  assumes "ino_shape ino" shows "inode_of (inode_bytes ino) = ino"
proof -
  have len: "length (i_direct ino) = 10" using assms by (simp add: ino_shape_def)
  have w: "get32 (inode_bytes ino) (4 * i) = inode_words ino ! i" if "i < 16" for i
    unfolding inode_bytes_def using that len by (intro get32_concat) (simp add: inode_words_def)
  have d: "map (\<lambda>k. get32 (inode_bytes ino) (16 + 4 * k)) [0..<10] = i_direct ino"
  proof (rule nth_equalityI)
    fix k assume "k < length (map (\<lambda>k. get32 (inode_bytes ino) (16 + 4 * k)) [0..<10])"
    then show "map (\<lambda>k. get32 (inode_bytes ino) (16 + 4 * k)) [0..<10] ! k = i_direct ino ! k"
      using w [of "4 + k"] len by (simp add: inode_words_def nth_append)
  qed (simp add: len)
  show ?thesis
    using w [of 0] w [of 1] w [of 2] w [of 3] w [of 14] w [of 15] d len
    by (simp add: inode_of_def inode_words_def nth_append)
qed

section \<open>Bitmaps\<close>

lemma bitmap_test_bit: "bitmap_test bm i \<longleftrightarrow> bit (bm ! (i div 8)) (i mod 8)"
  by (simp add: bitmap_test_def and_one_eq odd_iff_mod_2_eq_one [symmetric] bit_iff_odd_drop_bit)

lemma length_bitmap_set [simp]: "length (bitmap_set bm i v) = length bm"
  by (simp add: bitmap_set_def Let_def)

lemma div_mod_neq: "(i::nat) \<noteq> j \<Longrightarrow> i div 8 = j div 8 \<Longrightarrow> i mod 8 \<noteq> j mod 8"
  by (metis div_mod_decomp)

lemma bitmap_test_set:
  assumes "i < 8 * length bm"
  shows "bitmap_test (bitmap_set bm i v) j \<longleftrightarrow> (if j = i then v else bitmap_test bm j)"
proof -
  have i: "i div 8 < length bm" using assms by (simp add: less_mult_imp_div_less mult.commute)
  show ?thesis
  proof (cases "j div 8 = i div 8")
    case True
    then show ?thesis using i div_mod_neq [of j i]
      by (cases "j = i") (auto simp: bitmap_test_bit bitmap_set_def Let_def bit_simps)
  next
    case False
    then have "j \<noteq> i" by auto
    with False show ?thesis by (simp add: bitmap_test_bit bitmap_set_def Let_def)
  qed
qed

lemma first_free_Some:
  "first_free bm lo hi = Some i \<Longrightarrow> lo \<le> i \<and> i < hi \<and> \<not> bitmap_test bm i"
  by (auto simp: first_free_def find_Some_iff)

lemma first_free_None: "first_free bm lo hi = None \<longleftrightarrow> (\<forall>i. lo \<le> i \<and> i < hi \<longrightarrow> bitmap_test bm i)"
  by (auto simp: first_free_def find_None_iff)

end
