(* ===== verification/Fs_Inv.thy ===== *)
theory Fs_Inv
  imports Fs_Bytes
begin

text \<open>
  The invariant of MiniFS.  Every block an inode refers to lies in the data area, is marked in the
  bitmap and is referred to once; the bitmap in memory is the one on disk.  A step on one file
  (\<open>file_step\<close>) may change that file's own blocks and take free ones, and nothing else.
\<close>

section \<open>Definitions\<close>

definition in_data :: "u32 \<Rightarrow> bool" where
  "in_data b \<longleftrightarrow> 38 \<le> unat b \<and> unat b < 15360"

definition meta :: "u32 \<Rightarrow> bool" where
  "meta x \<longleftrightarrow> \<not> in_data x \<and> x \<notin> {2, 3, 4, 5}"

definition inode_at :: "disk \<Rightarrow> nat \<Rightarrow> minifs_inode" where
  "inode_at d n = inode_of (bytes_at (d (6 + of_nat (n div 8))) (n mod 8 * 64) 64)"

definition used :: "fs \<Rightarrow> u32 \<Rightarrow> bool" where
  "used s b = bitmap_test (bitmap_buffer s) (unat b)"

definition disk_ok :: "disk \<Rightarrow> bool" where
  "disk_ok d \<longleftrightarrow> (\<forall>x. length (d x) = 512)"

definition coherent :: "fs \<Rightarrow> bool" where
  "coherent s \<longleftrightarrow> length (bitmap_buffer s) = 2048 \<and>
     (\<forall>k < 4. fs_disk s (2 + of_nat k) = bytes_at (bitmap_buffer s) (k * 512) 512)"

definition ino_blocks :: "disk \<Rightarrow> minifs_inode \<Rightarrow> u32 list" where
  "ino_blocks d ino = filter (\<lambda>b. b \<noteq> 0) (i_direct ino @
     (if i_indirect ino = 0 then [] else i_indirect ino # indirect_entries (d (i_indirect ino))))"

definition ino_ok :: "fs \<Rightarrow> minifs_inode \<Rightarrow> bool" where
  "ino_ok s ino \<longleftrightarrow> ino_shape ino \<and> distinct (ino_blocks (fs_disk s) ino) \<and>
     (\<forall>b \<in> set (ino_blocks (fs_disk s) ino). in_data b \<and> used s b)"

definition inv :: "fs \<Rightarrow> (nat \<Rightarrow> minifs_inode) \<Rightarrow> bool" where
  "inv s f \<longleftrightarrow> disk_ok (fs_disk s) \<and> coherent s \<and> (\<forall>n < 256. ino_ok s (f n)) \<and>
     (\<forall>n < 256. \<forall>m < 256. n \<noteq> m \<longrightarrow>
        set (ino_blocks (fs_disk s) (f n)) \<inter> set (ino_blocks (fs_disk s) (f m)) = {})"

definition fs_inv :: "fs \<Rightarrow> bool" where
  "fs_inv s = inv s (inode_at (fs_disk s))"

definition frame :: "fs \<Rightarrow> fs \<Rightarrow> bool" where
  "frame s s' \<longleftrightarrow> (\<forall>x. meta x \<longrightarrow> fs_disk s' x = fs_disk s x) \<and>
     open_files s' = open_files s \<and> fd_tables s' = fd_tables s"

text \<open>Blocks in use outside \<open>B\<close> stay in use with their contents.\<close>

definition keeps :: "fs \<Rightarrow> u32 set \<Rightarrow> fs \<Rightarrow> bool" where
  "keeps s B s' \<longleftrightarrow> (\<forall>x. in_data x \<and> used s x \<and> x \<notin> B \<longrightarrow> used s' x \<and> fs_disk s' x = fs_disk s x)"

definition file_step :: "fs \<Rightarrow> minifs_inode \<Rightarrow> fs \<Rightarrow> minifs_inode \<Rightarrow> bool" where
  "file_step s ino s' ino' \<longleftrightarrow>
     disk_ok (fs_disk s') \<and> coherent s' \<and> ino_ok s' ino' \<and> frame s s' \<and>
     keeps s (set (ino_blocks (fs_disk s) ino)) s' \<and>
     set (ino_blocks (fs_disk s') ino') \<subseteq> set (ino_blocks (fs_disk s) ino) \<union> {b. \<not> used s b}"

text \<open>The disk block of a file's block index, 0 for a hole.\<close>

definition imap :: "disk \<Rightarrow> minifs_inode \<Rightarrow> nat \<Rightarrow> u32" where
  "imap d ino index =
     (if index < 10 then i_direct ino ! index
      else if index \<ge> 138 \<or> i_indirect ino = 0 then 0
      else get32 (d (i_indirect ino)) (4 * (index - 10)))"

section \<open>Block numbers\<close>

lemma unat_of_nat_u32: "i < 2 ^ 32 \<Longrightarrow> unat (of_nat i :: u32) = i"
  by (simp add: unsigned_of_nat take_bit_nat_eq_self)

lemma sint_small:
  assumes "unat (b :: u32) < 2 ^ 31" shows "sint b = int (unat b)"
proof -
  have "int (unat b) < 2 ^ 31" using assms by (metis of_nat_less_iff of_nat_numeral of_nat_power)
  then have "uint b < 2 ^ 31" by (simp only: of_nat_unat)
  then have "signed_take_bit 31 (uint b) = uint b"
    by (intro signed_take_bit_int_eq_self) (auto intro: order_trans [of _ 0])
  then have "sint b = uint b" by (simp only: sint_uint) simp
  then show ?thesis by (simp only: of_nat_unat)
qed

lemma in_data_facts:
  assumes "in_data b"
  shows "b \<noteq> 0" "\<not> 16384 \<le> unat b" "\<not> meta b" "b \<notin> {2, 3, 4, 5}" "sint b = int (unat b)"
proof -
  show "b \<noteq> 0" "b \<notin> {2, 3, 4, 5}" "\<not> 16384 \<le> unat b" "\<not> meta b"
    using assms by (auto simp: in_data_def meta_def)
  show "sint b = int (unat b)" by (rule sint_small) (use assms in \<open>simp add: in_data_def\<close>)
qed

lemma less_4: "k < 4 \<longleftrightarrow> k = 0 \<or> k = 1 \<or> k = 2 \<or> k = (3 :: nat)"
  by presburger

lemma bitmap_sector: "k < 4 \<Longrightarrow> 2 + of_nat k \<in> {2, 3, 4, 5 :: u32}"
  by (auto simp: less_4)

lemma bitmap_sector_inj: "j < 4 \<Longrightarrow> k < 4 \<Longrightarrow> (of_nat j :: u32) = of_nat k \<longleftrightarrow> j = k"
  by (auto simp: less_4)

lemma bitmap_sector_small: "k < 4 \<Longrightarrow> \<not> BLOCK_SECTOR_COUNT \<le> (ucast (2 + of_nat k :: u32) :: u64)"
  using bitmap_sector [of k] by (auto simp: sector_le)

section \<open>Sector access\<close>

lemma sector_access [simp]:
  "unat x < 16384 \<Longrightarrow> bread s x = (0, s\<lparr>block_buffer := fs_disk s x\<rparr>)"
  "unat x < 16384 \<Longrightarrow> iread s x = (0, s\<lparr>indirect_buffer := fs_disk s x\<rparr>)"
  "unat x < 16384 \<Longrightarrow> bwrite s x = (0, s\<lparr>fs_disk := (fs_disk s)(x := block_buffer s)\<rparr>)"
  "unat x < 16384 \<Longrightarrow> iwrite s x = (0, s\<lparr>fs_disk := (fs_disk s)(x := indirect_buffer s)\<rparr>)"
  by (simp_all add: bread_def iread_def bwrite_def iwrite_def disk_read_def disk_write_def sector_le)

lemma bitmap_write_ok:
  "k < 4 \<Longrightarrow> bitmap_write s k =
     (0, s\<lparr>fs_disk := (fs_disk s)(2 + of_nat k := bytes_at (bitmap_buffer s) (k * 512) 512)\<rparr>)"
  by (simp add: bitmap_write_def disk_write_def bitmap_sector_small)

lemma in_data_small: "in_data b \<Longrightarrow> unat b < 16384"
  by (simp add: in_data_def)

text \<open>The sector that holds an inode.\<close>

lemma drop_bit_3_u32: "unat (drop_bit 3 (w :: u32)) = unat w div 8"
  using unsigned_less [of w, where ?'a = nat]
  by (simp only: unsigned_drop_bit_eq) (simp add: drop_bit_eq_div take_bit_nat_eq_self)

lemma and_7_u32: "unat (w AND 7 :: u32) = unat w mod 8"
proof -
  have "w AND 7 = take_bit 3 w" by (simp add: take_bit_eq_mask mask_eq_exp_minus_1)
  then show ?thesis by (simp only: unsigned_take_bit_eq) (simp add: take_bit_eq_mod)
qed

lemma inode_sector:
  assumes "unat n < 256"
  shows "6 + drop_bit 3 n = (6 + of_nat (unat n div 8) :: u32)"
    "unat (6 + of_nat (unat n div 8) :: u32) = 6 + unat n div 8" "unat n div 8 < 32"
proof -
  show *: "unat n div 8 < 32" using assms by (simp add: less_mult_imp_div_less)
  show "6 + drop_bit 3 n = (6 + of_nat (unat n div 8) :: u32)"
    by (metis drop_bit_3_u32 of_nat_unat ucast_id)
  show "unat (6 + of_nat (unat n div 8) :: u32) = 6 + unat n div 8"
    using unat_of_nat_u32 [of "6 + unat n div 8"] * by simp
qed

lemma read_inode_ok:
  assumes "unat n < 256"
  shows "\<exists>b. read_inode s n = ((0, inode_at (fs_disk s) (unat n)), s\<lparr>block_buffer := b\<rparr>)"
  using assms inode_sector [OF assms]
  by (auto simp: read_inode_def inode_at_def and_7_u32)

lemma write_inode_ok:
  assumes "unat n < 256"
  shows "\<exists>b. write_inode s n ino =
    (0, s\<lparr>block_buffer := b, fs_disk := (fs_disk s)(6 + of_nat (unat n div 8) :=
        copy_bytes (fs_disk s (6 + of_nat (unat n div 8))) (unat n mod 8 * 64) (inode_bytes ino))\<rparr>)"
  using assms inode_sector [OF assms]
  by (auto simp: write_inode_def and_7_u32 Let_def)

section \<open>The inode table\<close>

lemma meta_iff: "meta x \<longleftrightarrow> unat x < 2 \<or> 6 \<le> unat x \<and> unat x < 38 \<or> 15360 \<le> unat x"
  by (auto simp: meta_def in_data_def word_unat_eq_iff)

lemma unat_inode_sector: "n < 256 \<Longrightarrow> unat (6 + of_nat (n div 8) :: u32) = 6 + n div 8"
  using unat_of_nat_u32 [of "6 + n div 8"] by simp

lemma meta_inode_sector: "n < 256 \<Longrightarrow> meta (6 + of_nat (n div 8))"
  by (simp add: meta_iff unat_inode_sector less_mult_imp_div_less)

lemma inode_sector_inj:
  "n < 256 \<Longrightarrow> m < 256 \<Longrightarrow> (6 + of_nat (n div 8) :: u32) = 6 + of_nat (m div 8) \<longleftrightarrow> n div 8 = m div 8"
  using unat_inode_sector [of n] unat_inode_sector [of m] by (metis add_left_cancel)

lemma inode_at_frame: "frame s s' \<Longrightarrow> n < 256 \<Longrightarrow> inode_at (fs_disk s') n = inode_at (fs_disk s) n"
  by (simp add: inode_at_def frame_def meta_inode_sector)

lemma inode_at_write:
  assumes "n < 256" "m < 256" "disk_ok d" "ino_shape ino"
  shows "inode_at (d(6 + of_nat (n div 8) := copy_bytes (d (6 + of_nat (n div 8))) (n mod 8 * 64) (inode_bytes ino))) m
    = (if m = n then ino else inode_at d m)"
proof -
  have len: "length (d x) = 512" for x using assms(3) by (simp add: disk_ok_def)
  have off: "k mod 8 * 64 + 64 \<le> 512" for k :: nat using mod_less_divisor [of 8 k] by linarith
  show ?thesis
  proof (cases "m div 8 = n div 8")
    case True
    show ?thesis
    proof (cases "m = n")
      case False
      then have "m mod 8 \<noteq> n mod 8" using True div_mod_neq by metis
      then have "m mod 8 * 64 + 64 \<le> n mod 8 * 64 \<or> n mod 8 * 64 + 64 \<le> m mod 8 * 64" by linarith
      then show ?thesis using False True off [of n] off [of m] assms(4)
        by (simp add: inode_at_def bytes_at_copy_other len)
    qed (use off [of n] assms(4) in \<open>simp add: inode_at_def bytes_at_copy_same len inode_of_bytes\<close>)
  next
    case False
    then show ?thesis using inode_sector_inj [OF assms(2,1)] by (auto simp: inode_at_def)
  qed
qed

section \<open>Allocation of blocks\<close>

lemma coherent_bit: "coherent s \<Longrightarrow> unat b < 15360 \<Longrightarrow> unat b < 8 * length (bitmap_buffer s)"
  by (simp add: coherent_def)

lemma bytes_at_bitmap_set:
  assumes "length bm = 2048" "i < 15360" "k < 4" "k \<noteq> i div 4096"
  shows "bytes_at (bitmap_set bm i v) (k * 512) 512 = bytes_at bm (k * 512) 512"
proof (rule nth_equalityI)
  fix j assume "j < length (bytes_at (bitmap_set bm i v) (k * 512) 512)"
  then have j: "j < 512" using assms by simp
  have "i div 4096 = i div 8 div 512" by (simp add: div_mult2_eq [symmetric])
  then have "i div 8 \<noteq> k * 512 + j" using assms(4) j by auto
  then show "bytes_at (bitmap_set bm i v) (k * 512) 512 ! j = bytes_at bm (k * 512) 512 ! j"
    using j assms by (simp add: nth_bytes_at bitmap_set_def Let_def)
qed (use assms in simp)

text \<open>Marking or clearing one bit and writing its bitmap sector back.\<close>

lemma mark_block:
  fixes s v b
  assumes "coherent s" "in_data b"
  defines "s' \<equiv> snd (bitmap_write (s\<lparr>bitmap_buffer := bitmap_set (bitmap_buffer s) (unat b) v\<rparr>) (unat b div 4096))"
  shows "coherent s'" "used s' x \<longleftrightarrow> (if x = b then v else used s x)"
    "x \<notin> {2, 3, 4, 5} \<Longrightarrow> fs_disk s' x = fs_disk s x" "disk_ok (fs_disk s) \<Longrightarrow> disk_ok (fs_disk s')"
    "open_files s' = open_files s" "fd_tables s' = fd_tables s"
    "block_buffer s' = block_buffer s" "indirect_buffer s' = indirect_buffer s"
    "fst (bitmap_write (s\<lparr>bitmap_buffer := bitmap_set (bitmap_buffer s) (unat b) v\<rparr>) (unat b div 4096)) = 0"
proof -
  have b: "unat b < 15360" using assms(2) by (simp add: in_data_def)
  then have k: "unat b div 4096 < 4" by simp
  have len: "length (bitmap_buffer s) = 2048" using assms(1) by (simp add: coherent_def)
  have s': "s' = s\<lparr>bitmap_buffer := bitmap_set (bitmap_buffer s) (unat b) v,
      fs_disk := (fs_disk s)(2 + of_nat (unat b div 4096) :=
        bytes_at (bitmap_set (bitmap_buffer s) (unat b) v) (unat b div 4096 * 512) 512)\<rparr>"
    using k by (simp add: s'_def bitmap_write_ok)
  show "coherent s'" using assms(1) b k
    by (auto simp: coherent_def s' bitmap_sector_inj bytes_at_bitmap_set)
  show "used s' x \<longleftrightarrow> (if x = b then v else used s x)"
    using b len by (simp add: used_def s' bitmap_test_set word_unat_eq_iff)
  show "fs_disk s' x = fs_disk s x" if "x \<notin> {2, 3, 4, 5}"
    using bitmap_sector [OF k] that by (auto simp: s')
  have "length (bytes_at (bitmap_set (bitmap_buffer s) (unat b) v) (unat b div 4096 * 512) 512) = 512"
    using len k by (intro length_bytes_at) simp
  then show "disk_ok (fs_disk s')" if "disk_ok (fs_disk s)"
    using that by (simp add: disk_ok_def s')
  show "open_files s' = open_files s" "fd_tables s' = fd_tables s"
    "block_buffer s' = block_buffer s" "indirect_buffer s' = indirect_buffer s"
    by (simp_all add: s')
  show "fst (bitmap_write (s\<lparr>bitmap_buffer := bitmap_set (bitmap_buffer s) (unat b) v\<rparr>) (unat b div 4096)) = 0"
    using k by (simp add: bitmap_write_ok)
qed

definition no_free_block :: "fs \<Rightarrow> bool" where
  "no_free_block s \<longleftrightarrow> (\<forall>b. in_data b \<longrightarrow> used s b)"

lemma alloc_data_block_cases:
  assumes "coherent s" "disk_ok (fs_disk s)"
  obtains (none) "alloc_data_block s = (-1, s)" "no_free_block s"
  | (block) b s' where "alloc_data_block s = (int (unat b), s')" "in_data b" "\<not> used s b"
      "\<And>x. used s' x \<longleftrightarrow> x = b \<or> used s x" "\<And>x. x \<notin> {2, 3, 4, 5} \<Longrightarrow> fs_disk s' x = (if x = b then replicate 512 0 else fs_disk s x)"
      "coherent s'" "disk_ok (fs_disk s')" "frame s s'" "indirect_buffer s' = indirect_buffer s"
proof (cases "first_free (bitmap_buffer s) 38 15360")
  case None
  have "used s b" if "in_data b" for b
    using None that by (simp add: first_free_None used_def in_data_def)
  then show ?thesis using None none by (simp add: alloc_data_block_def no_free_block_def)
next
  case (Some i)
  define b :: u32 where "b = of_nat i"
  have i: "38 \<le> i" "i < 15360" "\<not> bitmap_test (bitmap_buffer s) i"
    using first_free_Some [OF Some] by auto
  have ub: "unat b = i" using i(2) by (simp add: b_def unat_of_nat_u32)
  have b: "in_data b" "\<not> used s b" using i ub by (simp_all add: in_data_def used_def)
  define s1 where "s1 = snd (bitmap_write (s\<lparr>bitmap_buffer := bitmap_set (bitmap_buffer s) (unat b) True\<rparr>) (unat b div 4096))"
  note m = mark_block [OF assms(1) b(1), where v = True, folded s1_def]
  define s2 where "s2 = s1\<lparr>block_buffer := replicate 512 0, fs_disk := (fs_disk s1)(b := replicate 512 0)\<rparr>"
  have bw: "bitmap_write (s\<lparr>bitmap_buffer := bitmap_set (bitmap_buffer s) i True\<rparr>) (i div 4096) = (0, s1)"
    using m(9) ub by (simp add: s1_def prod_eq_iff)
  have "alloc_data_block s = (int (unat b), s2)"
    using Some bw in_data_small [OF b(1)] ub by (simp add: alloc_data_block_def s2_def b_def [symmetric])
  moreover have "coherent s2" using m(1) bitmap_sector in_data_facts(4) [OF b(1)]
    unfolding coherent_def s2_def by fastforce
  moreover have "used s2 x \<longleftrightarrow> x = b \<or> used s x" for x
    using m(2) [of x] by (simp add: s2_def used_def)
  moreover have "frame s s2" using m(3,5,6) in_data_facts(3) [OF b(1)]
    by (auto simp: frame_def s2_def meta_def)
  moreover have "disk_ok (fs_disk s2)" using m(4) assms(2) by (auto simp: s2_def disk_ok_def)
  ultimately show ?thesis
    using b m(3,8) by (intro block [of b s2]) (auto simp: s2_def)
qed

end
