(* ===== verification/Fs_Alloc.thy ===== *)
theory Fs_Alloc
  imports Fs_Inv
begin

text \<open>
  Growing and truncating files: what the block map of a file becomes, and that these steps
  preserve the invariant.
\<close>

section \<open>File steps\<close>

lemma ino_blocks_cong:
  "(i_indirect ino \<noteq> 0 \<Longrightarrow> d' (i_indirect ino) = d (i_indirect ino)) \<Longrightarrow> ino_blocks d' ino = ino_blocks d ino"
  by (simp add: ino_blocks_def)

lemma indirect_in_blocks: "i_indirect ino \<noteq> 0 \<Longrightarrow> i_indirect ino \<in> set (ino_blocks d ino)"
  by (simp add: ino_blocks_def)

lemma keepsD: "keeps s B s' \<Longrightarrow> in_data x \<Longrightarrow> used s x \<Longrightarrow> x \<notin> B \<Longrightarrow> used s' x \<and> fs_disk s' x = fs_disk s x"
  by (simp add: keeps_def)

lemma keeps_ino:
  assumes "ino_ok s ino" "keeps s B s'" "set (ino_blocks (fs_disk s) ino) \<inter> B = {}"
  shows "ino_blocks (fs_disk s') ino = ino_blocks (fs_disk s) ino" "ino_ok s' ino"
    "\<And>x. x \<in> set (ino_blocks (fs_disk s) ino) \<Longrightarrow> fs_disk s' x = fs_disk s x"
proof -
  have blk: "used s' x \<and> fs_disk s' x = fs_disk s x" if "x \<in> set (ino_blocks (fs_disk s) ino)" for x
    by (rule keepsD [OF assms(2)]) (use assms(1,3) that in \<open>auto simp: ino_ok_def\<close>)
  then show eq: "ino_blocks (fs_disk s') ino = ino_blocks (fs_disk s) ino"
    using indirect_in_blocks by (intro ino_blocks_cong) auto
  show "ino_ok s' ino" using assms(1) blk unfolding ino_ok_def eq by blast
  show "fs_disk s' x = fs_disk s x" if "x \<in> set (ino_blocks (fs_disk s) ino)" for x
    using blk that by blast
qed

lemma inv_step:
  assumes "inv s f" "n < 256" "file_step s (f n) s' ino'"
  shows "inv s' (f(n := ino'))"
proof -
  let ?B = "set (ino_blocks (fs_disk s) (f n))"
  have other: "ino_ok s' (f m) \<and> ino_blocks (fs_disk s') (f m) = ino_blocks (fs_disk s) (f m)"
    if "m < 256" "m \<noteq> n" for m
  proof -
    have "ino_ok s (f m)" "set (ino_blocks (fs_disk s) (f m)) \<inter> ?B = {}"
      using assms(1,2) that unfolding inv_def by auto
    then show ?thesis using keeps_ino assms(3) unfolding file_step_def by blast
  qed
  have "set (ino_blocks (fs_disk s') ino') \<inter> set (ino_blocks (fs_disk s) (f m)) = {}"
    if "m < 256" "m \<noteq> n" for m
  proof -
    have "set (ino_blocks (fs_disk s) (f m)) \<inter> ?B = {}" "\<forall>b \<in> set (ino_blocks (fs_disk s) (f m)). used s b"
      using assms(1,2) that unfolding inv_def ino_ok_def by auto
    then show ?thesis using assms(3) unfolding file_step_def by blast
  qed
  then show ?thesis
    using assms other unfolding inv_def file_step_def by (auto simp: Int_commute)
qed

lemma frame_refl [simp]: "frame s s"
  by (simp add: frame_def)

lemma frame_trans: "frame s s1 \<Longrightarrow> frame s1 s2 \<Longrightarrow> frame s s2"
  by (simp add: frame_def)

lemma file_step_refl: "disk_ok (fs_disk s) \<Longrightarrow> coherent s \<Longrightarrow> ino_ok s ino \<Longrightarrow> file_step s ino s ino"
  by (simp add: file_step_def keeps_def)

lemma file_step_trans:
  assumes "file_step s ino s1 ino1" "file_step s1 ino1 s2 ino2"
  shows "file_step s ino s2 ino2"
proof -
  let ?B = "set (ino_blocks (fs_disk s) ino)" and ?B1 = "set (ino_blocks (fs_disk s1) ino1)"
  have sub: "?B1 \<subseteq> ?B \<union> {b. \<not> used s b}" using assms(1) by (simp add: file_step_def)
  have keep: "used s2 x \<and> fs_disk s2 x = fs_disk s x" if "in_data x" "used s x" "x \<notin> ?B" for x
  proof -
    have "used s1 x" "fs_disk s1 x = fs_disk s x" using assms(1) that keepsD unfolding file_step_def by blast+
    moreover have "x \<notin> ?B1" using sub that by blast
    ultimately show ?thesis using assms(2) that(1) keepsD unfolding file_step_def by metis
  qed
  have "b \<in> ?B \<or> \<not> used s b" if "b \<in> set (ino_blocks (fs_disk s2) ino2)" for b
  proof (rule ccontr)
    assume b: "\<not> (b \<in> ?B \<or> \<not> used s b)"
    have "in_data b" using assms(2) that unfolding file_step_def ino_ok_def by blast
    with b have "used s1 b" using assms(1) keepsD unfolding file_step_def by blast
    moreover have "b \<notin> ?B1" using b sub by blast
    ultimately show False using assms(2) that unfolding file_step_def by blast
  qed
  then have "set (ino_blocks (fs_disk s2) ino2) \<subseteq> ?B \<union> {b. \<not> used s b}" by blast
  moreover have "frame s s2" using assms frame_trans unfolding file_step_def by blast
  ultimately show ?thesis
    using assms(2) keep unfolding file_step_def keeps_def by simp
qed

text \<open>The scratch buffers play no role in the invariant.\<close>

lemma buffers_irrelevant [simp]:
  "coherent (s\<lparr>block_buffer := b\<rparr>) = coherent s" "coherent (s\<lparr>indirect_buffer := b\<rparr>) = coherent s"
  "used (s\<lparr>block_buffer := b\<rparr>) = used s" "used (s\<lparr>indirect_buffer := b\<rparr>) = used s"
  "ino_ok (s\<lparr>block_buffer := b\<rparr>) = ino_ok s" "ino_ok (s\<lparr>indirect_buffer := b\<rparr>) = ino_ok s"
  "frame s (s'\<lparr>block_buffer := b\<rparr>) = frame s s'" "frame s (s'\<lparr>indirect_buffer := b\<rparr>) = frame s s'"
  "frame (s\<lparr>block_buffer := b\<rparr>) s' = frame s s'" "frame (s\<lparr>indirect_buffer := b\<rparr>) s' = frame s s'"
  "inv (s\<lparr>block_buffer := b\<rparr>) = inv s" "inv (s\<lparr>indirect_buffer := b\<rparr>) = inv s"
  "no_free_block (s\<lparr>block_buffer := b\<rparr>) = no_free_block s" "no_free_block (s\<lparr>indirect_buffer := b\<rparr>) = no_free_block s"
  by (auto simp: fun_eq_iff coherent_def used_def ino_ok_def frame_def inv_def no_free_block_def)

lemma file_step_buffers [simp]:
  "file_step (s\<lparr>block_buffer := b\<rparr>) ino s' ino' = file_step s ino s' ino'"
  "file_step (s\<lparr>indirect_buffer := b\<rparr>) ino s' ino' = file_step s ino s' ino'"
  "file_step s ino (s'\<lparr>block_buffer := b\<rparr>) ino' = file_step s ino s' ino'"
  "file_step s ino (s'\<lparr>indirect_buffer := b\<rparr>) ino' = file_step s ino s' ino'"
  by (simp_all add: file_step_def keeps_def)

text \<open>Setting an unused position of a block list.\<close>

lemma nonzero_update:
  assumes "i < length xs" "xs ! i = 0" "b \<noteq> (0 :: u32)"
  shows "set (filter (\<lambda>b. b \<noteq> 0) (xs[i := b])) = insert b (set (filter (\<lambda>b. b \<noteq> 0) xs))"
    "b \<notin> set xs \<Longrightarrow> distinct (filter (\<lambda>b. b \<noteq> 0) xs) \<Longrightarrow> distinct (filter (\<lambda>b. b \<noteq> 0) (xs[i := b]))"
proof -
  have xs: "xs = take i xs @ 0 # drop (Suc i) xs" using assms id_take_nth_drop by metis
  have up: "xs[i := b] = take i xs @ b # drop (Suc i) xs" using assms by (simp add: upd_conv_take_nth_drop)
  have "set (filter (\<lambda>b. b \<noteq> 0) (take i xs @ b # drop (Suc i) xs)) =
      insert b (set (filter (\<lambda>b. b \<noteq> 0) (take i xs @ 0 # drop (Suc i) xs)))" using assms(3) by auto
  then show "set (filter (\<lambda>b. b \<noteq> 0) (xs[i := b])) = insert b (set (filter (\<lambda>b. b \<noteq> 0) xs))"
    unfolding up [symmetric] xs [symmetric] .
  assume "b \<notin> set xs" "distinct (filter (\<lambda>b. b \<noteq> 0) xs)"
  then have "b \<notin> set (take i xs @ 0 # drop (Suc i) xs)" "distinct (filter (\<lambda>b. b \<noteq> 0) (take i xs @ 0 # drop (Suc i) xs))"
    unfolding xs [symmetric] .
  then have "distinct (filter (\<lambda>b. b \<noteq> 0) (take i xs @ b # drop (Suc i) xs))" by auto
  then show "distinct (filter (\<lambda>b. b \<noteq> 0) (xs[i := b]))" unfolding up .
qed

section \<open>Freeing blocks\<close>

definition frees :: "fs \<Rightarrow> u32 set \<Rightarrow> fs \<Rightarrow> bool" where
  "frees s B s' \<longleftrightarrow> coherent s' \<and> disk_ok (fs_disk s') \<and> frame s s' \<and>
     (\<forall>x. used s' x \<longleftrightarrow> used s x \<and> \<not> (x \<in> B \<and> in_data x)) \<and>
     (\<forall>x. x \<notin> {2, 3, 4, 5} \<longrightarrow> fs_disk s' x = fs_disk s x)"

lemma frees_trans: "frees s A s1 \<Longrightarrow> frees s1 B s2 \<Longrightarrow> frees s (A \<union> B) s2"
  unfolding frees_def using frame_trans by auto

lemma frees_buffers [simp]: "frees s B (s'\<lparr>indirect_buffer := b\<rparr>) = frees s B s'"
  by (simp add: frees_def)

lemma frees_none: "coherent s \<Longrightarrow> disk_ok (fs_disk s) \<Longrightarrow> frees s {} s"
  by (simp add: frees_def)

lemma free_data_block_frees:
  assumes "coherent s" "disk_ok (fs_disk s)"
  shows "frees s {b} (free_data_block s b)"
proof -
  have eq: "free_data_block s b = (if in_data b then
      snd (bitmap_write (s\<lparr>bitmap_buffer := bitmap_set (bitmap_buffer s) (unat b) False\<rparr>) (unat b div 4096)) else s)"
    by (auto simp: free_data_block_def in_data_def)
  show ?thesis
    using mark_block [OF assms(1), of b, where v = False] assms
    by (auto simp: eq frame_def meta_def frees_def)
qed

lemma free_blocks_frees:
  assumes "coherent s" "disk_ok (fs_disk s)"
  shows "frees s (set bs) (fold (\<lambda>b s. free_data_block s b) bs s)"
  using assms
proof (induction bs arbitrary: s)
  case (Cons b bs)
  have "frees s {b} (free_data_block s b)" by (rule free_data_block_frees [OF Cons.prems])
  moreover have "frees (free_data_block s b) (set bs) (fold (\<lambda>b s. free_data_block s b) (b # bs) s)"
    using Cons.IH [of "free_data_block s b"] calculation by (simp add: frees_def)
  ultimately show ?case using frees_trans by fastforce
qed (simp add: frees_none)

text \<open>Truncation frees exactly the blocks of the file.\<close>

lemma truncate_inode_frees:
  assumes "coherent s" "disk_ok (fs_disk s)" "ino_ok s ino"
  shows "\<exists>s'. truncate_inode s ino = (ino\<lparr>i_direct := replicate 10 0, i_indirect := 0, i_size := 0\<rparr>, s') \<and>
    frees s (set (ino_blocks (fs_disk s) ino)) s'"
proof -
  define s1 where "s1 = fold (\<lambda>b s. free_data_block s b) (i_direct ino) s"
  have s1: "frees s (set (i_direct ino)) s1" unfolding s1_def by (rule free_blocks_frees [OF assms(1,2)])
  have zero: "frees s A s' \<longleftrightarrow> frees s (A - {0}) s'" for A s'
    by (auto simp: frees_def in_data_def)
  show ?thesis
  proof (cases "i_indirect ino = 0")
    case True
    then have "set (ino_blocks (fs_disk s) ino) = set (i_direct ino) - {0}" by (auto simp: ino_blocks_def)
    then show ?thesis using s1 zero True by (auto simp: truncate_inode_def s1_def Let_def)
  next
    case False
    let ?i = "i_indirect ino"
    have i: "in_data ?i" using assms(3) False indirect_in_blocks unfolding ino_ok_def by blast
    then have si: "fs_disk s1 ?i = fs_disk s ?i" using s1 in_data_facts(4) unfolding frees_def by blast
    define s2 where "s2 = s1\<lparr>indirect_buffer := fs_disk s ?i\<rparr>"
    define s3 where "s3 = fold (\<lambda>b s. free_data_block s b) (indirect_entries (fs_disk s ?i)) s2"
    have s2: "frees s (set (i_direct ino)) s2" using s1 by (simp add: s2_def)
    then have s3: "frees s2 (set (indirect_entries (fs_disk s ?i))) s3"
      unfolding s3_def by (intro free_blocks_frees) (simp_all add: frees_def)
    then have "frees s3 {?i} (free_data_block s3 ?i)" by (intro free_data_block_frees) (simp_all add: frees_def)
    then have "frees s (set (i_direct ino) \<union> set (indirect_entries (fs_disk s ?i)) \<union> {?i}) (free_data_block s3 ?i)"
      using s2 s3 frees_trans by blast
    moreover have "set (ino_blocks (fs_disk s) ino) =
        set (i_direct ino) \<union> set (indirect_entries (fs_disk s ?i)) \<union> {?i} - {0}"
      using False by (auto simp: ino_blocks_def)
    ultimately have "frees s (set (ino_blocks (fs_disk s) ino)) (free_data_block s3 ?i)"
      using zero by metis
    moreover have "truncate_inode s ino =
        (ino\<lparr>i_direct := replicate 10 0, i_indirect := 0, i_size := 0\<rparr>, free_data_block s3 ?i)"
      using False in_data_small [OF i] si by (simp add: truncate_inode_def s1_def [symmetric] Let_def s2_def s3_def)
    ultimately show ?thesis by blast
  qed
qed

lemma truncate_inode_step:
  assumes "coherent s" "disk_ok (fs_disk s)" "ino_ok s ino"
  obtains s' where "truncate_inode s ino = (ino\<lparr>i_direct := replicate 10 0, i_indirect := 0, i_size := 0\<rparr>, s')"
    "file_step s ino s' (ino\<lparr>i_direct := replicate 10 0, i_indirect := 0, i_size := 0\<rparr>)"
    "frees s (set (ino_blocks (fs_disk s) ino)) s'"
proof -
  obtain s' where s': "truncate_inode s ino = (ino\<lparr>i_direct := replicate 10 0, i_indirect := 0, i_size := 0\<rparr>, s')"
    "frees s (set (ino_blocks (fs_disk s) ino)) s'"
    using truncate_inode_frees [OF assms] by blast
  have "ino_blocks d (ino\<lparr>i_direct := replicate 10 0, i_indirect := 0, i_size := 0\<rparr>) = []" for d
    by (simp add: ino_blocks_def)
  then have "file_step s ino s' (ino\<lparr>i_direct := replicate 10 0, i_indirect := 0, i_size := 0\<rparr>)"
    using s'(2) in_data_facts(4)
    by (auto simp: file_step_def frees_def ino_ok_def keeps_def ino_shape_def)
  with s' that show ?thesis by blast
qed

end
