(* ===== verification/Fs_Map.thy ===== *)
theory Fs_Map
  imports Fs_Alloc
begin

text \<open>
  The block map of a file: \<^verbatim>\<open>inode_block\<close> reads it, \<^verbatim>\<open>ensure_inode_block\<close> extends it at one index
  and changes no other entry and no block that the file already had.
\<close>

section \<open>Reading the map\<close>

definition attrs :: "minifs_inode \<Rightarrow> u32 \<times> u32 \<times> u32 \<times> u32 \<times> u32" where
  "attrs ino = (i_mode ino, i_size ino, i_parent ino, i_links ino, i_reserved ino)"

definition same_map :: "fs \<Rightarrow> minifs_inode \<Rightarrow> fs \<Rightarrow> minifs_inode \<Rightarrow> nat set \<Rightarrow> bool" where
  "same_map s ino s' ino' J \<longleftrightarrow> attrs ino' = attrs ino \<and>
     (\<forall>j < 138. j \<notin> J \<longrightarrow> imap (fs_disk s') ino' j = imap (fs_disk s) ino j) \<and>
     (\<forall>j < 138. imap (fs_disk s) ino j \<noteq> 0 \<longrightarrow>
        fs_disk s' (imap (fs_disk s) ino j) = fs_disk s (imap (fs_disk s) ino j))"

lemma distinct_filter_nth:
  assumes "distinct (filter P xs)" "i < length xs" "j < length xs" "i \<noteq> j" "P (xs ! i)"
  shows "xs ! i \<noteq> xs ! j"
proof -
  have less: "xs ! a \<noteq> xs ! c" if "a < c" "c < length xs" "P (xs ! c)" for a c
  proof
    assume eq: "xs ! a = xs ! c"
    have "filter P xs = filter P (take c xs) @ filter P (drop c xs)"
      by (metis append_take_drop_id filter_append)
    moreover have "xs ! c \<in> set (filter P (take c xs))"
      using that eq by (auto simp: in_set_conv_nth intro!: exI [of _ a])
    moreover have "xs ! c \<in> set (filter P (drop c xs))"
      using that by (auto simp: in_set_conv_nth intro!: exI [of _ 0])
    ultimately show False using assms(1) by auto
  qed
  show ?thesis using assms less [of i j] less [of j i] by (metis linorder_neqE_nat)
qed

definition ino_list :: "disk \<Rightarrow> minifs_inode \<Rightarrow> u32 list" where
  "ino_list d ino = i_direct ino @ (if i_indirect ino = 0 then [] else i_indirect ino # indirect_entries (d (i_indirect ino)))"

lemma ino_blocks_list: "ino_blocks d ino = filter (\<lambda>b. b \<noteq> 0) (ino_list d ino)"
  by (simp add: ino_blocks_def ino_list_def)

lemma length_indirect_entries [simp]: "length (indirect_entries buf) = 128"
  by (simp add: indirect_entries_def)

lemma nth_indirect_entries: "k < 128 \<Longrightarrow> indirect_entries buf ! k = get32 buf (4 * k)"
  by (simp add: indirect_entries_def)

lemma imap_ino_list:
  assumes "ino_shape ino" "j < 138" "imap d ino j \<noteq> 0"
  shows "(if j < 10 then j else j + 1) < length (ino_list d ino)"
    "imap d ino j = ino_list d ino ! (if j < 10 then j else j + 1)"
  using assms
  by (auto simp: imap_def ino_list_def ino_shape_def nth_append nth_Cons' nth_indirect_entries split: if_splits)

lemma imap_in_blocks:
  assumes "ino_shape ino" "j < 138" "imap d ino j \<noteq> 0"
  shows "imap d ino j \<in> set (ino_blocks d ino)"
  using imap_ino_list [OF assms] assms(3) by (simp add: ino_blocks_list)

lemma imap_inj:
  assumes "ino_ok s ino" "j < 138" "k < 138" "imap (fs_disk s) ino j \<noteq> 0"
    "imap (fs_disk s) ino j = imap (fs_disk s) ino k"
  shows "j = k"
proof (rule ccontr)
  assume "j \<noteq> k"
  have sh: "ino_shape ino" and dis: "distinct (filter (\<lambda>b. b \<noteq> 0) (ino_list (fs_disk s) ino))"
    using assms(1) by (simp_all add: ino_ok_def ino_blocks_list)
  have "imap (fs_disk s) ino k \<noteq> 0" using assms by simp
  then show False
    using distinct_filter_nth [OF dis imap_ino_list(1) [OF sh assms(2,4)] imap_ino_list(1) [OF sh assms(3)]]
      imap_ino_list(2) [OF sh assms(2,4)] imap_ino_list(2) [OF sh assms(3)] assms(4,5) \<open>j \<noteq> k\<close>
    by (cases "j < 10"; cases "k < 10") auto
qed

lemma imap_not_indirect:
  assumes "ino_ok s ino" "j < 138" "imap (fs_disk s) ino j \<noteq> 0"
  shows "imap (fs_disk s) ino j \<noteq> i_indirect ino"
proof (cases "i_indirect ino = 0")
  case False
  have sh: "ino_shape ino" and dis: "distinct (filter (\<lambda>b. b \<noteq> 0) (ino_list (fs_disk s) ino))"
    using assms(1) by (simp_all add: ino_ok_def ino_blocks_list)
  have "10 < length (ino_list (fs_disk s) ino)" "ino_list (fs_disk s) ino ! 10 = i_indirect ino"
    using False sh by (simp_all add: ino_list_def ino_shape_def nth_append)
  then show ?thesis
    using distinct_filter_nth [OF dis imap_ino_list(1) [OF sh assms(2,3)], of 10] imap_ino_list(2) [OF sh assms(2,3)] assms(3)
    by (auto split: if_splits)
qed (use assms in simp)

lemma imap_in_data:
  "ino_ok s ino \<Longrightarrow> j < 138 \<Longrightarrow> imap (fs_disk s) ino j \<noteq> 0 \<Longrightarrow>
   in_data (imap (fs_disk s) ino j) \<and> used s (imap (fs_disk s) ino j)"
  using imap_in_blocks [of ino j "fs_disk s"] by (simp add: ino_ok_def)

lemma indirect_in_data: "ino_ok s ino \<Longrightarrow> i_indirect ino \<noteq> 0 \<Longrightarrow> in_data (i_indirect ino) \<and> used s (i_indirect ino)"
  using indirect_in_blocks [of ino "fs_disk s"] by (simp add: ino_ok_def)

lemma inode_block_imap:
  assumes "ino_ok s ino"
  shows "\<exists>b. inode_block s ino j = (imap (fs_disk s) ino j, s\<lparr>block_buffer := b\<rparr>)"
proof -
  have "s = s\<lparr>block_buffer := block_buffer s\<rparr>" by simp
  then show ?thesis
    using indirect_in_data [OF assms] in_data_small
    by (auto simp: inode_block_def imap_def intro: exI [of _ "block_buffer s"])
qed

lemma imap_cong:
  "(i_indirect ino \<noteq> 0 \<Longrightarrow> d' (i_indirect ino) = d (i_indirect ino)) \<Longrightarrow> imap d' ino = imap d ino"
  by (auto simp: imap_def fun_eq_iff)

section \<open>Extending the map\<close>

text \<open>A freshly allocated block, seen from a file.\<close>

lemma alloc_keeps:
  assumes "\<And>x. used s' x \<longleftrightarrow> x = b \<or> used s x"
    "\<And>x. x \<notin> {2, 3, 4, 5} \<Longrightarrow> fs_disk s' x = (if x = b then replicate 512 0 else fs_disk s x)"
    "\<not> used s b"
  shows "keeps s {} s'"
  using assms in_data_facts(4) unfolding keeps_def by auto

lemma same_map_keeps:
  assumes "ino_ok s ino" "keeps s {} s'"
  shows "same_map s ino s' ino {}" "ino_ok s' ino" "ino_blocks (fs_disk s') ino = ino_blocks (fs_disk s) ino"
    "imap (fs_disk s') ino = imap (fs_disk s) ino"
proof -
  note k = keeps_ino [OF assms, simplified]
  show "ino_ok s' ino" "ino_blocks (fs_disk s') ino = ino_blocks (fs_disk s) ino" using k(1,2) by simp_all
  show im: "imap (fs_disk s') ino = imap (fs_disk s) ino"
    using k(3) indirect_in_blocks by (intro imap_cong) auto
  have "ino_shape ino" using assms(1) by (simp add: ino_ok_def)
  then show "same_map s ino s' ino {}" using k(3) imap_in_blocks by (auto simp: same_map_def im)
qed

lemma same_map_trans:
  assumes "same_map s ino s1 ino1 {}" "same_map s1 ino1 s2 ino2 J"
  shows "same_map s ino s2 ino2 J"
  using assms unfolding same_map_def by auto

definition ensured :: "fs \<Rightarrow> minifs_inode \<Rightarrow> nat \<Rightarrow> u32 \<Rightarrow> fs \<Rightarrow> minifs_inode \<Rightarrow> bool" where
  "ensured s ino j b s' ino' \<longleftrightarrow> file_step s ino s' ino' \<and> same_map s ino s' ino' {j} \<and>
     imap (fs_disk s') ino' j = b \<and> b \<noteq> 0 \<and>
     (if imap (fs_disk s) ino j = 0 then fs_disk s' b = replicate 512 0 else b = imap (fs_disk s) ino j)"

definition refused :: "fs \<Rightarrow> minifs_inode \<Rightarrow> fs \<Rightarrow> minifs_inode \<Rightarrow> bool" where
  "refused s ino s' ino' \<longleftrightarrow> file_step s ino s' ino' \<and> same_map s ino s' ino' {} \<and> no_free_block s' \<and>
     keeps s {} s'"

lemma keeps_refl [simp]: "keeps s B s"
  by (simp add: keeps_def)

lemma keeps_trans: "keeps s {} s1 \<Longrightarrow> keeps s1 {} s2 \<Longrightarrow> keeps s {} s2"
  by (auto simp: keeps_def)

lemma same_map_refl [simp]: "same_map s ino s ino J"
  by (simp add: same_map_def)

lemma ensured_refl:
  assumes "ino_ok s ino" "coherent s" "disk_ok (fs_disk s)" "imap (fs_disk s) ino j \<noteq> 0"
  shows "ensured s ino j (imap (fs_disk s) ino j) s ino"
  using assms by (simp add: ensured_def file_step_refl)

lemma blocks_insert:
  assumes "ino_ok s ino" "ino_list d' ino' = (ino_list (fs_disk s) ino)[i := b]"
    "i < length (ino_list (fs_disk s) ino)" "ino_list (fs_disk s) ino ! i = 0"
    "b \<noteq> 0" "b \<notin> set (ino_blocks (fs_disk s) ino)"
  shows "set (ino_blocks d' ino') = insert b (set (ino_blocks (fs_disk s) ino))"
    "distinct (ino_blocks d' ino')"
proof -
  show "set (ino_blocks d' ino') = insert b (set (ino_blocks (fs_disk s) ino))"
    unfolding ino_blocks_list assms(2) by (rule nonzero_update(1) [OF assms(3-5)])
  show "distinct (ino_blocks d' ino')"
    using nonzero_update(2) [OF assms(3-5)] assms(1,5,6) unfolding ino_blocks_list assms(2) ino_ok_def by simp
qed

lemma ensure_direct_spec:
  assumes ok: "ino_ok s ino" "coherent s" "disk_ok (fs_disk s)" and j: "j < 10"
  obtains (fail) s' ino' where "ensure_direct s ino j = ((-1, ino'), s')" "refused s ino s' ino'"
  | (success) b s' ino' where "ensure_direct s ino j = ((int (unat b), ino'), s')" "ensured s ino j b s' ino'"
proof (cases "i_direct ino ! j = 0")
  case False
  then have im: "imap (fs_disk s) ino j = i_direct ino ! j" "imap (fs_disk s) ino j \<noteq> 0" using j by (simp_all add: imap_def)
  then have "in_data (i_direct ino ! j)" using imap_in_data [OF ok(1), of j] j by simp
  then have "ensure_direct s ino j = ((int (unat (i_direct ino ! j)), ino), s)"
    using False in_data_facts(5) by (simp add: ensure_direct_def)
  then show ?thesis using that(2) ensured_refl [OF ok im(2)] im(1) by simp
next
  case True
  have sh: "length (i_direct ino) = 10" using ok(1) by (simp add: ino_ok_def ino_shape_def)
  from ok(2,3) show ?thesis
  proof (cases rule: alloc_data_block_cases)
    case none
    then show ?thesis using True that(1) [of ino s] file_step_refl [OF ok(3,2,1)]
      by (simp add: ensure_direct_def refused_def)
  next
    case (block b s')
    define ino' where "ino' = ino\<lparr>i_direct := (i_direct ino)[j := b]\<rparr>"
    note k = alloc_keeps [OF block(4,5,3)]
    note sk = same_map_keeps [OF ok(1) k]
    have b0: "b \<noteq> 0" using in_data_facts [OF block(2)] by simp
    have up: "ino_list (fs_disk s') ino' = (ino_list (fs_disk s') ino)[j := b]"
      using j sh by (auto simp: ino_list_def ino'_def list_update_append1)
    have nth: "j < length (ino_list (fs_disk s') ino)" "ino_list (fs_disk s') ino ! j = 0"
      using j sh True by (simp_all add: ino_list_def nth_append)
    have bn: "b \<notin> set (ino_blocks (fs_disk s') ino)" using ok(1) block(3) sk(3) by (auto simp: ino_ok_def)
    note bi = blocks_insert [OF sk(2) up nth b0 bn]
    have blocks: "set (ino_blocks (fs_disk s') ino') = insert b (set (ino_blocks (fs_disk s) ino))"
      using bi(1) sk(3) by simp
    have "ino_ok s' ino'"
      using sk(2,3) bi blocks block(2,4) sh by (simp add: ino_ok_def ino_shape_def ino'_def)
    then have "file_step s ino s' ino'"
      using block k blocks by (auto simp: file_step_def keeps_def)
    moreover have "imap (fs_disk s') ino' i = (if i = j then b else imap (fs_disk s') ino i)" for i
      using j sh by (auto simp: imap_def ino'_def)
    moreover have "imap (fs_disk s) ino j = 0" using j True by (simp add: imap_def)
    moreover have "fs_disk s' b = replicate 512 0" using block(5) [of b] in_data_facts(4) [OF block(2)] by simp
    ultimately have "ensured s ino j b s' ino'"
      using sk(1,4) b0 by (simp add: ensured_def same_map_def) (simp add: attrs_def ino'_def)
    moreover have "ensure_direct s ino j = ((int (unat b), ino'), s')"
      using True block(1) j sh in_data_facts(5) [OF block(2)] by (simp add: ensure_direct_def ino'_def)
    ultimately show ?thesis using that(2) by blast
  qed
qed

lemma indirect_entries_zeros: "filter (\<lambda>b. b \<noteq> 0) (indirect_entries (replicate 512 0)) = []"
  by (auto simp: filter_empty_conv indirect_entries_def get32_zeros)

lemma ensure_indirect_spec:
  assumes ok: "ino_ok s ino" "coherent s" "disk_ok (fs_disk s)"
  obtains (fail) "ensure_indirect s ino = ((-1, ino), s)" "refused s ino s ino"
  | (success) s' ino' where "ensure_indirect s ino = ((0, ino'), s')" "file_step s ino s' ino'"
      "same_map s ino s' ino' {}" "i_indirect ino' \<noteq> 0" "keeps s {} s'"
proof (cases "i_indirect ino = 0")
  case False
  then show ?thesis using that(2) [of ino s] file_step_refl [OF ok(3,2,1)] by (simp add: ensure_indirect_def)
next
  case True
  from ok(2,3) show ?thesis
  proof (cases rule: alloc_data_block_cases)
    case none
    then show ?thesis using True that(1) file_step_refl [OF ok(3,2,1)]
      by (simp add: ensure_indirect_def refused_def)
  next
    case (block b s')
    define ino' where "ino' = ino\<lparr>i_indirect := b\<rparr>"
    note k = alloc_keeps [OF block(4,5,3)]
    note sk = same_map_keeps [OF ok(1) k]
    have b0: "b \<noteq> 0" using in_data_facts [OF block(2)] by simp
    have zero: "fs_disk s' b = replicate 512 0" using block(5) [of b] in_data_facts(4) [OF block(2)] by simp
    have blocks: "ino_blocks (fs_disk s') ino' = ino_blocks (fs_disk s) ino @ [b]"
      using True b0 by (simp add: ino_blocks_def ino'_def zero indirect_entries_zeros)
    have bn: "b \<notin> set (ino_blocks (fs_disk s) ino)" using ok(1) block(3) by (auto simp: ino_ok_def)
    have "ino_ok s' ino'"
      using ok(1) bn block(2,4) unfolding ino_ok_def blocks by (auto simp: ino_shape_def ino'_def)
    then have "file_step s ino s' ino'"
      using block k blocks by (auto simp: file_step_def keeps_def)
    moreover have "imap (fs_disk s') ino' i = imap (fs_disk s) ino i" if "i < 138" for i
      using True b0 that by (simp add: imap_def ino'_def zero get32_zeros)
    then have "same_map s ino s' ino' {}"
      using sk(1) by (simp add: same_map_def) (simp add: attrs_def ino'_def)
    moreover have "ensure_indirect s ino = ((0, ino'), s')"
      using True block(1) by (simp add: ensure_indirect_def ino'_def)
    ultimately show ?thesis using that(2) [of ino' s'] b0 k by (simp add: ino'_def)
  qed
qed

lemma indirect_entries_update:
  assumes "length buf = 512" "slot < 128"
  shows "indirect_entries (copy_bytes buf (4 * slot) (enc32 b)) = (indirect_entries buf)[slot := b]"
proof (rule nth_equalityI)
  fix k assume "k < length (indirect_entries (copy_bytes buf (4 * slot) (enc32 b)))"
  then have k: "k < 128" by simp
  show "indirect_entries (copy_bytes buf (4 * slot) (enc32 b)) ! k = (indirect_entries buf)[slot := b] ! k"
  proof (cases "k = slot")
    case True
    then show ?thesis using assms by (simp add: nth_indirect_entries get32_copy_same)
  next
    case False
    then have "4 * k + 4 \<le> 4 * slot \<or> 4 * slot + 4 \<le> 4 * k" by linarith
    then show ?thesis using assms k False by (simp add: nth_indirect_entries get32_copy_other)
  qed
qed simp

text \<open>Filling a free slot of the indirect block with a fresh block.\<close>

lemma fill_slot:
  assumes ok: "ino_ok s ino" "i_indirect ino \<noteq> 0" and slot: "slot < 128"
    and zero: "get32 (fs_disk s (i_indirect ino)) (4 * slot) = 0"
    and b: "in_data b" "\<not> used s b"
    and used1: "\<And>x. used s1 x \<longleftrightarrow> x = b \<or> used s x"
    and disk1: "\<And>x. x \<notin> {2, 3, 4, 5} \<Longrightarrow> fs_disk s1 x = (if x = b then replicate 512 0 else fs_disk s x)"
    and s1: "coherent s1" "disk_ok (fs_disk s1)" "frame s s1"
  defines "buf \<equiv> copy_bytes (fs_disk s (i_indirect ino)) (4 * slot) (enc32 b)"
  defines "s2 \<equiv> s1\<lparr>indirect_buffer := buf, fs_disk := (fs_disk s1)(i_indirect ino := buf)\<rparr>"
  shows "ensured s ino (slot + 10) b s2 ino"
proof -
  let ?i = "i_indirect ino"
  have k: "keeps s {} s1" by (rule alloc_keeps [OF used1 disk1 b(2)])
  note sk = same_map_keeps [OF ok(1) k]
  have i: "in_data ?i" "used s ?i" using indirect_in_data [OF ok] by simp_all
  have b0: "b \<noteq> 0" "b \<noteq> ?i" using b i in_data_facts(1) by auto
  have same1: "fs_disk s1 ?i = fs_disk s ?i" using disk1 [of ?i] in_data_facts(4) [OF i(1)] b0(2) by simp
  have len: "length (fs_disk s ?i) = 512" using s1(2) unfolding same1 [symmetric] disk_ok_def by simp
  then have lenb: "length buf = 512" using slot by (simp add: buf_def)
  have d2: "fs_disk s2 x = (if x = ?i then buf else fs_disk s1 x)" for x by (simp add: s2_def)
  have sh: "length (i_direct ino) = 10" using ok(1) by (simp add: ino_ok_def ino_shape_def)
  have up: "ino_list (fs_disk s2) ino = (ino_list (fs_disk s1) ino)[11 + slot := b]"
    using ok(2) sh len slot
    by (simp add: ino_list_def d2 same1 buf_def indirect_entries_update list_update_append)
  have nth: "11 + slot < length (ino_list (fs_disk s1) ino)" "ino_list (fs_disk s1) ino ! (11 + slot) = 0"
    using ok(2) sh slot zero by (simp_all add: ino_list_def nth_append same1 nth_indirect_entries)
  have bn: "b \<notin> set (ino_blocks (fs_disk s1) ino)" using ok(1) b(2) sk(3) by (auto simp: ino_ok_def)
  note bi = blocks_insert [OF sk(2) up nth b0(1) bn]
  have blocks: "set (ino_blocks (fs_disk s2) ino) = insert b (set (ino_blocks (fs_disk s) ino))"
    using bi(1) sk(3) by simp
  have used2: "used s2 = used s1" by (auto simp: used_def s2_def fun_eq_iff)
  have ok2: "ino_ok s2 ino" using ok(1) bi(2) used1 b(1) unfolding ino_ok_def blocks used2 by auto
  have "coherent s2" using s1(1) bitmap_sector in_data_facts(4) [OF i(1)] unfolding coherent_def s2_def by fastforce
  moreover have "disk_ok (fs_disk s2)" using s1(2) lenb by (simp add: disk_ok_def s2_def)
  moreover have "frame s s2" using s1(3) in_data_facts(3) [OF i(1)] by (auto simp: frame_def s2_def)
  moreover have "keeps s (set (ino_blocks (fs_disk s) ino)) s2"
    using k indirect_in_blocks [OF ok(2), of "fs_disk s"] by (auto simp: keeps_def used2 d2)
  ultimately have "file_step s ino s2 ino" using ok2 b blocks by (simp add: file_step_def)
  moreover have "imap (fs_disk s2) ino j = (if j = slot + 10 then b else imap (fs_disk s) ino j)" if "j < 138" for j
    using that ok(2) slot same1 len
    by (auto simp: imap_def d2 buf_def get32_copy_same intro!: get32_copy_other)
  moreover have "fs_disk s2 (imap (fs_disk s) ino j) = fs_disk s (imap (fs_disk s) ino j)"
    if "j < 138" "imap (fs_disk s) ino j \<noteq> 0" for j
    using sk(1) that imap_not_indirect [OF ok(1) that] by (simp add: same_map_def d2)
  moreover have "imap (fs_disk s) ino (slot + 10) = 0" using slot ok(2) zero by (simp add: imap_def)
  moreover have "fs_disk s2 b = replicate 512 0" using disk1 [of b] in_data_facts(4) [OF b(1)] b0 by (simp add: d2)
  ultimately show ?thesis using slot b0(1) by (simp add: ensured_def same_map_def)
qed

lemma ensure_slot_spec:
  assumes ok: "ino_ok s ino" "coherent s" "disk_ok (fs_disk s)" "i_indirect ino \<noteq> 0" and slot: "slot < 128"
  obtains (fail) s' where "ensure_slot s ino slot = ((-1, ino), s')" "refused s ino s' ino"
  | (success) b s' where "ensure_slot s ino slot = ((int (unat b), ino), s')" "ensured s ino (slot + 10) b s' ino"
proof -
  let ?i = "i_indirect ino" and ?e = "get32 (fs_disk s (i_indirect ino)) (4 * slot)"
  define s0 where "s0 = s\<lparr>indirect_buffer := fs_disk s ?i\<rparr>"
  have i: "in_data ?i" "used s ?i" using indirect_in_data [OF ok(1,4)] by simp_all
  have read: "iread s ?i = (0, s0)" using in_data_small [OF i(1)] by (simp add: s0_def)
  have im: "imap (fs_disk s) ino (slot + 10) = ?e" using slot ok(4) by (simp add: imap_def)
  show ?thesis
  proof (cases "?e = 0")
    case False
    then have "in_data ?e" using imap_in_data [OF ok(1), of "slot + 10"] slot im by simp
    then have "ensure_slot s ino slot = ((int (unat ?e), ino), s0)"
      using False in_data_facts(5) by (simp add: ensure_slot_def read) (simp add: s0_def)
    moreover have "ensured s ino (slot + 10) ?e s0 ino"
      using ensured_refl [OF ok(1-3), of "slot + 10"] False im
      by (simp add: ensured_def s0_def same_map_def)
    ultimately show ?thesis using that(2) by blast
  next
    case True
    have ok0: "coherent s0" "disk_ok (fs_disk s0)" using ok by (simp_all add: s0_def)
    then show ?thesis
    proof (cases rule: alloc_data_block_cases)
      case none
      have "refused s ino s0 ino" using none(2) file_step_refl [OF ok(3,2,1)]
        by (simp add: refused_def s0_def same_map_def keeps_def)
      moreover have "ensure_slot s ino slot = ((-1, ino), s0)"
        using True none(1) by (simp add: ensure_slot_def read) (simp add: s0_def)
      ultimately show ?thesis using that(1) by blast
    next
      case (block b s1)
      define buf where "buf = copy_bytes (fs_disk s ?i) (4 * slot) (enc32 b)"
      define s2 where "s2 = s1\<lparr>indirect_buffer := buf, fs_disk := (fs_disk s1)(?i := buf)\<rparr>"
      have len: "length (fs_disk s ?i) = 512" using ok(3) by (simp add: disk_ok_def)
      have "ensured s ino (slot + 10) b s2 ino" unfolding s2_def buf_def
        by (rule fill_slot [OF ok(1,4) slot True block(2)])
          (use block in \<open>simp_all add: s0_def\<close>)
      moreover have "ensure_slot s ino slot = ((int (unat b), ino), s2)"
        using True block(1,9) in_data_small [OF i(1)] in_data_facts(5) [OF block(2)] len slot
        by (simp add: ensure_slot_def read) (simp add: s0_def s2_def buf_def get32_copy_same)
      ultimately show ?thesis using that(2) by blast
    qed
  qed
qed

lemma ensure_inode_block_spec:
  assumes ok: "ino_ok s ino" "coherent s" "disk_ok (fs_disk s)" and j: "j < 138"
  obtains (fail) s' ino' where "ensure_inode_block s ino j = ((-1, ino'), s')" "refused s ino s' ino'"
  | (success) b s' ino' where "ensure_inode_block s ino j = ((int (unat b), ino'), s')" "ensured s ino j b s' ino'"
proof (cases "j < 10")
  case True
  then have eq: "ensure_inode_block s ino j = ensure_direct s ino j" by (simp add: ensure_inode_block_def)
  from ok True show ?thesis by (cases rule: ensure_direct_spec) (use that eq in auto)
next
  case False
  from ok show ?thesis
  proof (cases rule: ensure_indirect_spec)
    case fail
    then show ?thesis using that(1) [of ino s] False j by (simp add: ensure_inode_block_def)
  next
    case (success s1 ino1)
    have ok1: "ino_ok s1 ino1" "coherent s1" "disk_ok (fs_disk s1)" using success(2) by (simp_all add: file_step_def)
    have j': "j - 10 < 128" "j - 10 + 10 = j" using j False by simp_all
    have im: "imap (fs_disk s1) ino1 j = imap (fs_disk s) ino j" using success(3) j by (simp add: same_map_def)
    from ok1 success(4) j'(1) show ?thesis
    proof (cases rule: ensure_slot_spec)
      case (fail s')
      have "refused s ino s' ino1"
        using fail(2) file_step_trans [OF success(2)] same_map_trans [OF success(3)] keeps_trans [OF success(5)]
        by (simp add: refused_def)
      then show ?thesis using that(1) [of ino1 s'] fail(1) success(1) False j by (simp add: ensure_inode_block_def)
    next
      case (success b s')
      note inner = success
      have "ensured s ino j b s' ino1"
        using inner(2) file_step_trans [OF \<open>file_step s ino s1 ino1\<close>] same_map_trans [OF \<open>same_map s ino s1 ino1 {}\<close>] im
        by (simp add: ensured_def j'(2))
      then show ?thesis using that(2) [of b ino1 s'] inner(1) \<open>ensure_indirect s ino = ((0, ino1), s1)\<close> False j
        by (simp add: ensure_inode_block_def)
    qed
  qed
qed

end
