(* ===== verification/Fs_File.thy ===== *)
theory Fs_File
  imports Fs_Map Fs_Calls
begin

text \<open>
  File contents.  A file is a partial map from positions to bytes (a position in a block the
  file does not have is a hole); \<^verbatim>\<open>write_at\<close> and \<^verbatim>\<open>minifs_pread\<close> update and read this map.
\<close>

section \<open>Contents\<close>

definition file_byte :: "disk \<Rightarrow> minifs_inode \<Rightarrow> nat \<Rightarrow> u8 option" where
  "file_byte d ino k =
     (let b = imap d ino (k div 512) in if b = 0 then None else Some (d b ! (k mod 512)))"

text \<open>A position keeps its byte, or a hole is filled with zero.\<close>

definition grows :: "u8 option \<Rightarrow> u8 option \<Rightarrow> bool" where
  "grows old new \<longleftrightarrow> new = old \<or> (old = None \<and> new = Some 0)"

definition wrote :: "disk \<Rightarrow> minifs_inode \<Rightarrow> disk \<Rightarrow> minifs_inode \<Rightarrow> nat \<Rightarrow> u8 list \<Rightarrow> bool" where
  "wrote d ino d' ino' lo bs \<longleftrightarrow>
     (\<forall>k. if lo \<le> k \<and> k < lo + length bs then file_byte d' ino' k = Some (bs ! (k - lo))
          else grows (file_byte d ino k) (file_byte d' ino' k))"

lemma wrote_nil: "(\<And>k. file_byte d' ino' k = file_byte d ino k) \<Longrightarrow> wrote d ino d' ino' lo []"
  by (auto simp: wrote_def grows_def)

lemma wrote_trans:
  assumes "wrote d ino d1 ino1 lo bs" "wrote d1 ino1 d2 ino2 (lo + length bs) bs2"
  shows "wrote d ino d2 ino2 lo (bs @ bs2)"
  unfolding wrote_def
proof
  fix k
  have 1: "if lo \<le> k \<and> k < lo + length bs then file_byte d1 ino1 k = Some (bs ! (k - lo))
      else grows (file_byte d ino k) (file_byte d1 ino1 k)"
    using assms(1) by (simp add: wrote_def)
  have 2: "if lo + length bs \<le> k \<and> k < lo + length bs + length bs2 then file_byte d2 ino2 k = Some (bs2 ! (k - (lo + length bs)))
      else grows (file_byte d1 ino1 k) (file_byte d2 ino2 k)"
    using assms(2) by (simp add: wrote_def)
  show "if lo \<le> k \<and> k < lo + length (bs @ bs2) then file_byte d2 ino2 k = Some ((bs @ bs2) ! (k - lo))
      else grows (file_byte d ino k) (file_byte d2 ino2 k)"
    using 1 2 by (auto simp: grows_def nth_append split: if_splits)
qed

lemma same_map_bytes:
  assumes "same_map s ino s' ino' {}"
  shows "file_byte (fs_disk s') ino' k = file_byte (fs_disk s) ino k"
proof (cases "k div 512 < 138")
  case True
  then show ?thesis using assms by (auto simp: file_byte_def same_map_def Let_def)
next
  case False
  then show ?thesis by (simp add: file_byte_def imap_def)
qed

text \<open>A run of \<open>n\<close> bytes from \<open>lo\<close>, where the file has no hole.\<close>

definition file_bytes :: "disk \<Rightarrow> minifs_inode \<Rightarrow> nat \<Rightarrow> nat \<Rightarrow> u8 list" where
  "file_bytes d ino lo n = map (\<lambda>k. the (file_byte d ino k)) [lo..<lo + n]"

lemma length_file_bytes [simp]: "length (file_bytes d ino lo n) = n"
  by (simp add: file_bytes_def)

lemma file_bytes_add: "file_bytes d ino lo (n + m) = file_bytes d ino lo n @ file_bytes d ino (lo + n) m"
proof -
  have "[lo..<lo + (n + m)] = [lo..<lo + n] @ [lo + n..<lo + n + m]"
    using upt_add_eq_append [of lo "lo + n" m] by (simp add: add.assoc)
  then show ?thesis by (simp add: file_bytes_def)
qed

lemma copy_append:
  assumes "dn + length a + length b \<le> length buf"
  shows "copy_bytes (copy_bytes buf dn a) (dn + length a) b = copy_bytes buf dn (a @ b)"
  by (rule nth_equalityI) (use assms in \<open>auto simp: nth_copy_bytes nth_append\<close>)

lemma block_position:
  fixes offset i :: nat
  assumes "offset mod 512 + i < 512"
  shows "(offset + i) div 512 = offset div 512" "(offset + i) mod 512 = offset mod 512 + i"
proof -
  have o: "512 * (offset div 512) + offset mod 512 = offset" by (rule mult_div_mod_eq)
  have "512 * (offset div 512) \<le> offset + i" "offset + i < 512 * Suc (offset div 512)"
    unfolding mult_Suc_right using o assms by linarith+
  then show *: "(offset + i) div 512 = offset div 512" by (rule div_nat_eqI)
  have "512 * ((offset + i) div 512) + (offset + i) mod 512 = offset + i" by (rule mult_div_mod_eq)
  then show "(offset + i) mod 512 = offset mod 512 + i" using o unfolding * by linarith
qed

section \<open>Reading\<close>

lemma block_piece:
  assumes "disk_ok d" "imap d ino (offset div 512) \<noteq> 0" "offset mod 512 + n \<le> 512"
  shows "bytes_at (d (imap d ino (offset div 512))) (offset mod 512) n = file_bytes d ino offset n"
proof (rule nth_equalityI)
  fix i assume "i < length (bytes_at (d (imap d ino (offset div 512))) (offset mod 512) n)"
  then have i: "i < n" using assms by (simp add: disk_ok_def)
  then show "bytes_at (d (imap d ino (offset div 512))) (offset mod 512) n ! i = file_bytes d ino offset n ! i"
    using assms block_position [of offset i] by (simp add: nth_bytes_at disk_ok_def file_byte_def file_bytes_def)
qed (use assms in \<open>simp add: disk_ok_def\<close>)

lemma pread_loop_spec:
  assumes "ino_ok s ino" "disk_ok (fs_disk s)" "dn \<le> len" "len \<le> length buf"
    "\<And>k. offset \<le> k \<Longrightarrow> k < offset + (len - dn) \<Longrightarrow> file_byte (fs_disk s) ino k \<noteq> None"
  shows "\<exists>b. pread_loop s ino offset dn len buf =
    ((int len, copy_bytes buf dn (file_bytes (fs_disk s) ino offset (len - dn))), s\<lparr>block_buffer := b\<rparr>)"
  using assms
proof (induction "len - dn" arbitrary: s offset dn buf rule: less_induct)
  case less
  show ?case
  proof (cases "dn < len")
    case False
    then have "pread_loop s ino offset dn len buf = ((int len, buf), s)" "dn = len"
      using less.prems(3) by (simp_all add: pread_loop.simps)
    then show ?thesis by (auto simp: copy_bytes_def file_bytes_def intro: exI [of _ "block_buffer s"])
  next
    case True
    let ?d = "fs_disk s" and ?w = "offset mod 512"
    define ch where "ch = min (len - dn) (512 - offset mod 512)"
    define blk where "blk = imap (fs_disk s) ino (offset div 512)"
    have nz: "blk \<noteq> 0" using less.prems(5) [of offset] True by (fastforce simp: file_byte_def blk_def Let_def)
    then have j: "offset div 512 < 138" unfolding blk_def imap_def by (auto split: if_splits)
    have data: "unat blk < 16384" using imap_in_data [OF less.prems(1) j] nz in_data_small by (simp add: blk_def)
    obtain b0 where ib: "inode_block s ino (offset div 512) = (blk, s\<lparr>block_buffer := b0\<rparr>)"
      using inode_block_imap [OF less.prems(1)] unfolding blk_def by blast
    define s1 where "s1 = s\<lparr>block_buffer := ?d blk\<rparr>"
    have ch: "0 < ch" "?w + ch \<le> 512" "dn + ch \<le> len" using True by (auto simp: ch_def)
    have piece: "bytes_at (?d blk) ?w ch = file_bytes ?d ino offset ch"
      unfolding blk_def by (rule block_piece) (use less.prems(2) nz ch(2) in \<open>simp_all add: blk_def\<close>)
    let ?buf = "copy_bytes buf dn (file_bytes ?d ino offset ch)"
    have step: "pread_loop s ino offset dn len buf = pread_loop s1 ino (offset + ch) (dn + ch) len ?buf"
      using True ib nz data by (subst pread_loop.simps) (simp add: ch_def [symmetric] s1_def piece)
    have "\<exists>b. pread_loop s1 ino (offset + ch) (dn + ch) len ?buf =
      ((int len, copy_bytes ?buf (dn + ch) (file_bytes (fs_disk s1) ino (offset + ch) (len - (dn + ch)))), s1\<lparr>block_buffer := b\<rparr>)"
      by (rule less.hyps) (use less.prems ch in \<open>simp_all add: s1_def\<close>)
    moreover have "file_bytes ?d ino offset (len - dn) =
        file_bytes ?d ino offset ch @ file_bytes ?d ino (offset + ch) (len - (dn + ch))"
      using file_bytes_add [of ?d ino offset ch "len - (dn + ch)"] ch(3) by simp
    then have "copy_bytes ?buf (dn + ch) (file_bytes ?d ino (offset + ch) (len - (dn + ch))) =
        copy_bytes buf dn (file_bytes ?d ino offset (len - dn))"
      using copy_append [of dn "file_bytes ?d ino offset ch" "file_bytes ?d ino (offset + ch) (len - (dn + ch))" buf]
        less.prems(4) ch(3) by simp
    ultimately show ?thesis using step by (auto simp: s1_def)
  qed
qed

section \<open>Writing\<close>

text \<open>Overwriting part of one of a file's own data blocks.\<close>

lemma overwrite_block:
  assumes ok: "ino_ok s ino" "coherent s" "disk_ok (fs_disk s)" and j: "offset div 512 < 138"
    and nz: "imap (fs_disk s) ino (offset div 512) \<noteq> 0" and len: "offset mod 512 + length bs \<le> 512"
  defines "b \<equiv> imap (fs_disk s) ino (offset div 512)"
  defines "s' \<equiv> s\<lparr>fs_disk := (fs_disk s)(b := copy_bytes (fs_disk s b) (offset mod 512) bs)\<rparr>"
  shows "file_step s ino s' ino" "wrote (fs_disk s) ino (fs_disk s') ino offset bs"
proof -
  have b: "in_data b" "used s b" "b \<noteq> 0" "b \<noteq> i_indirect ino" "b \<in> set (ino_blocks (fs_disk s) ino)"
    using imap_in_data [OF ok(1) j nz] imap_not_indirect [OF ok(1) j nz] imap_in_blocks [OF _ j nz] ok(1) nz
    by (simp_all add: b_def ino_ok_def)
  have d: "length (fs_disk s b) = 512" using ok(3) by (simp add: disk_ok_def)
  have blocks: "ino_blocks (fs_disk s') ino = ino_blocks (fs_disk s) ino"
    using b(4) by (intro ino_blocks_cong) (simp add: s'_def)
  have im: "imap (fs_disk s') ino = imap (fs_disk s) ino" using b(4) by (intro imap_cong) (simp add: s'_def)
  have u: "used s' = used s" by (auto simp: fun_eq_iff used_def s'_def)
  have "coherent s'" using ok(2) bitmap_sector in_data_facts(4) [OF b(1)] unfolding coherent_def s'_def by fastforce
  moreover have "disk_ok (fs_disk s')" using ok(3) len d by (simp add: disk_ok_def s'_def)
  moreover have "frame s s'" using in_data_facts(3) [OF b(1)] by (auto simp: frame_def s'_def)
  moreover have "keeps s (set (ino_blocks (fs_disk s) ino)) s'" using b(5) by (auto simp: keeps_def u) (auto simp: s'_def)
  ultimately show "file_step s ino s' ino" using ok(1) by (simp add: file_step_def ino_ok_def blocks u)
  show "wrote (fs_disk s) ino (fs_disk s') ino offset bs"
    unfolding wrote_def
  proof
    fix k
    show "if offset \<le> k \<and> k < offset + length bs then file_byte (fs_disk s') ino k = Some (bs ! (k - offset))
        else grows (file_byte (fs_disk s) ino k) (file_byte (fs_disk s') ino k)"
    proof (cases "k div 512 = offset div 512")
      case True
      have k: "offset \<le> k \<and> k < offset + length bs \<longleftrightarrow> offset mod 512 \<le> k mod 512 \<and> k mod 512 < offset mod 512 + length bs"
        "k - offset = k mod 512 - offset mod 512"
        using True mult_div_mod_eq [of 512 k] mult_div_mod_eq [of 512 offset] by linarith+
      have "file_byte (fs_disk s') ino k = Some (copy_bytes (fs_disk s b) (offset mod 512) bs ! (k mod 512))"
        using True b(3) unfolding file_byte_def im by (simp add: b_def [symmetric]) (simp add: s'_def)
      moreover have "file_byte (fs_disk s) ino k = Some (fs_disk s b ! (k mod 512))"
        using True b(3) by (simp add: file_byte_def b_def [symmetric])
      ultimately show ?thesis unfolding k using d len by (simp add: nth_copy_bytes grows_def)
    next
      case False
      then have "file_byte (fs_disk s') ino k = file_byte (fs_disk s) ino k"
        using imap_inj [OF ok(1) _ j, of "k div 512"] unfolding file_byte_def im
        by (cases "k div 512 < 138") (auto simp: Let_def s'_def b_def imap_def [of _ _ "k div 512"])
      moreover have "\<not> (offset \<le> k \<and> k < offset + length bs)"
      proof
        assume "offset \<le> k \<and> k < offset + length bs"
        then have "offset mod 512 + (k - offset) < 512" "offset + (k - offset) = k" using len by linarith+
        then show False using False block_position(1) [of offset "k - offset"] by simp
      qed
      ultimately show ?thesis by (auto simp: grows_def)
    qed
  qed
qed

lemma ensured_grows:
  assumes "ensured s ino j b s' ino'"
  shows "wrote (fs_disk s) ino (fs_disk s') ino' lo []"
proof -
  have "grows (file_byte (fs_disk s) ino k) (file_byte (fs_disk s') ino' k)" for k
  proof (cases "k div 512 < 138")
    case True
    then show ?thesis using assms unfolding ensured_def same_map_def grows_def file_byte_def
      by (cases "k div 512 = j") (auto simp: Let_def split: if_splits)
  next
    case False
    then show ?thesis by (simp add: grows_def file_byte_def imap_def)
  qed
  then show ?thesis by (auto simp: wrote_def)
qed

text \<open>
  One run of the loop: a prefix of the remaining source bytes is written, the whole of it
  unless the disk is full.
\<close>

lemma length_bytes_at_le: "length (bytes_at buf off n) \<le> n"
  by (simp add: bytes_at_def)

lemma bytes_at_add: "bytes_at buf off (n + m) = bytes_at buf off n @ bytes_at buf (off + n) m"
  by (simp add: bytes_at_def take_add) (simp add: add.commute)

lemma write_loop_spec:
  assumes "ino_ok s ino" "coherent s" "disk_ok (fs_disk s)" "dn \<le> len" "len \<le> length source"
    "offset + (len - dn) \<le> 65536"
  shows "\<exists>s' ino' r. write_loop s ino offset dn len source = (Some (ino', offset + r, dn + r), s') \<and>
    r \<le> len - dn \<and> file_step s ino s' ino' \<and> attrs ino' = attrs ino \<and>
    wrote (fs_disk s) ino (fs_disk s') ino' offset (bytes_at source dn r) \<and>
    (r < len - dn \<longrightarrow> no_free_block s')"
  using assms
proof (induction "len - dn" arbitrary: s ino offset dn rule: less_induct)
  case less
  note ok = less.prems(1-3)
  have stop: ?case if "write_loop s ino offset dn len source = (Some (ino', offset, dn), s')"
    "file_step s ino s' ino'" "same_map s ino s' ino' {}" "dn < len \<Longrightarrow> no_free_block s'" for s' ino'
    using that wrote_nil [of "fs_disk s'" ino' "fs_disk s" ino offset] same_map_bytes [OF that(3)]
    by (intro exI [of _ s'] exI [of _ ino'] exI [of _ 0]) (auto simp: same_map_def bytes_at_def)
  show ?case
  proof (cases "dn < len")
    case False
    then show ?thesis using file_step_refl [OF ok(3,2,1)] by (intro stop [of ino s]) (simp_all add: write_loop.simps)
  next
    case True
    have j: "offset div 512 < 138" using less.prems(6) True by (simp add: less_mult_imp_div_less)
    from ok j show ?thesis
    proof (cases rule: ensure_inode_block_spec)
      case (fail s' ino')
      then show ?thesis using True by (intro stop [of ino' s']) (simp_all add: write_loop.simps refused_def)
    next
      case (success b s1 ino1)
      define ch where "ch = min (len - dn) (512 - offset mod 512)"
      have ch: "0 < ch" "offset mod 512 + ch \<le> 512" "dn + ch \<le> len" using True by (auto simp: ch_def)
      have st1: "file_step s ino s1 ino1" "imap (fs_disk s1) ino1 (offset div 512) = b" "b \<noteq> 0" "attrs ino1 = attrs ino"
        using success(2) by (simp_all add: ensured_def same_map_def)
      have ok1: "ino_ok s1 ino1" "coherent s1" "disk_ok (fs_disk s1)" using st1(1) by (simp_all add: file_step_def)
      have data: "unat b < 16384" using imap_in_data [OF ok1(1) j] st1(2,3) in_data_small by simp
      have bs: "length (bytes_at source dn ch) = ch" using ch(3) less.prems(5) by simp
      define s2 where "s2 = s1\<lparr>fs_disk := (fs_disk s1)(b := copy_bytes (fs_disk s1 b) (offset mod 512) (bytes_at source dn ch))\<rparr>"
      define s3 where "s3 = s2\<lparr>block_buffer := copy_bytes (fs_disk s1 b) (offset mod 512) (bytes_at source dn ch)\<rparr>"
      have st2: "file_step s1 ino1 s2 ino1" "wrote (fs_disk s1) ino1 (fs_disk s2) ino1 offset (bytes_at source dn ch)"
        using overwrite_block [OF ok1 j, of "bytes_at source dn ch"] st1(2,3) bs ch(2) by (simp_all add: s2_def)
      have step: "write_loop s ino offset dn len source = write_loop s3 ino1 (offset + ch) (dn + ch) len source"
        using True success(1) data by (subst write_loop.simps) (cases s1, simp add: ch_def [symmetric] s2_def s3_def Let_def)
      have ok3: "ino_ok s3 ino1" "coherent s3" "disk_ok (fs_disk s3)"
        using st2(1) by (simp_all add: file_step_def s3_def)
      have lt: "len - (dn + ch) < len - dn" "offset + ch + (len - (dn + ch)) \<le> 65536"
        using ch less.prems(4,6) by simp_all
      obtain s' ino' r where ih: "write_loop s3 ino1 (offset + ch) (dn + ch) len source = (Some (ino', offset + ch + r, dn + ch + r), s')"
        "r \<le> len - (dn + ch)" "file_step s3 ino1 s' ino'" "attrs ino' = attrs ino1"
        "wrote (fs_disk s3) ino1 (fs_disk s') ino' (offset + ch) (bytes_at source (dn + ch) r)"
        "r < len - (dn + ch) \<longrightarrow> no_free_block s'"
        using less.hyps [OF lt(1) ok3 ch(3) less.prems(5) lt(2)] by blast
      have "file_step s ino s' ino'"
        using file_step_trans [OF file_step_trans [OF st1(1) st2(1)]] ih(3) by (simp add: s3_def)
      moreover have "wrote (fs_disk s) ino (fs_disk s2) ino1 offset (bytes_at source dn ch)"
        using wrote_trans [OF ensured_grows [OF success(2), of offset]] st2(2) by simp
      then have "wrote (fs_disk s) ino (fs_disk s') ino' offset (bytes_at source dn (ch + r))"
        using wrote_trans [of "fs_disk s" ino "fs_disk s2" ino1 offset "bytes_at source dn ch"] ih(5) bs
        unfolding bytes_at_add by (simp add: s3_def)
      ultimately show ?thesis
        using step ih st1(4) ch(3) by (intro exI [of _ s'] exI [of _ ino'] exI [of _ "ch + r"]) (simp add: add.assoc)
    qed
  qed
qed

section \<open>Committing an inode\<close>

lemma inv_cong:
  assumes "inv s f" "\<And>n. n < 256 \<Longrightarrow> f n = g n" shows "inv s g"
  using assms by (simp add: inv_def)

text \<open>A change of sectors outside the data area and the bitmap leaves the invariant alone.\<close>

lemma inv_meta:
  assumes "inv s f" "bitmap_buffer s' = bitmap_buffer s" "disk_ok (fs_disk s')"
    "\<And>x. \<not> meta x \<Longrightarrow> fs_disk s' x = fs_disk s x"
  shows "inv s' f" "\<And>n. n < 256 \<Longrightarrow> imap (fs_disk s') (f n) = imap (fs_disk s) (f n)"
    "\<And>n k. n < 256 \<Longrightarrow> file_byte (fs_disk s') (f n) k = file_byte (fs_disk s) (f n) k"
proof -
  have ok: "ino_ok s (f n)" if "n < 256" for n using assms(1) that by (simp add: inv_def)
  have data: "fs_disk s' x = fs_disk s x" if "in_data x" for x using assms(4) in_data_facts(3) [OF that] by simp
  have ind: "fs_disk s' (i_indirect (f n)) = fs_disk s (i_indirect (f n))" if "n < 256" "i_indirect (f n) \<noteq> 0" for n
    using data indirect_in_data [OF ok] that by simp
  have blocks: "ino_blocks (fs_disk s') (f n) = ino_blocks (fs_disk s) (f n)" if "n < 256" for n
    using ind that by (intro ino_blocks_cong)
  have u: "used s' = used s" using assms(2) by (simp add: used_def fun_eq_iff)
  have "coherent s'" using assms(1,2,4) bitmap_sector
    unfolding inv_def coherent_def meta_def by metis
  then show "inv s' f" using assms(1,3) blocks unfolding inv_def ino_ok_def u by simp
  show im: "imap (fs_disk s') (f n) = imap (fs_disk s) (f n)" if "n < 256" for n
    using ind that by (intro imap_cong)
  show "file_byte (fs_disk s') (f n) k = file_byte (fs_disk s) (f n) k" if "n < 256" for n k
  proof (cases "imap (fs_disk s) (f n) (k div 512) = 0")
    case False
    then have "k div 512 < 138" by (auto simp: imap_def split: if_splits)
    then have "in_data (imap (fs_disk s) (f n) (k div 512))" using imap_in_data [OF ok [OF that]] False by simp
    then show ?thesis using data by (simp add: file_byte_def im [OF that] Let_def)
  qed (simp add: file_byte_def im [OF that])
qed

lemma write_inode_commit:
  assumes "unat n < 256" "inv s ((inode_at (fs_disk s))(unat n := ino))"
  obtains s' where "write_inode s n ino = (0, s')" "fs_inv s'"
    "\<And>m. m < 256 \<Longrightarrow> inode_at (fs_disk s') m = (if m = unat n then ino else inode_at (fs_disk s) m)"
    "\<And>m k. m < 256 \<Longrightarrow> file_byte (fs_disk s') (inode_at (fs_disk s') m) k =
       file_byte (fs_disk s) (((inode_at (fs_disk s))(unat n := ino)) m) k"
    "bitmap_buffer s' = bitmap_buffer s" "open_files s' = open_files s" "fd_tables s' = fd_tables s"
proof -
  let ?f = "(inode_at (fs_disk s))(unat n := ino)" and ?x = "6 + of_nat (unat n div 8) :: u32"
  obtain b where w: "write_inode s n ino = (0, s\<lparr>block_buffer := b, fs_disk := (fs_disk s)(?x :=
      copy_bytes (fs_disk s ?x) (unat n mod 8 * 64) (inode_bytes ino))\<rparr>)"
    using write_inode_ok [OF assms(1)] by blast
  define s' where "s' = s\<lparr>block_buffer := b, fs_disk := (fs_disk s)(?x :=
      copy_bytes (fs_disk s ?x) (unat n mod 8 * 64) (inode_bytes ino))\<rparr>"
  have ok: "disk_ok (fs_disk s)" "ino_shape ino" using assms by (auto simp: inv_def ino_ok_def)
  have at: "inode_at (fs_disk s') m = ?f m" if "m < 256" for m
    using inode_at_write [OF assms(1) that ok] by (simp add: s'_def)
  have "unat n mod 8 * 64 + 64 \<le> 512" using mod_less_divisor [of 8 "unat n"] by linarith
  then have d: "disk_ok (fs_disk s')" using ok by (simp add: disk_ok_def s'_def)
  have same: "fs_disk s' x = fs_disk s x" if "\<not> meta x" for x
    using that meta_inode_sector [OF assms(1)] by (auto simp: s'_def)
  have bb: "bitmap_buffer s' = bitmap_buffer s" by (simp add: s'_def)
  have inv': "inv s' ?f" by (rule inv_meta(1) [OF assms(2) bb d]) (rule same)
  have bytes: "file_byte (fs_disk s') (?f i) k = file_byte (fs_disk s) (?f i) k" if "i < 256" for i k
    by (rule inv_meta(3) [OF assms(2) bb d]) (use same that in auto)
  show ?thesis
  proof (rule that [of s'])
    show "write_inode s n ino = (0, s')" using w by (simp add: s'_def)
    show "fs_inv s'" unfolding fs_inv_def by (rule inv_cong [OF inv']) (simp_all add: at)
    show "inode_at (fs_disk s') i = (if i = unat n then ino else inode_at (fs_disk s) i)" if "i < 256" for i
      using at [OF that] by simp
    show "file_byte (fs_disk s') (inode_at (fs_disk s') i) k = file_byte (fs_disk s) (?f i) k" if "i < 256" for i k
      using bytes [OF that] at [OF that] by simp
  qed (simp_all add: s'_def)
qed

section \<open>Writing a file\<close>

lemma fs_inv_ino: "fs_inv s \<Longrightarrow> n < 256 \<Longrightarrow> ino_ok s (inode_at (fs_disk s) n)"
  by (simp add: fs_inv_def inv_def)

lemma fs_invD: "fs_inv s \<Longrightarrow> coherent s \<and> disk_ok (fs_disk s)"
  by (simp add: fs_inv_def inv_def)

lemma fs_inv_buffer [simp]: "fs_inv (s\<lparr>block_buffer := b\<rparr>) = fs_inv s" "fs_inv (s\<lparr>indirect_buffer := b\<rparr>) = fs_inv s"
  by (simp_all add: fs_inv_def)

text \<open>The size of a file is no part of its block structure.\<close>

lemma size_irrelevant [simp]:
  "ino_ok s (ino\<lparr>i_size := z\<rparr>) = ino_ok s ino" "ino_blocks d (ino\<lparr>i_size := z\<rparr>) = ino_blocks d ino"
  "imap d (ino\<lparr>i_size := z\<rparr>) = imap d ino" "file_byte d (ino\<lparr>i_size := z\<rparr>) = file_byte d ino"
  "file_step s i s' (ino\<lparr>i_size := z\<rparr>) = file_step s i s' ino"
proof -
  show b: "ino_blocks d (ino\<lparr>i_size := z\<rparr>) = ino_blocks d ino" for d by (simp add: ino_blocks_def)
  show o: "ino_ok s (ino\<lparr>i_size := z\<rparr>) = ino_ok s ino" for s by (simp add: ino_ok_def b ino_shape_def)
  show i: "imap d (ino\<lparr>i_size := z\<rparr>) = imap d ino" by (simp add: imap_def fun_eq_iff)
  then show "file_byte d (ino\<lparr>i_size := z\<rparr>) = file_byte d ino" by (simp add: file_byte_def fun_eq_iff)
  show "file_step s i s' (ino\<lparr>i_size := z\<rparr>) = file_step s i s' ino" by (simp add: file_step_def b o)
qed

text \<open>After a step on file \<open>n\<close> the other files are as before.\<close>

lemma step_others:
  assumes "fs_inv s" "n < 256" "file_step s (inode_at (fs_disk s) n) s' ino'" "m < 256" "m \<noteq> n"
  shows "file_byte (fs_disk s') (inode_at (fs_disk s) m) k = file_byte (fs_disk s) (inode_at (fs_disk s) m) k"
proof -
  let ?m = "inode_at (fs_disk s) m"
  have "set (ino_blocks (fs_disk s) ?m) \<inter> set (ino_blocks (fs_disk s) (inode_at (fs_disk s) n)) = {}"
    using assms(1,2,4,5) by (simp add: fs_inv_def inv_def)
  moreover have "keeps s (set (ino_blocks (fs_disk s) (inode_at (fs_disk s) n))) s'"
    using assms(3) by (simp add: file_step_def)
  ultimately have k: "fs_disk s' x = fs_disk s x" if "x \<in> set (ino_blocks (fs_disk s) ?m)" for x
    using keeps_ino(3) [OF fs_inv_ino [OF assms(1,4)]] that by blast
  have im: "imap (fs_disk s') ?m = imap (fs_disk s) ?m" using k indirect_in_blocks by (intro imap_cong) blast
  show ?thesis
  proof (cases "imap (fs_disk s) ?m (k div 512) = 0")
    case False
    then have "k div 512 < 138" by (auto simp: imap_def split: if_splits)
    then have "imap (fs_disk s) ?m (k div 512) \<in> set (ino_blocks (fs_disk s) ?m)"
      using imap_in_blocks False fs_inv_ino [OF assms(1,4)] by (simp add: ino_ok_def)
    then show ?thesis using k by (simp add: file_byte_def im Let_def)
  qed (simp add: file_byte_def im)
qed

lemma inv_file_step:
  assumes "fs_inv s" "n < 256" "file_step s (inode_at (fs_disk s) n) s' ino'"
  shows "inv s' ((inode_at (fs_disk s'))(n := ino'))"
proof (rule inv_cong)
  show "inv s' ((inode_at (fs_disk s))(n := ino'))" using inv_step assms by (simp add: fs_inv_def)
  have "frame s s'" using assms(3) by (simp add: file_step_def)
  then show "((inode_at (fs_disk s))(n := ino')) i = ((inode_at (fs_disk s'))(n := ino')) i" if "i < 256" for i
    using inode_at_frame that by simp
qed

lemma write_at_spec:
  assumes "fs_inv s" "unat n < 256" "is_kind (inode_at (fs_disk s) (unat n)) 1"
    "unat offset < 65536" "min (unat len) (65536 - unat offset) \<le> length source"
  obtains r s' where "write_at s n offset source len = (int r, s')" "r \<le> min (unat len) (65536 - unat offset)"
    "fs_inv s'" "r < min (unat len) (65536 - unat offset) \<Longrightarrow> no_free_block s'"
    "unat (i_size (inode_at (fs_disk s') (unat n))) = max (unat (i_size (inode_at (fs_disk s) (unat n)))) (unat offset + r)"
    "i_mode (inode_at (fs_disk s') (unat n)) = i_mode (inode_at (fs_disk s) (unat n))"
    "wrote (fs_disk s) (inode_at (fs_disk s) (unat n)) (fs_disk s') (inode_at (fs_disk s') (unat n)) (unat offset) (take r source)"
    "\<And>m. m < 256 \<Longrightarrow> m \<noteq> unat n \<Longrightarrow> inode_at (fs_disk s') m = inode_at (fs_disk s) m"
    "\<And>m k. m < 256 \<Longrightarrow> m \<noteq> unat n \<Longrightarrow> file_byte (fs_disk s') (inode_at (fs_disk s') m) k = file_byte (fs_disk s) (inode_at (fs_disk s) m) k"
    "open_files s' = open_files s" "fd_tables s' = fd_tables s"
proof -
  let ?ino = "inode_at (fs_disk s) (unat n)" and ?len = "min (unat len) (65536 - unat offset)"
  obtain b where rd: "read_inode s n = ((0, ?ino), s\<lparr>block_buffer := b\<rparr>)" using read_inode_ok [OF assms(2)] by blast
  define s0 where "s0 = s\<lparr>block_buffer := b\<rparr>"
  have ok: "ino_ok s0 ?ino" "coherent s0" "disk_ok (fs_disk s0)"
    using fs_inv_ino [OF assms(1,2)] fs_invD [OF assms(1)] by (simp_all add: s0_def)
  have "unat offset + (?len - 0) \<le> 65536" using assms(4) by simp
  then obtain s1 ino1 r where w: "write_loop s0 ?ino (unat offset) 0 ?len source = (Some (ino1, unat offset + r, r), s1)"
    "r \<le> ?len" "file_step s0 ?ino s1 ino1" "attrs ino1 = attrs ?ino"
    "wrote (fs_disk s0) ?ino (fs_disk s1) ino1 (unat offset) (bytes_at source 0 r)" "r < ?len \<longrightarrow> no_free_block s1"
    using write_loop_spec [OF ok, of 0 ?len source "unat offset"] assms(5) by auto
  define ino2 where "ino2 = (if unat offset + r > unat (i_size ino1) then ino1\<lparr>i_size := of_nat (unat offset + r)\<rparr> else ino1)"
  have st: "file_step s ?ino s1 ino2" using w(3) by (simp add: s0_def ino2_def)
  have "inv s1 ((inode_at (fs_disk s1))(unat n := ino2))" by (rule inv_file_step [OF assms(1,2) st])
  then obtain s' where c: "write_inode s1 n ino2 = (0, s')" "fs_inv s'"
    "\<And>m. m < 256 \<Longrightarrow> inode_at (fs_disk s') m = (if m = unat n then ino2 else inode_at (fs_disk s1) m)"
    "\<And>m k. m < 256 \<Longrightarrow> file_byte (fs_disk s') (inode_at (fs_disk s') m) k =
       file_byte (fs_disk s1) (((inode_at (fs_disk s1))(unat n := ino2)) m) k"
    "bitmap_buffer s' = bitmap_buffer s1" "open_files s' = open_files s1" "fd_tables s' = fd_tables s1"
    using write_inode_commit [OF assms(2)] by metis
  have fr: "frame s s1" using st by (simp add: file_step_def)
  note at = inode_at_frame [OF fr]
  have sz: "unat offset + r < 2 ^ 32" using w(2) assms(4) by (simp add: min_def split: if_splits)
  show ?thesis
  proof (rule that [of r s'])
    show "write_at s n offset source len = (int r, s')"
      using assms(3,4) rd w(1) c(1) by (simp add: write_at_def s0_def [symmetric] ino2_def [symmetric])
    show "r \<le> ?len" "fs_inv s'" by (fact w(2), fact c(2))
    show "no_free_block s'" if "r < ?len" using w(6) that c(5) by (simp add: no_free_block_def used_def)
    show "unat (i_size (inode_at (fs_disk s') (unat n))) = max (unat (i_size ?ino)) (unat offset + r)"
      using c(3) [OF assms(2)] w(4) unat_of_nat_u32 [OF sz] by (auto simp: ino2_def attrs_def)
    show "i_mode (inode_at (fs_disk s') (unat n)) = i_mode ?ino"
      using c(3) [OF assms(2)] w(4) by (simp add: ino2_def attrs_def)
    have "file_byte (fs_disk s') (inode_at (fs_disk s') (unat n)) = file_byte (fs_disk s1) ino1"
      using c(4) [OF assms(2)] by (auto simp: fun_eq_iff ino2_def)
    then show "wrote (fs_disk s) ?ino (fs_disk s') (inode_at (fs_disk s') (unat n)) (unat offset) (take r source)"
      using w(5) by (simp add: wrote_def s0_def bytes_at_def)
    show "inode_at (fs_disk s') m = inode_at (fs_disk s) m" if "m < 256" "m \<noteq> unat n" for m
      using c(3) [OF that(1)] that at by simp
    show "file_byte (fs_disk s') (inode_at (fs_disk s') m) k = file_byte (fs_disk s) (inode_at (fs_disk s) m) k"
      if "m < 256" "m \<noteq> unat n" for m k
      using c(4) [OF that(1)] that at step_others [OF assms(1,2) st that] by simp
    show "open_files s' = open_files s" "fd_tables s' = fd_tables s" using c(6,7) fr by (simp_all add: frame_def)
  qed
qed

section \<open>Reading a file\<close>

lemma copy_bytes_nil [simp]: "copy_bytes buf 0 [] = buf"
  by (simp add: copy_bytes_def)

lemma minifs_pread_spec:
  fixes s :: fs and n len offset :: u32 and buf :: "u8 list"
  assumes "fs_inv s" "unat n < 256" "is_kind (inode_at (fs_disk s) (unat n)) 1"
  defines "ino \<equiv> inode_at (fs_disk s) (unat n)"
  defines "len' \<equiv> min (unat len) (unat (i_size ino) - unat offset)"
  assumes "len' \<le> length buf"
    "\<And>k. unat offset \<le> k \<Longrightarrow> k < unat offset + len' \<Longrightarrow> file_byte (fs_disk s) ino k \<noteq> None"
  shows "\<exists>b. minifs_pread s n offset (Some buf) len =
    ((int len', Some (copy_bytes buf 0 (file_bytes (fs_disk s) ino (unat offset) len'))), s\<lparr>block_buffer := b\<rparr>)"
proof -
  obtain b where rd: "read_inode s n = ((0, ino), s\<lparr>block_buffer := b\<rparr>)"
    using read_inode_ok [OF assms(2)] unfolding ino_def by blast
  define s0 where "s0 = s\<lparr>block_buffer := b\<rparr>"
  have kind: "is_kind ino 1" using assms(3) by (simp add: ino_def)
  show ?thesis
  proof (cases "offset \<ge> i_size ino")
    case True
    then have "len' = 0" by (simp add: len'_def word_le_nat_alt)
    then show ?thesis using True rd kind by (auto simp: minifs_pread_def file_bytes_def)
  next
    case False
    define l where "l = (if len > i_size ino - offset then i_size ino - offset else len)"
    have l: "unat l = len'"
      using False by (auto simp: l_def len'_def word_less_nat_alt word_le_nat_alt unat_sub)
    have ok: "ino_ok s0 ino" "disk_ok (fs_disk s0)"
      using fs_inv_ino [OF assms(1,2)] fs_invD [OF assms(1)] by (simp_all add: s0_def ino_def)
    obtain c where "pread_loop s0 ino (unat offset) 0 len' buf =
        ((int len', copy_bytes buf 0 (file_bytes (fs_disk s0) ino (unat offset) len')), s0\<lparr>block_buffer := c\<rparr>)"
      using pread_loop_spec [OF ok, of 0 len' buf "unat offset"] assms(6,7) by (auto simp: s0_def)
    then have "minifs_pread s n offset (Some buf) len =
        ((int len', Some (copy_bytes buf 0 (file_bytes (fs_disk s0) ino (unat offset) len'))), s0\<lparr>block_buffer := c\<rparr>)"
      using False rd kind l by (simp add: minifs_pread_def s0_def [symmetric] l_def [symmetric] Let_def)
    then show ?thesis by (auto simp: s0_def)
  qed
qed

text \<open>A file system with one empty file, inode 1.\<close>

definition one_file_fs :: fs where
  "one_file_fs = \<lparr>fs_disk = (\<lambda>_. replicate 512 0)(6 := copy_bytes (replicate 512 0) 64 (inode_bytes (zero_inode\<lparr>i_mode := 1\<rparr>))),
     open_files = replicate 64 empty_ofd, fd_tables = replicate 16 empty_fds,
     block_buffer = replicate 512 0, indirect_buffer = replicate 512 0, bitmap_buffer = replicate 2048 0\<rparr>"

lemma bytes_at_zeros: "off + n \<le> m \<Longrightarrow> bytes_at (replicate m 0) off n = replicate n 0"
  by (rule nth_equalityI) (simp_all add: nth_bytes_at)

lemma zero_disk_inode:
  assumes "n < 256"
  shows "inode_at (\<lambda>_. replicate 512 0) n = zero_inode"
proof -
  have "n mod 8 * 64 + 64 \<le> 512" using mod_less_divisor [of 8 n] by linarith
  moreover have "map (\<lambda>k. get32 (replicate 64 0) (16 + 4 * k)) [0..<10] = replicate 10 0"
    by (rule nth_equalityI) (simp_all add: get32_zeros)
  ultimately show ?thesis
    by (simp add: inode_at_def bytes_at_zeros inode_of_def zero_inode_def get32_zeros)
qed

lemma one_file_inode:
  assumes "n < 256"
  shows "inode_at (fs_disk one_file_fs) n = (if n = 1 then zero_inode\<lparr>i_mode := 1\<rparr> else zero_inode)"
  using inode_at_write [of 1 n "\<lambda>_. replicate 512 0" "zero_inode\<lparr>i_mode := 1\<rparr>"] assms zero_disk_inode [OF assms]
  by (simp add: one_file_fs_def disk_ok_def ino_shape_def zero_inode_def)

lemma one_file_inv: "fs_inv one_file_fs"
proof -
  have nb: "ino_blocks d (inode_at (fs_disk one_file_fs) n) = []" if "n < 256" for d n
    using one_file_inode [OF that] by (simp add: ino_blocks_def zero_inode_def)
  have len: "length (inode_bytes (zero_inode\<lparr>i_mode := 1\<rparr>)) = 64"
    by (rule length_inode_bytes) (simp add: ino_shape_def zero_inode_def)
  have "fs_disk one_file_fs (2 + of_nat k) = replicate 512 0" if "k < 4" for k
    using bitmap_sector [OF that] by (auto simp: one_file_fs_def)
  then have "coherent one_file_fs" unfolding coherent_def by (simp add: bytes_at_zeros) (simp add: one_file_fs_def bytes_at_zeros)
  moreover have "disk_ok (fs_disk one_file_fs)" using len by (simp add: disk_ok_def one_file_fs_def)
  ultimately show ?thesis
    using nb by (simp add: fs_inv_def inv_def ino_ok_def one_file_inode) (simp add: ino_shape_def zero_inode_def)
qed

text \<open>
  C10. What is written to a file is read back.  From any state of the file system that satisfies
  the invariant, writing bytes at an offset of a regular file (within the 64 KiB limit) succeeds
  for a prefix of the data, all of it unless no free block is left; the invariant holds
  afterwards, and reading at the same offset returns exactly the prefix written.
\<close>

theorem write_then_read:
  assumes "fs_inv s" "unat n < 256" "is_kind (inode_at (fs_disk s) (unat n)) 1"
    "data \<noteq> []" "unat offset + length data \<le> 65536"
  shows "\<exists>r s'. write_at s n offset data (of_nat (length data)) = (int r, s') \<and> r \<le> length data \<and>
    (r < length data \<longrightarrow> no_free_block s') \<and> fs_inv s' \<and>
    (\<forall>buf. r \<le> length buf \<longrightarrow> (\<exists>b. minifs_pread s' n offset (Some buf) (of_nat r) =
       ((int r, Some (copy_bytes buf 0 (take r data))), s'\<lparr>block_buffer := b\<rparr>)))"
proof -
  have dl: "0 < length data" using assms(4) by simp
  have l: "unat (of_nat (length data) :: u32) = length data" using assms(5) by (intro unat_of_nat_u32) simp
  have off: "unat offset < 65536" using assms(5) dl by linarith
  have le: "min (unat (of_nat (length data) :: u32)) (65536 - unat offset) = length data" using assms(5) l by simp
  obtain r s' where w: "write_at s n offset data (of_nat (length data)) = (int r, s')" "r \<le> length data" "fs_inv s'"
    "r < length data \<Longrightarrow> no_free_block s'"
    "unat (i_size (inode_at (fs_disk s') (unat n))) = max (unat (i_size (inode_at (fs_disk s) (unat n)))) (unat offset + r)"
    "i_mode (inode_at (fs_disk s') (unat n)) = i_mode (inode_at (fs_disk s) (unat n))"
    "wrote (fs_disk s) (inode_at (fs_disk s) (unat n)) (fs_disk s') (inode_at (fs_disk s') (unat n)) (unat offset) (take r data)"
    by (rule write_at_spec [OF assms(1-3) off, of "of_nat (length data)" data, unfolded le, OF order_refl])
      (rule that)
  let ?ino = "inode_at (fs_disk s') (unat n)"
  have byte: "file_byte (fs_disk s') ?ino k = Some (data ! (k - unat offset))" if "unat offset \<le> k" "k < unat offset + r" for k
    using w(7) that w(2) unfolding wrote_def by (auto simp: min_def dest: spec [of _ k])
  have "file_bytes (fs_disk s') ?ino (unat offset) r = take r data"
    by (rule nth_equalityI) (use w(2) byte in \<open>auto simp: file_bytes_def\<close>)
  moreover have "min (unat (of_nat r :: u32)) (unat (i_size ?ino) - unat offset) = r"
    using w(2,5) l assms(5) unat_of_nat_u32 [of r] by simp
  ultimately have "\<exists>b. minifs_pread s' n offset (Some buf) (of_nat r) =
       ((int r, Some (copy_bytes buf 0 (take r data))), s'\<lparr>block_buffer := b\<rparr>)" if "r \<le> length buf" for buf
    using minifs_pread_spec [OF w(3) assms(2), of "of_nat r" offset buf] assms(3) w(6) byte that by (simp add: is_kind_def)
  with w(1-4) show ?thesis by blast
qed

theorem write_then_read_witness:
  "\<exists>r s'. write_at one_file_fs 1 0 [1, 2, 3] 3 = (int r, s') \<and> r \<le> 3 \<and> fs_inv s' \<and>
    (\<exists>b. minifs_pread s' 1 0 (Some (replicate 8 0)) (of_nat r) =
       ((int r, Some (copy_bytes (replicate 8 0) 0 (take r [1, 2, 3]))), s'\<lparr>block_buffer := b\<rparr>))"
proof -
  have "is_kind (inode_at (fs_disk one_file_fs) (unat (1 :: u32))) 1" by (simp add: one_file_inode is_kind_def)
  from write_then_read [OF one_file_inv _ this, of "[1, 2, 3]" 0] show ?thesis by fastforce
qed

end
