(* ===== verification/Fs_Refs.thy ===== *)
theory Fs_Refs
  imports Fs_Fd
begin

text \<open>
  Reference counts of open files.  The invariant: an open file is in use exactly when some
  descriptor of some live process refers to it, and its count is the number of these
  descriptors.  Inside an operation the count may be off by a known amount \<open>e\<close>.
\<close>

section \<open>Counting descriptors\<close>

definition held :: "process_fds \<Rightarrow> nat \<Rightarrow> nat" where
  "held t i = (if pf_used t then count_list (pf_fd t) (int i) else 0)"

definition refs :: "fs \<Rightarrow> nat \<Rightarrow> nat" where
  "refs s i = sum_list (map (\<lambda>t. held t i) (fd_tables s))"

definition tables_ok :: "fs \<Rightarrow> bool" where
  "tables_ok s \<longleftrightarrow> length (open_files s) = 64 \<and> length (fd_tables s) = 16 \<and>
     (\<forall>p < 16. length (pf_fd (fd_tables s ! p)) = 16 \<and>
        (\<forall>fd < 16. pf_used (fd_tables s ! p) \<longrightarrow> fd_of s p fd < 64))"

definition refs_ok :: "fs \<Rightarrow> (nat \<Rightarrow> int) \<Rightarrow> bool" where
  "refs_ok s e \<longleftrightarrow> tables_ok s \<and>
     (\<forall>i < 64. 0 \<le> int (refs s i) + e i \<and>
        (of_used (open_files s ! i) \<longleftrightarrow> 0 < int (refs s i) + e i) \<and>
        (of_used (open_files s ! i) \<longrightarrow> of_refs (open_files s ! i) = int (refs s i) + e i))"

lemma count_list_update:
  "k < length xs \<Longrightarrow> count_list (xs[k := v]) y + of_bool (xs ! k = y) = count_list xs y + of_bool (v = y)"
proof (induction xs arbitrary: k)
  case (Cons x xs)
  then show ?case
  proof (cases k)
    case (Suc j)
    then have "count_list (xs[j := v]) y + of_bool (xs ! j = y) = count_list xs y + of_bool (v = y)"
      using Cons by simp
    with Suc show ?thesis by simp
  qed simp
qed simp

lemma count_list_nth: "k < length xs \<Longrightarrow> 0 < count_list xs (xs ! k)"
  by (metis count_list_0_iff gr0I nth_mem)

lemma nth_le_sum_list: "p < length xs \<Longrightarrow> (xs ! p :: nat) \<le> sum_list xs"
  by (simp add: member_le_sum_list)

lemma refs_set_proc:
  assumes "tables_ok s" "p < 16"
  shows "refs (set_proc s p f) i + held (fd_tables s ! p) i = refs s i + held (f (fd_tables s ! p)) i"
proof -
  have len: "length (fd_tables s) = 16" using assms(1) by (simp add: tables_ok_def)
  have le: "held (fd_tables s ! p) i \<le> refs s i"
    using nth_le_sum_list [of p "map (\<lambda>t. held t i) (fd_tables s)"] assms len by (simp add: refs_def)
  have "refs (set_proc s p f) i = refs s i + held (f (fd_tables s ! p)) i - held (fd_tables s ! p) i"
    using sum_list_update [of p "map (\<lambda>t. held t i) (fd_tables s)" "held (f (fd_tables s ! p)) i"] assms len
    by (simp add: refs_def set_proc_def map_update)
  with le show ?thesis by simp
qed

lemma refs_set_fd:
  assumes "tables_ok s" "p < 16" "fd < 16" "pf_used (fd_tables s ! p)"
  shows "refs (set_fd s p fd v) i + of_bool (fd_of s p fd = int i) = refs s i + of_bool (v = int i)"
proof -
  have "length (pf_fd (fd_tables s ! p)) = 16" using assms(1,2) by (simp add: tables_ok_def)
  then have "count_list ((pf_fd (fd_tables s ! p))[fd := v]) (int i) + of_bool (fd_of s p fd = int i)
      = count_list (pf_fd (fd_tables s ! p)) (int i) + of_bool (v = int i)"
    using count_list_update [of fd "pf_fd (fd_tables s ! p)" v "int i"] assms(3) by (simp add: fd_of_def)
  then show ?thesis
    using refs_set_proc [OF assms(1,2), of "\<lambda>t. t\<lparr>pf_fd := (pf_fd t)[fd := v]\<rparr>" i] assms(4)
    by (simp add: set_fd_def held_def)
qed

lemma fd_counted:
  assumes "tables_ok s" "p < 16" "fd < 16" "pf_used (fd_tables s ! p)" "fd_of s p fd = int i"
  shows "0 < refs s i"
proof -
  have "length (fd_tables s) = 16" "length (pf_fd (fd_tables s ! p)) = 16" using assms(1,2) by (simp_all add: tables_ok_def)
  then have "0 < held (fd_tables s ! p) i"
    using count_list_nth [of fd "pf_fd (fd_tables s ! p)"] assms by (simp add: held_def fd_of_def)
  moreover have "held (fd_tables s ! p) i \<le> refs s i"
    using nth_le_sum_list [of p "map (\<lambda>t. held t i) (fd_tables s)"] assms(2) \<open>length (fd_tables s) = 16\<close> by (simp add: refs_def)
  ultimately show ?thesis by simp
qed

section \<open>Tables after an update\<close>

lemma tables_set_ofd [simp]:
  "tables_ok (set_ofd s i f) = tables_ok s" "refs (set_ofd s i f) = refs s"
  "fd_tables (set_ofd s i f) = fd_tables s" "fd_of (set_ofd s i f) = fd_of s"
  "find_process (set_ofd s i f) = find_process s"
  by (auto simp: set_ofd_def tables_ok_def refs_def fd_of_def find_process_def fun_eq_iff)

lemma open_files_set [simp]:
  "open_files (set_proc s p f) = open_files s" "open_files (set_fd s p fd v) = open_files s"
  "open_files (clear_cloexec s p fd) = open_files s" "open_files (mark_cloexec s p fd) = open_files s"
  by (simp_all add: set_proc_def set_fd_def clear_cloexec_def mark_cloexec_def)

lemma nth_set_ofd: "length (open_files s) = 64 \<Longrightarrow> i < 64 \<Longrightarrow>
    open_files (set_ofd s i f) ! j = (if j = i then f (open_files s ! i) else open_files s ! j)"
  by (simp add: set_ofd_def nth_list_update)

lemma nth_set_proc: "length (fd_tables s) = 16 \<Longrightarrow> p < 16 \<Longrightarrow>
    fd_tables (set_proc s p f) ! q = (if q = p then f (fd_tables s ! p) else fd_tables s ! q)"
  by (simp add: set_proc_def nth_list_update)

lemma length_set_proc [simp]: "length (fd_tables (set_proc s p f)) = length (fd_tables s)"
  by (simp add: set_proc_def)

lemma tables_okD:
  assumes "tables_ok s"
  shows "length (open_files s) = 64" "length (fd_tables s) = 16" "p < 16 \<Longrightarrow> length (pf_fd (fd_tables s ! p)) = 16"
    "p < 16 \<Longrightarrow> fd < 16 \<Longrightarrow> pf_used (fd_tables s ! p) \<Longrightarrow> fd_of s p fd < 64"
  using assms by (simp_all add: tables_ok_def)

lemma fd_of_set_fd:
  assumes "tables_ok s" "p < 16" "fd < 16"
  shows "fd_of (set_fd s p fd v) q k = (if q = p \<and> k = fd then v else fd_of s q k)"
  using tables_okD(2,3) [OF assms(1)] assms by (simp add: fd_of_def set_fd_def nth_set_proc nth_list_update)

lemma pf_used_set_fd:
  assumes "tables_ok s" "p < 16"
  shows "pf_used (fd_tables (set_fd s p fd v) ! q) = pf_used (fd_tables s ! q)"
  using tables_okD(2) [OF assms(1)] assms by (simp add: set_fd_def nth_set_proc)

lemma tables_set_fd:
  assumes "tables_ok s" "p < 16" "fd < 16" "v < 64"
  shows "tables_ok (set_fd s p fd v)"
  unfolding tables_ok_def
  using tables_okD [OF assms(1)] fd_of_set_fd [OF assms(1-3)] pf_used_set_fd [OF assms(1,2)] assms
  by (auto simp: set_fd_def nth_set_proc)

lemma held_cloexec: "held (t\<lparr>pf_cloexec := c\<rparr>) = held t"
  by (cases t) (simp add: held_def fun_eq_iff)

lemma cloexec_irrelevant:
  assumes "tables_ok s" "p < 16"
  shows "tables_ok (set_proc s p (\<lambda>t. t\<lparr>pf_cloexec := g t\<rparr>))" "refs (set_proc s p (\<lambda>t. t\<lparr>pf_cloexec := g t\<rparr>)) = refs s"
    "fd_of (set_proc s p (\<lambda>t. t\<lparr>pf_cloexec := g t\<rparr>)) = fd_of s"
    "pf_used (fd_tables (set_proc s p (\<lambda>t. t\<lparr>pf_cloexec := g t\<rparr>)) ! q) = pf_used (fd_tables s ! q)"
    "pf_pid (fd_tables (set_proc s p (\<lambda>t. t\<lparr>pf_cloexec := g t\<rparr>)) ! q) = pf_pid (fd_tables s ! q)"
proof -
  note t = tables_okD [OF assms(1)]
  show fd: "fd_of (set_proc s p (\<lambda>t. t\<lparr>pf_cloexec := g t\<rparr>)) = fd_of s"
    using t(2) assms(2) by (auto simp: fun_eq_iff fd_of_def nth_set_proc)
  show "tables_ok (set_proc s p (\<lambda>t. t\<lparr>pf_cloexec := g t\<rparr>))"
    unfolding tables_ok_def fd using t assms(2) by (auto simp: nth_set_proc)
  show "refs (set_proc s p (\<lambda>t. t\<lparr>pf_cloexec := g t\<rparr>)) = refs s"
    using refs_set_proc [OF assms, of "\<lambda>t. t\<lparr>pf_cloexec := g t\<rparr>"] by (simp add: fun_eq_iff held_cloexec)
  show "pf_used (fd_tables (set_proc s p (\<lambda>t. t\<lparr>pf_cloexec := g t\<rparr>)) ! q) = pf_used (fd_tables s ! q)"
    "pf_pid (fd_tables (set_proc s p (\<lambda>t. t\<lparr>pf_cloexec := g t\<rparr>)) ! q) = pf_pid (fd_tables s ! q)"
    using t(2) assms(2) by (simp_all add: nth_set_proc)
qed

lemma refs_ok_cloexec:
  "refs_ok s e \<Longrightarrow> p < 16 \<Longrightarrow> refs_ok (set_proc s p (\<lambda>t. t\<lparr>pf_cloexec := g t\<rparr>)) e"
  using cloexec_irrelevant [of s p g] by (simp add: refs_ok_def)

section \<open>Steps\<close>

lemma refs_okD:
  assumes "refs_ok s e" "i < 64"
  shows "0 \<le> int (refs s i) + e i" "of_used (open_files s ! i) \<longleftrightarrow> 0 < int (refs s i) + e i"
    "of_used (open_files s ! i) \<Longrightarrow> of_refs (open_files s ! i) = int (refs s i) + e i"
  using assms by (simp_all add: refs_ok_def)

lemma refs_ok_tables: "refs_ok s e \<Longrightarrow> tables_ok s"
  by (simp add: refs_ok_def)

lemma refs_ok_cong: "refs_ok s e \<Longrightarrow> (\<And>i. i < 64 \<Longrightarrow> e i = e' i) \<Longrightarrow> refs_ok s e'"
  by (simp add: refs_ok_def)

lemma put_ofd_step:
  assumes "refs_ok s e" "i < 64" "0 < int (refs s i) + e i"
  shows "refs_ok (put_ofd s (int i)) (e(i := e i - 1))" "fd_tables (put_ofd s (int i)) = fd_tables s"
proof -
  note t = tables_okD(1) [OF refs_ok_tables [OF assms(1)]]
  have u: "of_used (open_files s ! i)" "of_refs (open_files s ! i) = int (refs s i) + e i"
    using refs_okD [OF assms(1,2)] assms(3) by simp_all
  let ?s1 = "set_ofd s i (\<lambda>f. f\<lparr>of_refs := of_refs f - 1\<rparr>)"
  have t1: "length (open_files ?s1) = 64" using t by (simp add: set_ofd_def)
  have eq: "put_ofd s (int i) = (if of_refs (open_files s ! i) = 1 then set_ofd ?s1 i (\<lambda>f. f\<lparr>of_used := False\<rparr>) else ?s1)"
    using assms(2) u(1) t by (simp add: put_ofd_def nth_set_ofd)
  show "fd_tables (put_ofd s (int i)) = fd_tables s" by (simp add: eq)
  show "refs_ok (put_ofd s (int i)) (e(i := e i - 1))"
    using assms u t t1 unfolding eq refs_ok_def
    by (auto simp: nth_set_ofd)
qed

lemma get_ofd_step:
  assumes "refs_ok s e" "i < 64" "0 < int (refs s i) + e i"
  shows "refs_ok (get_ofd s (int i)) (e(i := e i + 1))" "fd_tables (get_ofd s (int i)) = fd_tables s"
  using assms refs_okD [OF assms(1,2)] tables_okD(1) [OF refs_ok_tables [OF assms(1)]]
  by (auto simp: refs_ok_def get_ofd_def nth_set_ofd)

lemma set_fd_step:
  assumes "refs_ok s e" "p < 16" "fd < 16" "pf_used (fd_tables s ! p)" "v < 64"
    "\<And>i. e' i = e i + of_bool (fd_of s p fd = int i) - of_bool (v = int i)"
  shows "refs_ok (set_fd s p fd v) e'"
proof -
  note t = refs_ok_tables [OF assms(1)]
  have r: "int (refs (set_fd s p fd v) i) + e' i = int (refs s i) + e i" for i
    using refs_set_fd [OF t assms(2-4), of v i] assms(6) [of i] by (simp add: of_bool_def split: if_splits)
  show ?thesis using assms(1) tables_set_fd [OF t assms(2,3,5)] unfolding refs_ok_def by (simp add: r)
qed

lemma alloc_ofd_step:
  assumes "refs_ok s e"
  obtains (none) "alloc_ofd s ty fl ino = (-1, s)"
  | (slot) i s' where "alloc_ofd s ty fl ino = (int i, s')" "i < 64" "int (refs s i) + e i = 0"
      "refs_ok s' (e(i := e i + 1))" "fd_tables s' = fd_tables s"
proof (cases "first_index (\<lambda>i. \<not> of_used (open_files s ! i)) 64")
  case None
  then show ?thesis using none by (simp add: alloc_ofd_def)
next
  case (Some i)
  have i: "i < 64" "\<not> of_used (open_files s ! i)" using Some by (simp_all add: first_index_Some)
  let ?s = "set_ofd s i (\<lambda>_. \<lparr>of_used = True, of_refs = 1, of_type = ty, of_flags = fl, of_inode = ino, of_offset = 0\<rparr>)"
  have z: "int (refs s i) + e i = 0" using refs_okD [OF assms i(1)] i(2) by auto
  have "refs_ok ?s (e(i := e i + 1))"
    using assms z i(1) tables_okD(1) [OF refs_ok_tables [OF assms]] by (auto simp: refs_ok_def nth_set_ofd)
  then show ?thesis using slot [of i ?s] Some z i(1) by (simp add: alloc_ofd_def)
qed

lemma set_proc_step:
  assumes "refs_ok s e" "p < 16" "held (f (fd_tables s ! p)) = held (fd_tables s ! p)"
    "length (pf_fd (f (fd_tables s ! p))) = 16" "\<forall>v \<in> set (pf_fd (f (fd_tables s ! p))). v < 64"
  shows "refs_ok (set_proc s p f) e"
proof -
  note t = refs_ok_tables [OF assms(1)]
  have r: "refs (set_proc s p f) = refs s"
    using refs_set_proc [OF t assms(2), of f] assms(3) by (simp add: fun_eq_iff)
  have "tables_ok (set_proc s p f)"
    unfolding tables_ok_def using tables_okD [OF t] assms(2,4,5)
    by (auto simp: nth_set_proc fd_of_def)
  then show ?thesis using assms(1) by (simp add: refs_ok_def r)
qed

section \<open>Operations\<close>

abbreviation counted :: "fs \<Rightarrow> bool" where
  "counted s \<equiv> refs_ok s (\<lambda>_. 0)"

lemma find_processD: "find_process s pid = Some p \<Longrightarrow> p < 16 \<and> pf_used (fd_tables s ! p) \<and> pf_pid (fd_tables s ! p) = pid"
  by (simp add: find_process_def first_index_Some)

lemma fd_refers:
  assumes "counted s" "p < 16" "fd < 16" "pf_used (fd_tables s ! p)" "0 \<le> fd_of s p fd"
  obtains i where "fd_of s p fd = int i" "i < 64" "0 < refs s i" "of_used (open_files s ! i)"
proof -
  note t = refs_ok_tables [OF assms(1)]
  obtain i where i: "fd_of s p fd = int i" using assms(5) nonneg_int_cases by metis
  have "i < 64" using tables_okD(4) [OF t assms(2-4)] i by simp
  moreover have "0 < refs s i" by (rule fd_counted [OF t assms(2-4) i])
  ultimately show ?thesis using that i refs_okD(2) [OF assms(1)] by simp
qed

text \<open>Dropping a descriptor: the count first, then the entry.\<close>

lemma drop_fd:
  assumes "counted s" "p < 16" "fd < 16" "pf_used (fd_tables s ! p)" "v < 0"
  shows "counted (set_fd (if fd_of s p fd \<ge> 0 then put_ofd s (fd_of s p fd) else s) p fd v)"
proof (cases "fd_of s p fd \<ge> 0")
  case True
  then obtain i where i: "fd_of s p fd = int i" "i < 64" "0 < refs s i" using fd_refers [OF assms(1-4)] by metis
  note st = put_ofd_step [OF assms(1) i(2), simplified, OF i(3)]
  have "counted (set_fd (put_ofd s (int i)) p fd v)"
    by (rule set_fd_step [OF st(1)]) (use assms i(1) st(2) in \<open>auto simp: fd_of_def\<close>)
  then show ?thesis using True i(1) by simp
next
  case False
  then have "fd_of s p fd \<noteq> int i" for i by auto
  then have "counted (set_fd s p fd v)" by (intro set_fd_step [OF assms(1)]) (use assms in auto)
  then show ?thesis using False by simp
qed

definition same_procs :: "fs \<Rightarrow> fs \<Rightarrow> bool" where
  "same_procs s s' \<longleftrightarrow> (\<forall>q. pf_used (fd_tables s' ! q) = pf_used (fd_tables s ! q) \<and>
     pf_pid (fd_tables s' ! q) = pf_pid (fd_tables s ! q))"

lemma same_procs_refl [simp]: "same_procs s s"
  by (simp add: same_procs_def)

lemma same_procs_trans: "same_procs s s1 \<Longrightarrow> same_procs s1 s2 \<Longrightarrow> same_procs s s2"
  by (simp add: same_procs_def)

lemma same_procs_find: "same_procs s s' \<Longrightarrow> find_process s' pid = find_process s pid"
  by (simp add: same_procs_def find_process_def)

lemma put_ofd_tables [simp]: "fd_tables (put_ofd s v) = fd_tables s"
  by (simp add: put_ofd_def Let_def)

lemma get_ofd_tables [simp]: "fd_tables (get_ofd s v) = fd_tables s"
  by (simp add: get_ofd_def)

lemma tables_ok_put [simp]: "tables_ok (put_ofd s v) = tables_ok s"
  by (simp add: put_ofd_def Let_def)

lemma fd_of_put [simp]: "fd_of (put_ofd s v) = fd_of s" "fd_of (get_ofd s v) = fd_of s"
  by (auto simp: fd_of_def fun_eq_iff)

lemma set_fd_procs: "tables_ok s \<Longrightarrow> p < 16 \<Longrightarrow> same_procs s (set_fd s p fd v)"
  using tables_okD(2) by (simp add: same_procs_def set_fd_def nth_set_proc)

lemma close_fd_step:
  assumes "counted s" "p < 16" "fd < 16" "pf_used (fd_tables s ! p)"
  shows "counted (close_fd p fd s)" "same_procs s (close_fd p fd s)"
    "fd_of (close_fd p fd s) q k = (if q = p \<and> k = fd then -1 else fd_of s q k)"
proof -
  note t = refs_ok_tables [OF assms(1)]
  show "counted (close_fd p fd s)" using drop_fd [OF assms, of "-1"] by (simp add: close_fd_def)
  have "same_procs s (set_fd (put_ofd s v) p fd (-1))" for v
    using set_fd_procs [of "put_ofd s v" p fd "-1"] t assms(2) by (simp add: same_procs_def)
  then show "same_procs s (close_fd p fd s)"
    using set_fd_procs [OF t assms(2)] by (simp add: close_fd_def)
  show "fd_of (close_fd p fd s) q k = (if q = p \<and> k = fd then -1 else fd_of s q k)"
    using t assms(2,3) by (simp add: close_fd_def fd_of_set_fd)
qed

lemma clear_cloexec_step:
  assumes "counted s" "p < 16"
  shows "counted (clear_cloexec s p fd)" "counted (mark_cloexec s p fd)"
    "same_procs s (clear_cloexec s p fd)" "fd_of (clear_cloexec s p fd) = fd_of s"
  using refs_ok_cloexec [OF assms] cloexec_irrelevant [OF refs_ok_tables [OF assms(1)] assms(2)]
  by (simp_all add: clear_cloexec_def mark_cloexec_def same_procs_def)

lemma minifs_close_counted:
  assumes "counted s"
  shows "counted (snd (minifs_close s pid fd))"
proof (cases "find_process s pid")
  case (Some p)
  have "counted (clear_cloexec (set_fd (put_ofd s (fd_of s p (nat fd))) p (nat fd) (-1)) p (nat fd))"
    if "0 \<le> fd" "fd < 16" "0 \<le> fd_of s p (nat fd)"
    using drop_fd [OF assms, of p "nat fd" "-1"] find_processD [OF Some] that by (simp add: clear_cloexec_step(1))
  then show ?thesis using assms Some by (auto simp: minifs_close_def)
qed (use assms in \<open>simp add: minifs_close_def\<close>)

lemma minifs_set_cloexec_counted: "counted s \<Longrightarrow> counted (snd (minifs_set_cloexec s pid fd on))"
  using clear_cloexec_step(1,2) by (auto simp: minifs_set_cloexec_def split: option.splits dest!: find_processD)

lemma close_fds_step:
  assumes "counted s" "p < 16" "pf_used (fd_tables s ! p)" "n \<le> 16"
  shows "counted (for_each n (close_fd p) s) \<and> same_procs s (for_each n (close_fd p) s) \<and>
    (\<forall>fd < n. fd_of (for_each n (close_fd p) s) p fd = -1)"
  using assms(4)
proof (induction n)
  case (Suc n)
  let ?s = "for_each n (close_fd p) s"
  have ih: "counted ?s" "same_procs s ?s" "\<forall>fd < n. fd_of ?s p fd = -1" using Suc by auto
  then have "pf_used (fd_tables ?s ! p)" using assms(3) by (simp add: same_procs_def)
  then show ?case
    using close_fd_step [OF ih(1) assms(2), of n] ih same_procs_trans Suc.prems
    by (auto simp: for_each_Suc less_Suc_eq)
qed (use assms in simp)

lemma minifs_close_all_counted:
  assumes "counted s"
  shows "counted (minifs_close_all s pid)"
proof (cases "find_process s pid")
  case (Some p)
  let ?s = "for_each 16 (close_fd p) s"
  have p: "p < 16" "pf_used (fd_tables s ! p)" using find_processD [OF Some] by auto
  have st: "counted ?s" "same_procs s ?s" "\<forall>fd < 16. fd_of ?s p fd = -1"
    using close_fds_step [OF assms p, of 16] by simp_all
  have len: "length (pf_fd (fd_tables ?s ! p)) = 16" using tables_okD(3) [OF refs_ok_tables [OF st(1)] p(1)] .
  have "\<forall>v \<in> set (pf_fd (fd_tables ?s ! p)). v = -1" using st(3) len by (auto simp: in_set_conv_nth fd_of_def)
  then have "held (fd_tables ?s ! p) = (\<lambda>_. 0)" "\<forall>v \<in> set (pf_fd (fd_tables ?s ! p)). v < 64"
    by (fastforce simp: held_def fun_eq_iff count_list_0_iff)+
  then have "counted (set_proc ?s p (\<lambda>t. t\<lparr>pf_cloexec := 0, pf_used := False\<rparr>))"
    using len by (intro set_proc_step [OF st(1) p(1)]) (simp_all add: held_def fun_eq_iff)
  then show ?thesis using Some by (simp add: minifs_close_all_def)
qed (use assms in \<open>simp add: minifs_close_all_def\<close>)

lemma minifs_close_exec_fds_counted:
  assumes "counted s"
  shows "counted (minifs_close_exec_fds s pid)"
proof (cases "find_process s pid")
  case (Some p)
  have p: "p < 16" "pf_used (fd_tables s ! p)" using find_processD [OF Some] by auto
  have "counted (for_each n (close_exec_fd p) s) \<and> same_procs s (for_each n (close_exec_fd p) s)" if "n \<le> 16" for n
    using that
  proof (induction n)
    case (Suc n)
    let ?s = "for_each n (close_exec_fd p) s"
    have ih: "counted ?s" "same_procs s ?s" using Suc by auto
    then have "pf_used (fd_tables ?s ! p)" using p(2) by (simp add: same_procs_def)
    then have c: "counted (close_fd p n ?s)" "same_procs ?s (close_fd p n ?s)"
      using close_fd_step [OF ih(1) p(1), of n] Suc.prems by simp_all
    have "same_procs s (clear_cloexec (close_fd p n ?s) p n)"
      using same_procs_trans [OF same_procs_trans [OF ih(2) c(2)] clear_cloexec_step(3) [OF c(1) p(1)]] .
    then show ?case
      using ih clear_cloexec_step(1) [OF c(1) p(1), of n] by (simp add: for_each_Suc close_exec_fd_def [of p n ?s])
  qed (use assms in simp)
  then show ?thesis using Some by (simp add: minifs_close_exec_fds_def)
qed (use assms in \<open>simp add: minifs_close_exec_fds_def\<close>)

lemma fd_counted_other:
  assumes "tables_ok s" "p < 16" "fd < 16" "pf_used (fd_tables s ! p)"
    "q < 16" "k < 16" "pf_used (fd_tables s ! q)" "fd_of s q k = int i" "(q, k) \<noteq> (p, fd)"
  shows "1 + of_bool (fd_of s p fd = int i) \<le> refs s i"
proof -
  let ?s = "set_fd s p fd (-1)"
  have "fd_of ?s q k = int i" using fd_of_set_fd [OF assms(1-3)] assms(8,9) by auto
  then have "0 < refs ?s i"
    using fd_counted [of ?s q k i] tables_set_fd [OF assms(1-3), of "-1"] pf_used_set_fd [OF assms(1,2)] assms(5-7) by simp
  moreover have "refs ?s i + of_bool (fd_of s p fd = int i) = refs s i"
    using refs_set_fd [OF assms(1-4), of "-1" i] by simp
  ultimately show ?thesis by simp
qed

text \<open>Overwriting a descriptor with another open file: drop the old one, store, count.\<close>

lemma replace_fd:
  assumes "counted s" "p < 16" "fd < 16" "pf_used (fd_tables s ! p)"
    "q < 16" "k < 16" "pf_used (fd_tables s ! q)" "fd_of s q k = int i" "(q, k) \<noteq> (p, fd)"
  defines "s1 \<equiv> (if fd_of s p fd \<ge> 0 then put_ofd s (fd_of s p fd) else s)"
  shows "counted (get_ofd (set_fd s1 p fd (int i)) (int i))"
proof -
  note t = refs_ok_tables [OF assms(1)]
  have s1: "fd_tables s1 = fd_tables s" "fd_of s1 = fd_of s" by (simp_all add: s1_def)
  let ?e = "\<lambda>j. if 0 \<le> fd_of s p fd \<and> fd_of s p fd = int j then - 1 else (0 :: int)"
  have e: "refs_ok s1 ?e"
  proof (cases "fd_of s p fd \<ge> 0")
    case True
    then obtain j where j: "fd_of s p fd = int j" "j < 64" "0 < refs s j" using fd_refers [OF assms(1-4)] by metis
    then show ?thesis using put_ofd_step(1) [OF assms(1) j(2)] by (auto simp: s1_def fun_upd_def elim!: refs_ok_cong)
  qed (use assms(1) in \<open>simp add: s1_def\<close>)
  have i: "i < 64" using fd_refers [OF assms(1,5,6,7)] assms(8) by (metis of_nat_0_le_iff of_nat_eq_iff)
  have st: "refs_ok (set_fd s1 p fd (int i)) (\<lambda>j. - of_bool (j = i))"
    by (rule set_fd_step [OF e]) (use assms s1 i in auto)
  have "refs (set_fd s1 p fd (int i)) i + of_bool (fd_of s p fd = int i) = refs s i + 1"
    using refs_set_fd [of s1 p fd "int i" i] t assms(2-4) s1 by (simp add: s1_def refs_def)
  then have "1 < refs (set_fd s1 p fd (int i)) i"
    using fd_counted_other [OF t assms(2-4) assms(5-9)] by linarith
  then show ?thesis
    using get_ofd_step(1) [OF st i] by (auto elim!: refs_ok_cong)
qed

lemma minifs_dup2_counted:
  assumes "counted s"
  shows "counted (snd (minifs_dup2 s pid oldfd newfd))"
proof (cases "find_process s pid")
  case (Some p)
  have p: "p < 16" "pf_used (fd_tables s ! p)" using find_processD [OF Some] by auto
  show ?thesis
  proof (cases "oldfd < 0 \<or> oldfd \<ge> 16 \<or> newfd < 0 \<or> newfd \<ge> 16 \<or> fd_of s p (nat oldfd) < 0 \<or> oldfd = newfd")
    case False
    then have fds: "nat oldfd < 16" "nat newfd < 16" "nat oldfd \<noteq> nat newfd" by auto
    obtain i where i: "fd_of s p (nat oldfd) = int i" using False nonneg_int_cases by (metis linorder_not_less)
    let ?s1 = "if fd_of s p (nat newfd) \<ge> 0 then put_ofd s (fd_of s p (nat newfd)) else s"
    let ?s2 = "set_fd ?s1 p (nat newfd) (int i)"
    have c: "counted (get_ofd ?s2 (int i))"
      by (rule replace_fd [OF assms p(1) fds(2) p(2) p(1) fds(1) p(2) i]) (use fds(3) in auto)
    have t1: "tables_ok ?s1" "fd_of ?s1 = fd_of s" using refs_ok_tables [OF assms] by simp_all
    have "fd_of ?s2 p (nat newfd) = int i" using fd_of_set_fd [OF t1(1) p(1) fds(2)] by simp
    then have "minifs_dup2 s pid oldfd newfd = (newfd, clear_cloexec (get_ofd ?s2 (int i)) p (nat newfd))"
      using Some False t1(2) i by (auto simp: minifs_dup2_def Let_def)
    then show ?thesis using clear_cloexec_step(1) [OF c p(1)] by simp
  qed (use assms Some in \<open>auto simp: minifs_dup2_def\<close>)
qed (use assms in \<open>simp add: minifs_dup2_def\<close>)

text \<open>A fresh descriptor table, and giving it up again.\<close>

lemma fresh_table:
  fixes s :: fs and pid :: int and p :: nat
  assumes "counted s" "p < 16" "\<not> pf_used (fd_tables s ! p)"
  defines "s1 \<equiv> set_proc s p (\<lambda>t. t\<lparr>pf_used := True, pf_pid := pid, pf_cloexec := 0, pf_fd := replicate 16 (-1)\<rparr>)"
  shows "counted s1" "pf_used (fd_tables s1 ! p)" "pf_pid (fd_tables s1 ! p) = pid" "\<And>fd. fd < 16 \<Longrightarrow> fd_of s1 p fd = -1"
    "\<And>q. q \<noteq> p \<Longrightarrow> fd_tables s1 ! q = fd_tables s ! q"
proof -
  note l = tables_okD(2) [OF refs_ok_tables [OF assms(1)]]
  have "held (fd_tables s ! p) = (\<lambda>_. 0)" using assms(3) by (simp add: held_def fun_eq_iff)
  moreover have "held (t\<lparr>pf_used := True, pf_pid := pid, pf_cloexec := 0, pf_fd := replicate 16 (-1)\<rparr>) = (\<lambda>_. 0)" for t
    by (simp add: held_def fun_eq_iff count_list_0_iff)
  ultimately show "counted s1" unfolding s1_def by (intro set_proc_step [OF assms(1,2)]) simp_all
  show "pf_used (fd_tables s1 ! p)" "pf_pid (fd_tables s1 ! p) = pid" "\<And>fd. fd < 16 \<Longrightarrow> fd_of s1 p fd = -1"
    "\<And>q. q \<noteq> p \<Longrightarrow> fd_tables s1 ! q = fd_tables s ! q"
    using l assms(2) by (simp_all add: s1_def nth_set_proc fd_of_def)
qed

lemma empty_table_dropped:
  assumes "counted s" "p < 16" "\<And>fd. fd < 16 \<Longrightarrow> fd_of s p fd = -1"
  shows "counted (set_proc s p (\<lambda>t. t\<lparr>pf_used := False\<rparr>))"
proof -
  have len: "length (pf_fd (fd_tables s ! p)) = 16" using tables_okD(3) [OF refs_ok_tables [OF assms(1)] assms(2)] .
  then have all: "\<forall>v \<in> set (pf_fd (fd_tables s ! p)). v = -1" using assms(3) by (auto simp: in_set_conv_nth fd_of_def)
  then have "held (fd_tables s ! p) = (\<lambda>_. 0)" by (fastforce simp: held_def fun_eq_iff count_list_0_iff)
  then show ?thesis
    using len all by (intro set_proc_step [OF assms(1,2)]) (auto simp: held_def fun_eq_iff)
qed

text \<open>The two steps with an index that may be -1.\<close>

lemma alloc_ofd_any:
  assumes "refs_ok s e"
  obtains v s' where "alloc_ofd s ty fl ino = (v, s')" "refs_ok s' (\<lambda>i. e i + of_bool (v = int i))"
    "-1 \<le> v" "v < 64" "fd_tables s' = fd_tables s"
  using assms
proof (cases rule: alloc_ofd_step [where ty = ty and fl = fl and ino = ino])
  case none
  then show ?thesis using that [of "-1" s] assms by simp
next
  case (slot i s')
  have "refs_ok s' (\<lambda>j. e j + of_bool (int i = int j))" by (rule refs_ok_cong [OF slot(4)]) auto
  then show ?thesis using that [of "int i" s'] slot by simp
qed

lemma put_ofd_any:
  assumes "refs_ok s e" "v < 64" "v < 0 \<or> 0 < int (refs s (nat v)) + e (nat v)"
  shows "refs_ok (put_ofd s v) (\<lambda>i. e i - of_bool (v = int i))"
proof (cases "v < 0")
  case True
  then have "put_ofd s v = s" "v \<noteq> int i" for i by (auto simp: put_ofd_def)
  then show ?thesis using assms(1) by simp
next
  case False
  then obtain j where j: "v = int j" "j < 64" using assms(2) by (metis linorder_not_less nonneg_int_cases of_nat_less_numeral_iff)
  then show ?thesis using put_ofd_step(1) [OF assms(1) j(2)] assms(3) by (auto elim!: refs_ok_cong)
qed

lemma put_three:
  assumes "refs_ok s (\<lambda>i. of_bool (a = int i) + of_bool (b = int i) + of_bool (c = int i))" "a < 64" "b < 64" "c < 64"
  shows "counted (put_ofd (put_ofd (put_ofd s a) b) c)"
proof -
  have p1: "refs_ok (put_ofd s a) (\<lambda>i. of_bool (b = int i) + of_bool (c = int i))"
    using put_ofd_any [OF assms(1,2)] by (auto elim!: refs_ok_cong)
  have p2: "refs_ok (put_ofd (put_ofd s a) b) (\<lambda>i. of_bool (c = int i))"
    using put_ofd_any [OF p1 assms(3)] by (auto elim!: refs_ok_cong)
  show ?thesis using put_ofd_any [OF p2 assms(4)] by (auto elim!: refs_ok_cong)
qed

lemma set_three:
  assumes "refs_ok s (\<lambda>i. of_bool (a = int i) + of_bool (b = int i) + of_bool (c = int i))" "a < 64" "b < 64" "c < 64"
    "p < 16" "pf_used (fd_tables s ! p)" "\<And>fd. fd < 16 \<Longrightarrow> fd_of s p fd = -1"
  defines "s1 \<equiv> set_fd (set_fd (set_fd s p 0 a) p 1 b) p 2 c"
  shows "counted s1" "same_procs s s1" "\<And>q. q \<noteq> p \<Longrightarrow> fd_tables s1 ! q = fd_tables s ! q"
proof -
  let ?s5 = "set_fd s p 0 a" and ?s6 = "set_fd (set_fd s p 0 a) p 1 b"
  have q1: "refs_ok ?s5 (\<lambda>i. of_bool (b = int i) + of_bool (c = int i))"
    by (rule set_fd_step [OF assms(1,5)]) (use assms in auto)
  note t4 = refs_ok_tables [OF assms(1)] and t5 = refs_ok_tables [OF q1]
  have u5: "pf_used (fd_tables ?s5 ! p)" "fd_of ?s5 p 1 = -1" "fd_of ?s5 p 2 = -1"
    using assms(6,7) pf_used_set_fd [OF t4 assms(5)] fd_of_set_fd [OF t4 assms(5), of 0] by simp_all
  have q2: "refs_ok ?s6 (\<lambda>i. of_bool (c = int i))"
    by (rule set_fd_step [OF q1 assms(5)]) (use u5 assms(3) in auto)
  note t6 = refs_ok_tables [OF q2]
  have u6: "pf_used (fd_tables ?s6 ! p)" "fd_of ?s6 p 2 = -1"
    using u5 pf_used_set_fd [OF t5 assms(5)] fd_of_set_fd [OF t5 assms(5), of 1] by simp_all
  show "counted s1" unfolding s1_def
    by (rule set_fd_step [OF q2 assms(5)]) (use u6 assms(4) in auto)
  show "same_procs s s1" unfolding s1_def
    using set_fd_procs [OF t4 assms(5)] set_fd_procs [OF t5 assms(5)] set_fd_procs [OF t6 assms(5)] same_procs_trans by blast
  show "fd_tables s1 ! q = fd_tables s ! q" if "q \<noteq> p" for q
    using tables_okD(2) [OF t4] assms(5) that by (simp add: s1_def set_fd_def nth_set_proc)
qed

lemma minifs_process_init_spec:
  assumes "counted s"
  obtains (fail) s' where "minifs_process_init s pid = (-1, s')" "counted s'"
  | (success) s' where "minifs_process_init s pid = (0, s')" "counted s'" "find_process s' pid \<noteq> None"
      "\<And>q. pf_used (fd_tables s ! q) \<Longrightarrow> fd_tables s' ! q = fd_tables s ! q"
proof (cases "find_process s pid \<noteq> None \<or> first_index (\<lambda>i. \<not> pf_used (fd_tables s ! i)) 16 = None")
  case True
  then show ?thesis using success [of s] fail [of s] assms
    by (cases "find_process s pid = None") (simp_all add: minifs_process_init_def)
next
  case False
  then obtain p where fi: "first_index (\<lambda>i. \<not> pf_used (fd_tables s ! i)) 16 = Some p" by auto
  have p: "p < 16" "\<not> pf_used (fd_tables s ! p)" using fi by (simp_all add: first_index_Some)
  define s1 where "s1 = set_proc s p (\<lambda>t. t\<lparr>pf_used := True, pf_pid := pid, pf_cloexec := 0, pf_fd := replicate 16 (-1)\<rparr>)"
  note f = fresh_table [OF assms p, where pid = pid, folded s1_def]
  obtain a s2 where a: "alloc_ofd s1 1 0 0 = (a, s2)" "refs_ok s2 (\<lambda>i. 0 + of_bool (a = int i))" "a < 64"
    "fd_tables s2 = fd_tables s1" using f(1) by (rule alloc_ofd_any)
  obtain b s3 where b: "alloc_ofd s2 2 1 0 = (b, s3)" "refs_ok s3 (\<lambda>i. 0 + of_bool (a = int i) + of_bool (b = int i))"
    "b < 64" "fd_tables s3 = fd_tables s2" using a(2) by (rule alloc_ofd_any)
  obtain c s4 where c: "alloc_ofd s3 2 1 0 = (c, s4)"
    "refs_ok s4 (\<lambda>i. 0 + of_bool (a = int i) + of_bool (b = int i) + of_bool (c = int i))"
    "c < 64" "fd_tables s4 = fd_tables s3" using b(2) by (rule alloc_ofd_any)
  have t4: "fd_tables s4 = fd_tables s1" using a b c by simp
  have fd4: "fd_of s4 p fd = -1" if "fd < 16" for fd using f(4) [OF that] t4 by (simp add: fd_of_def)
  have run: "minifs_process_init s pid = (if a < 0 \<or> b < 0 \<or> c < 0
      then (-1, set_proc (put_ofd (put_ofd (put_ofd s4 a) b) c) p (\<lambda>t. t\<lparr>pf_used := False\<rparr>))
      else (0, set_fd (set_fd (set_fd s4 p 0 a) p 1 b) p 2 c))"
    using False fi a(1) b(1) c(1) by (simp add: minifs_process_init_def s1_def [symmetric] Let_def)
  show ?thesis
  proof (cases "a < 0 \<or> b < 0 \<or> c < 0")
    case True
    have "counted (put_ofd (put_ofd (put_ofd s4 a) b) c)" using put_three [of s4 a b c] c(2,3) a(3) b(3) by simp
    then show ?thesis using fail empty_table_dropped [OF _ p(1)] run True fd4 by simp
  next
    case False
    let ?s = "set_fd (set_fd (set_fd s4 p 0 a) p 1 b) p 2 c"
    have st: "counted ?s" "same_procs s4 ?s" "\<And>q. q \<noteq> p \<Longrightarrow> fd_tables ?s ! q = fd_tables s4 ! q"
      using set_three [of s4 a b c p] c(2,3) a(3) b(3) p(1) f(2) fd4 t4 by simp_all
    have "find_process ?s pid \<noteq> None"
      using st(2) f(2,3) t4 p(1) by (auto simp: find_process_def first_index_None same_procs_def)
    moreover have "fd_tables ?s ! q = fd_tables s ! q" if "pf_used (fd_tables s ! q)" for q
      using st(3) [of q] that p f(5) [of q] t4 by (cases "q = p") auto
    ultimately show ?thesis using success [OF _ st(1)] run False by simp
  qed
qed

lemma fork_fd_step:
  assumes "counted s" "p < 16" "c < 16" "fd < 16" "p \<noteq> c" "pf_used (fd_tables s ! p)" "pf_used (fd_tables s ! c)"
  shows "counted (fork_fd p c fd s)" "same_procs s (fork_fd p c fd s)"
    "fd_of (fork_fd p c fd s) q k = (if q = c \<and> k = fd then fd_of s p fd else fd_of s q k)"
proof -
  let ?s1 = "if fd_of s c fd \<ge> 0 then put_ofd s (fd_of s c fd) else s"
  have t: "tables_ok ?s1" "fd_of ?s1 = fd_of s" "fd_tables ?s1 = fd_tables s" using refs_ok_tables [OF assms(1)] by simp_all
  have eq: "fork_fd p c fd s = (let s2 = set_fd ?s1 c fd (fd_of s p fd) in
      if fd_of s p fd \<ge> 0 then get_ofd s2 (fd_of s p fd) else s2)"
    unfolding fork_fd_def Let_def using fd_of_set_fd [OF t(1) assms(3,4)] t(2) by simp
  show "counted (fork_fd p c fd s)"
  proof (cases "fd_of s p fd \<ge> 0")
    case True
    then obtain i where i: "fd_of s p fd = int i" using nonneg_int_cases by metis
    have "counted (get_ofd (set_fd ?s1 c fd (int i)) (int i))"
      by (rule replace_fd [OF assms(1,3,4,7,2,4,6) i]) (use assms(5) in simp)
    then show ?thesis unfolding eq i Let_def by simp
  next
    case False
    then show ?thesis using drop_fd [OF assms(1,3,4,7), of "fd_of s p fd"] unfolding eq Let_def by simp
  qed
  have "same_procs s (set_fd ?s1 c fd v)" for v
    using set_fd_procs [OF t(1) assms(3), of fd v] t(3) by (simp add: same_procs_def)
  then show "same_procs s (fork_fd p c fd s)" unfolding eq Let_def by (simp add: same_procs_def)
  show "fd_of (fork_fd p c fd s) q k = (if q = c \<and> k = fd then fd_of s p fd else fd_of s q k)"
    unfolding eq Let_def using fd_of_set_fd [OF t(1) assms(3,4)] t(2) by simp
qed

lemma fork_fds_step:
  assumes "counted s" "p < 16" "c < 16" "p \<noteq> c" "pf_used (fd_tables s ! p)" "pf_used (fd_tables s ! c)" "n \<le> 16"
  defines "s' \<equiv> for_each n (fork_fd p c) s"
  shows "counted s' \<and> same_procs s s' \<and> (\<forall>q k. fd_of s' q k = (if q = c \<and> k < n then fd_of s p k else fd_of s q k))"
  using assms(7) unfolding s'_def
proof (induction n)
  case (Suc n)
  let ?s = "for_each n (fork_fd p c) s"
  have ih: "counted ?s" "same_procs s ?s"
    "\<And>q k. fd_of ?s q k = (if q = c \<and> k < n then fd_of s p k else fd_of s q k)" using Suc by auto
  have u: "pf_used (fd_tables ?s ! p)" "pf_used (fd_tables ?s ! c)"
    using ih(2) assms(5,6) by (simp_all add: same_procs_def)
  note st = fork_fd_step [OF ih(1) assms(2,3) _ assms(4) u, of n]
  show ?case
    using st Suc.prems ih(3) same_procs_trans [OF ih(2)] assms(4) by (auto simp: for_each_Suc less_Suc_eq)
qed (use assms(1) in simp)

lemma minifs_process_fork_spec:
  assumes "counted s" "parent_pid \<noteq> child_pid"
  obtains (fail) s' where "minifs_process_fork s parent_pid child_pid = (-1, s')" "counted s'"
  | (success) p c s' where "minifs_process_fork s parent_pid child_pid = (0, s')" "counted s'"
      "find_process s parent_pid = Some p" "find_process s' child_pid = Some c"
      "\<And>fd. fd < 16 \<Longrightarrow> fd_of s' c fd = fd_of s p fd"
proof (cases "find_process s parent_pid")
  case None
  then show ?thesis using fail [of s] assms by (simp add: minifs_process_fork_def)
next
  case (Some p)
  have p: "p < 16" "pf_used (fd_tables s ! p)" "pf_pid (fd_tables s ! p) = parent_pid" using find_processD [OF Some] by auto
  from assms(1) show ?thesis
  proof (cases rule: minifs_process_init_spec [of s child_pid])
    case (fail s1)
    then show ?thesis using that(1) Some by (simp add: minifs_process_fork_def)
  next
    case (success s1)
    then obtain c where c: "find_process s1 child_pid = Some c" by auto
    have c1: "c < 16" "pf_used (fd_tables s1 ! c)" "pf_pid (fd_tables s1 ! c) = child_pid" using find_processD [OF c] by auto
    have p1: "fd_tables s1 ! p = fd_tables s ! p" using success(4) p by simp
    have ne: "p \<noteq> c" using p(3) c1(3) p1 assms(2) by auto
    define s2 where "s2 = set_proc s1 c (\<lambda>t. t\<lparr>pf_cloexec := pf_cloexec (fd_tables s1 ! p)\<rparr>)"
    define s3 where "s3 = for_each 16 (fork_fd p c) s2"
    have s2: "counted s2" "same_procs s1 s2" "fd_of s2 = fd_of s1"
      using refs_ok_cloexec [OF success(2) c1(1)] cloexec_irrelevant [OF refs_ok_tables [OF success(2)] c1(1)]
      by (simp_all add: s2_def same_procs_def)
    have u: "pf_used (fd_tables s2 ! p)" "pf_used (fd_tables s2 ! c)"
      using s2(2) p p1 c1 by (simp_all add: same_procs_def)
    note loop = fork_fds_step [OF s2(1) p(1) c1(1) ne u, of 16, folded s3_def]
    have "minifs_process_fork s parent_pid child_pid = (0, s3)"
      using Some success(1) c by (simp add: minifs_process_fork_def s2_def s3_def)
    moreover have "find_process s3 child_pid = Some c"
      using same_procs_find [OF same_procs_trans [OF s2(2)]] loop c by simp
    moreover have "fd_of s3 c fd = fd_of s p fd" if "fd < 16" for fd
      using loop that s2(3) p1 by (simp add: fd_of_def)
    ultimately show ?thesis using that(2) [of s3 p c] loop Some by blast
  qed
qed

text \<open>The descriptor part of opening a file: a counted open file is installed or given back.\<close>

lemma install_step:
  assumes "refs_ok s (\<lambda>i. of_bool (v = int i))" "0 \<le> v" "v < 64" "p < 16" "pf_used (fd_tables s ! p)"
  shows "counted (let (fd, s') = install_fd s p v in if fd < 0 then put_ofd s' v else s')"
proof (cases "first_index (\<lambda>fd. fd_of s p fd < 0) 16")
  case None
  have "counted (put_ofd s v)" using put_ofd_any [OF assms(1,3)] assms(2) by (auto elim!: refs_ok_cong)
  then show ?thesis using None by (simp add: install_fd_def)
next
  case (Some fd)
  have fd: "fd < 16" "fd_of s p fd < 0" using Some by (simp_all add: first_index_Some)
  have "counted (set_fd s p fd v)" by (rule set_fd_step [OF assms(1,4) fd(1)]) (use assms fd(2) in auto)
  then show ?thesis using Some clear_cloexec_step(1) assms(4) by (simp add: install_fd_def)
qed

end
