(* ===== verification/Fs_Keep.thy ===== *)
theory Fs_Keep
  imports Fs_File Fs_Refs
begin

text \<open>
  Every call of MiniFS preserves its two invariants: the structure of the disk (theory Fs_Inv)
  and the reference counts (theory Fs_Refs).
\<close>

section \<open>Steps on the disk\<close>

definition disk_step_ok :: "fs \<Rightarrow> fs \<Rightarrow> bool" where
  "disk_step_ok s s' \<longleftrightarrow> (fs_inv s \<longrightarrow> fs_inv s' \<and> open_files s' = open_files s \<and> fd_tables s' = fd_tables s)"

lemma ok_refl [simp]: "disk_step_ok s s"
  by (simp add: disk_step_ok_def)

lemma ok_trans: "disk_step_ok s s1 \<Longrightarrow> disk_step_ok s1 s2 \<Longrightarrow> disk_step_ok s s2"
  by (simp add: disk_step_ok_def)

lemma ok_buffer [simp]: "disk_step_ok s (s'\<lparr>block_buffer := b\<rparr>) = disk_step_ok s s'"
  by (simp add: disk_step_ok_def)

lemma buffer_disk: "s\<lparr>block_buffer := b, fs_disk := d\<rparr> = s\<lparr>fs_disk := d, block_buffer := b\<rparr>"
  by (cases s) simp

text \<open>Reading changes the scratch buffer only.\<close>

definition quiet :: "fs \<Rightarrow> fs \<Rightarrow> bool" where
  "quiet s s' \<longleftrightarrow> (\<exists>b. s' = s\<lparr>block_buffer := b\<rparr>)"

lemma quiet_refl [simp]: "quiet s s"
  unfolding quiet_def by (rule exI [of _ "block_buffer s"]) simp

lemma quiet_upd [simp]: "quiet s (s\<lparr>block_buffer := b\<rparr>)"
  unfolding quiet_def by blast

lemma quiet_trans: "quiet s s1 \<Longrightarrow> quiet s1 s2 \<Longrightarrow> quiet s s2"
  by (auto simp: quiet_def)

lemma quiet_ok: "quiet s s' \<Longrightarrow> disk_step_ok s s'"
  by (auto simp: quiet_def disk_step_ok_def)

lemma quiet_disk: "quiet s s' \<Longrightarrow> fs_disk s' = fs_disk s"
  by (auto simp: quiet_def)

lemma quiet_inv: "quiet s s' \<Longrightarrow> fs_inv s' = fs_inv s"
  by (auto simp: quiet_def)

lemma bread_quiet: "quiet s (snd (bread s x))"
  by (simp add: bread_def split_beta)

lemma read_inode_quiet: "quiet s (snd (read_inode s n))"
  using bread_quiet [of s] by (simp add: read_inode_def Let_def split_beta)

lemma inode_block_quiet: "quiet s (snd (inode_block s ino j))"
  using bread_quiet [of s] by (simp add: inode_block_def Let_def split_beta)

lemma read_entry_quiet: "quiet s (snd (read_entry s ino i))"
  using quiet_trans [OF inode_block_quiet [of s ino "i div 8"] bread_quiet] inode_block_quiet [of s ino "i div 8"]
  by (simp add: read_entry_def Let_def split_beta)

lemmas entry_quiet = read_entry_quiet quiet_trans [OF read_entry_quiet]

lemma lookup_loop_quiet: "quiet s (snd (lookup_loop ino name is s))"
  by (induction "is" arbitrary: s) (auto simp: Let_def split_beta intro: entry_quiet)

lemma free_entry_loop_quiet: "quiet s (snd (free_entry_loop ino count is s))"
  by (induction "is" arbitrary: s) (auto simp: Let_def split_beta intro: entry_quiet)

lemma empty_loop_quiet: "quiet s (snd (empty_loop ino is s))"
  by (induction "is" arbitrary: s) (auto simp: Let_def split_beta intro: entry_quiet)

lemma getdents_loop_quiet: "quiet s (snd (getdents_loop ino cap is es s))"
  by (induction "is" arbitrary: s es) (auto simp: Let_def split_beta intro: entry_quiet)

lemma name_loop_quiet: "quiet s (snd (name_loop ino cur is s))"
  by (induction "is" arbitrary: s) (auto simp: Let_def split_beta intro: entry_quiet)

lemma dir_lookup_quiet: "quiet s (snd (dir_lookup s n name))"
  using quiet_trans [OF read_inode_quiet [of s n] lookup_loop_quiet] read_inode_quiet [of s n]
  by (simp add: dir_lookup_def Let_def split_beta)

lemma resolve_loop_quiet: "quiet s (snd (resolve_loop s cur path))"
proof (induction "length path" arbitrary: s cur path rule: less_induct)
  case less
  obtain st rest c where n: "next_component path = (st, rest, c)" by (cases "next_component path") auto
  have ih: "quiet s' (snd (resolve_loop s' cur' rest))" if "\<not> st < 0" "st \<noteq> 0" for s' cur'
    using less next_component_decr [OF n [symmetric] that] by blast
  obtain r ino s1 where r: "read_inode s cur = ((r, ino), s1)" by (cases "read_inode s cur") auto
  obtain ch e s2 where d: "dir_lookup s cur c = ((ch, e), s2)" by (cases "dir_lookup s cur c") auto
  have q: "quiet s s1" "quiet s s2" using read_inode_quiet [of s cur] dir_lookup_quiet [of s cur c] r d by simp_all
  show ?case
    using ih q by (subst resolve_loop.simps) (auto simp: n r d intro: quiet_trans)
qed

lemma resolve_quiet: "quiet s (snd (resolve s cwd path))"
  by (simp add: resolve_def resolve_loop_quiet split: option.split)

lemma resolve_parent_quiet: "quiet s (snd (resolve_parent s cwd path))"
  by (simp add: resolve_parent_def resolve_quiet Let_def split_beta)

lemma pread_loop_quiet: "quiet s (snd (pread_loop s ino off dn len buf))"
proof (induction "len - dn" arbitrary: s off dn buf rule: less_induct)
  case less
  obtain blk s1 where b: "inode_block s ino (off div 512) = (blk, s1)" by (cases "inode_block s ino (off div 512)") auto
  obtain r s2 where r: "bread s1 blk = (r, s2)" by (cases "bread s1 blk") auto
  have q: "quiet s s1" "quiet s s2"
    using inode_block_quiet [of s ino "off div 512"] quiet_trans [OF inode_block_quiet [of s ino "off div 512"] bread_quiet] b r
    by (simp_all, metis snd_conv)
  have ih: "quiet s2 (snd (pread_loop s2 ino off' (dn + min (len - dn) (512 - off mod 512)) len buf'))" if "dn < len" for off' buf'
    by (rule less) (use that in simp)
  show ?case
    using ih q by (subst pread_loop.simps) (auto simp: b r Let_def intro: quiet_trans)
qed

lemma minifs_pread_quiet: "quiet s (snd (minifs_pread s n off buf len))"
  using quiet_trans [OF read_inode_quiet [of s n] pread_loop_quiet] read_inode_quiet [of s n]
  by (simp add: minifs_pread_def Let_def split_beta split: option.split)

lemma getcwd_loop_quiet: "quiet s (snd (getcwd_loop s cur rp))"
proof (induction "256 - length rp" arbitrary: s cur rp rule: less_induct)
  case less
  obtain r ino s1 where 1: "read_inode s cur = ((r, ino), s1)" by (cases "read_inode s cur") auto
  obtain r' par s2 where 2: "read_inode s1 (i_parent ino) = ((r', par), s2)" by (cases "read_inode s1 (i_parent ino)") auto
  obtain nm s3 where 3: "name_loop par cur [0..<entry_count par] s2 = (nm, s3)"
    by (cases "name_loop par cur [0..<entry_count par] s2") auto
  have q1: "quiet s s1" using read_inode_quiet [of s cur] 1 by simp
  have q2: "quiet s s2" using quiet_trans [OF q1] read_inode_quiet [of s1 "i_parent ino"] 2 by simp
  have q3: "quiet s s3" using quiet_trans [OF q2] name_loop_quiet [of s2 par cur "[0..<entry_count par]"] 3 by simp
  have ih: "quiet s3 (snd (getcwd_loop s3 cur' (rp @ rev name @ [47])))" if "name \<noteq> []" "length rp + length name + 1 < 256" for cur' name
    by (rule less) (use that in simp)
  show ?case
    using ih q1 q2 q3 by (subst getcwd_loop.simps) (auto simp: 1 2 3 intro: quiet_trans split: option.split)
qed

section \<open>Inode numbers\<close>

lemma inode_bitmap_ok:
  assumes "length x = 512"
  shows "disk_step_ok s (s\<lparr>block_buffer := b, fs_disk := (fs_disk s)(1 := x)\<rparr>)"
  unfolding disk_step_ok_def
proof
  assume inv: "fs_inv s"
  let ?s = "s\<lparr>block_buffer := b, fs_disk := (fs_disk s)(1 := x)\<rparr>"
  have at: "inode_at (fs_disk ?s) n = inode_at (fs_disk s) n" if "n < 256" for n
  proof -
    have "unat (6 + of_nat (n div 8) :: u32) \<noteq> unat (1 :: u32)" unfolding unat_inode_sector [OF that] by simp
    then have "6 + of_nat (n div 8) \<noteq> (1 :: u32)" by metis
    then show ?thesis by (simp add: inode_at_def)
  qed
  have "inv ?s (inode_at (fs_disk s))"
  proof (rule inv_meta(1) [of s])
    show "inv s (inode_at (fs_disk s))" using inv by (simp add: fs_inv_def)
    show "disk_ok (fs_disk ?s)" using fs_invD [OF inv] assms by (simp add: disk_ok_def)
    show "fs_disk ?s x = fs_disk s x" if "\<not> meta x" for x using that by (auto simp: meta_iff)
  qed simp
  then show "fs_inv ?s \<and> open_files ?s = open_files s \<and> fd_tables ?s = fd_tables s"
    unfolding fs_inv_def using inv_cong at by fastforce
qed

lemma alloc_inode_ok:
  assumes "fs_inv s"
  shows "disk_step_ok s (snd (alloc_inode s))" "fst (alloc_inode s) < 256"
proof -
  have len: "length (fs_disk s 1) = 512" using fs_invD [OF assms] by (simp add: disk_ok_def)
  show "disk_step_ok s (snd (alloc_inode s))" "fst (alloc_inode s) < 256"
    using inode_bitmap_ok len first_free_Some [of "fs_disk s 1" 1 256] quiet_ok
    by (auto simp: alloc_inode_def split: option.split)
qed

lemma free_inode_number_ok: "disk_step_ok s (free_inode_number s n)"
proof (cases "fs_inv s")
  case True
  have len: "length (fs_disk s 1) = 512" using fs_invD [OF True] by (simp add: disk_ok_def)
  then show ?thesis using inode_bitmap_ok by (simp add: free_inode_number_def)
qed (simp add: disk_step_ok_def)

section \<open>Inodes\<close>

lemma inv_fresh:
  assumes "inv s f" "ino_shape x" "\<And>d. ino_blocks d x = []"
  shows "inv s (f(n := x))"
  using assms by (auto simp: inv_def ino_ok_def)

lemma commit_ok:
  assumes "unat n < 256" "frame s s'" "inv s' ((inode_at (fs_disk s'))(unat n := ino))"
  shows "fst (write_inode s' n ino) = 0" "disk_step_ok s (snd (write_inode s' n ino))"
proof -
  obtain s2 where "write_inode s' n ino = (0, s2)" "fs_inv s2" "open_files s2 = open_files s'" "fd_tables s2 = fd_tables s'"
    using write_inode_commit [OF assms(1,3)] by metis
  then show "fst (write_inode s' n ino) = 0" "disk_step_ok s (snd (write_inode s' n ino))"
    using assms(2) by (simp_all add: disk_step_ok_def frame_def)
qed

lemma write_inode_bad: "\<not> unat n < 256 \<Longrightarrow> write_inode s n ino = (-1, s)"
  by (simp add: write_inode_def)

lemma write_fresh_ok:
  assumes "ino_shape x" "\<And>d. ino_blocks d x = []"
  shows "disk_step_ok s (snd (write_inode s n x))"
proof (cases "fs_inv s \<and> unat n < 256")
  case True
  then show ?thesis using commit_ok(2) [of n s s x] inv_fresh [OF _ assms] by (simp add: fs_inv_def)
next
  case False
  then show ?thesis using write_inode_bad [of n s x] by (cases "unat n < 256") (simp_all add: disk_step_ok_def)
qed

text \<open>A step on a file whose inode on disk stays the same.\<close>

lemma same_inode_ok:
  assumes "n < 256" "fs_inv s \<Longrightarrow> file_step s (inode_at (fs_disk s) n) s' (inode_at (fs_disk s) n)"
  shows "disk_step_ok s s'"
  unfolding disk_step_ok_def
proof
  assume inv: "fs_inv s"
  note st = assms(2) [OF inv]
  have fr: "frame s s'" using st by (simp add: file_step_def)
  have "inv s' ((inode_at (fs_disk s'))(n := inode_at (fs_disk s) n))" by (rule inv_file_step [OF inv assms(1) st])
  moreover have "(inode_at (fs_disk s'))(n := inode_at (fs_disk s) n) = inode_at (fs_disk s')"
    using inode_at_frame [OF fr assms(1)] by auto
  ultimately show "fs_inv s' \<and> open_files s' = open_files s \<and> fd_tables s' = fd_tables s"
    using fr by (simp add: fs_inv_def frame_def)
qed

lemma refused_ok:
  assumes "fs_inv s" "n < 256" "refused s (inode_at (fs_disk s) n) s' ino'"
  shows "disk_step_ok s s'"
proof (rule same_inode_ok [OF assms(2)])
  let ?i = "inode_at (fs_disk s) n"
  have st: "file_step s ?i s' ino'" "keeps s {} s'" using assms(3) by (simp_all add: refused_def)
  have k: "ino_ok s' ?i" "ino_blocks (fs_disk s') ?i = ino_blocks (fs_disk s) ?i"
    using same_map_keeps [OF fs_inv_ino [OF assms(1,2)] st(2)] by simp_all
  then show "file_step s ?i s' ?i" using st(1) by (simp add: file_step_def)
qed

section \<open>Directory entries\<close>

lemma entry_position: "64 * i div 512 = i div (8 :: nat)" "64 * i mod 512 = 64 * (i mod (8 :: nat))"
  using div_mult_mult1 [of 64 i 8] mult_mod_right [of 64 i 8] by simp_all

text \<open>Storing bytes into an entry of a directory that has the block.\<close>

lemma store_entry_step:
  assumes ok: "ino_ok s ino" "coherent s" "disk_ok (fs_disk s)" and j: "i div 8 < 138"
    and nz: "imap (fs_disk s) ino (i div 8) \<noteq> 0" and len: "length bs \<le> 64"
  defines "b \<equiv> imap (fs_disk s) ino (i div 8)"
  shows "file_step s ino (s\<lparr>fs_disk := (fs_disk s)(b := copy_bytes (fs_disk s b) (64 * (i mod 8)) bs)\<rparr>) ino"
proof -
  have "64 * i mod 512 + length bs \<le> 512" using len mod_less_divisor [of 8 i] unfolding entry_position by linarith
  then show ?thesis
    using overwrite_block(1) [OF ok, of "64 * i" bs] j nz by (simp add: entry_position b_def)
qed

lemma put_entry_ok:
  assumes "unat dir < 256" "inode = inode_at (fs_disk s) (unat dir)" "length name \<le> 55"
  shows "disk_step_ok s (snd (put_entry s dir inode index child mode name))"
proof (cases "fs_inv s \<and> index div 8 < 138")
  case False
  then show ?thesis by (auto simp: disk_step_ok_def put_entry_def ensure_inode_block_def)
next
  case True
  then have inv: "fs_inv s" and j: "index div 8 < 138" by auto
  have ok: "ino_ok s inode" "coherent s" "disk_ok (fs_disk s)"
    using fs_inv_ino [OF inv assms(1)] fs_invD [OF inv] assms(2) by simp_all
  from ok j show ?thesis
  proof (cases rule: ensure_inode_block_spec)
    case (fail s' ino')
    then show ?thesis using refused_ok [OF inv assms(1)] assms(2) by (simp add: put_entry_def)
  next
    case (success b s1 ino1)
    have e: "file_step s inode s1 ino1" "imap (fs_disk s1) ino1 (index div 8) = b" "b \<noteq> 0"
      using success(2) by (simp_all add: ensured_def)
    have ok1: "ino_ok s1 ino1" "coherent s1" "disk_ok (fs_disk s1)" using e(1) by (simp_all add: file_step_def)
    have data: "unat b < 16384" using imap_in_data [OF ok1(1) j] e(2,3) in_data_small by simp
    let ?bs = "dirent_bytes child mode name"
    define s2 where "s2 = s1\<lparr>fs_disk := (fs_disk s1)(b := copy_bytes (fs_disk s1 b) (64 * (index mod 8)) ?bs)\<rparr>"
    define s3 where "s3 = s2\<lparr>block_buffer := copy_bytes (fs_disk s1 b) (64 * (index mod 8)) ?bs\<rparr>"
    define ino2 where "ino2 = (if index = entry_count inode then ino1\<lparr>i_size := i_size ino1 + 64\<rparr> else ino1)"
    have "length ?bs \<le> 64" using assms(3) by (simp add: dirent_bytes_def)
    then have "file_step s1 ino1 s2 ino1"
      using store_entry_step [OF ok1 j] e(2,3) by (simp add: s2_def)
    then have st: "file_step s inode s3 ino2"
      using file_step_trans [OF e(1)] by (simp add: s3_def ino2_def)
    have "put_entry s dir inode index child mode name = write_inode s3 dir ino2"
      using success(1) data by (cases s1) (simp add: put_entry_def Let_def s2_def s3_def ino2_def)
    moreover have "frame s s3" using st by (simp add: file_step_def)
    ultimately show ?thesis
      using commit_ok(2) [OF assms(1) _ inv_file_step [OF inv assms(1)]] st assms(2) by simp
  qed
qed

lemma dir_add_ok: "disk_step_ok s (snd (dir_add s dir name child mode))"
proof -
  obtain f e s1 where 1: "dir_lookup s dir name = ((f, e), s1)" by (cases "dir_lookup s dir name") auto
  obtain r ino s2 where 2: "read_inode s1 dir = ((r, ino), s2)" by (cases "read_inode s1 dir") auto
  obtain ix s3 where 3: "free_entry_loop ino (entry_count ino) [0..<entry_count ino] s2 = (ix, s3)"
    by (cases "free_entry_loop ino (entry_count ino) [0..<entry_count ino] s2") auto
  have q1: "quiet s s1" using dir_lookup_quiet [of s dir name] 1 by simp
  have q2: "quiet s1 s2" using read_inode_quiet [of s1 dir] 2 by simp
  have q3: "quiet s2 s3" using free_entry_loop_quiet [of s2 ino "entry_count ino" "[0..<entry_count ino]"] 3 by simp
  note q = q1 quiet_trans [OF q1 q2] quiet_trans [OF quiet_trans [OF q1 q2] q3]
  have "disk_step_ok s (snd (put_entry s3 dir ino index child mode name))"
    if "\<not> r < 0" "length name \<le> 55" for index
  proof -
    have n: "unat dir < 256" using 2 that(1) by (auto simp: read_inode_def split: if_splits)
    then have "ino = inode_at (fs_disk s1) (unat dir)" using read_inode_ok [OF n, of s1] 2 by auto
    then have "ino = inode_at (fs_disk s3) (unat dir)" using q2 q3 by (simp add: quiet_disk)
    then show ?thesis using put_entry_ok [OF n _ that(2)] ok_trans [OF quiet_ok [OF q(3)]] by blast
  qed
  then show ?thesis using quiet_ok [OF q(1)] quiet_ok [OF q(2)] quiet_ok [OF q(3)]
    by (simp add: dir_add_def 1 2 3 Let_def split: option.split)
qed

lemma read_entryD:
  assumes "read_entry s ino i = (Some b, s')" "ino_ok s ino"
  shows "b = imap (fs_disk s) ino (i div 8)" "b \<noteq> 0" "i div 8 < 138" "unat b < 16384" "s' = s\<lparr>block_buffer := fs_disk s b\<rparr>"
proof -
  obtain bb where ib: "inode_block s ino (i div 8) = (imap (fs_disk s) ino (i div 8), s\<lparr>block_buffer := bb\<rparr>)"
    using inode_block_imap [OF assms(2)] by blast
  show b: "b = imap (fs_disk s) ino (i div 8)" "b \<noteq> 0"
    using assms(1) ib by (auto simp: read_entry_def split: if_splits prod.splits)
  show j: "i div 8 < 138" using b unfolding imap_def by (auto split: if_splits)
  show u: "unat b < 16384" using imap_in_data [OF assms(2) j] b in_data_small by simp
  show "s' = s\<lparr>block_buffer := fs_disk s b\<rparr>" using assms(1) ib b u by (simp add: read_entry_def)
qed

lemma dir_remove_ok: "disk_step_ok s (snd (dir_remove s dir name))"
proof (cases "fs_inv s \<and> unat dir < 256")
  case False
  then show ?thesis by (auto simp: disk_step_ok_def dir_remove_def read_inode_def)
next
  case True
  let ?n = "unat dir" and ?ino = "inode_at (fs_disk s) (unat dir)"
  obtain b where r: "read_inode s dir = ((0, ?ino), s\<lparr>block_buffer := b\<rparr>)" using read_inode_ok True by blast
  have "disk_step_ok s (snd (remove_loop ?ino name is t))" if "quiet s t" for "is" t
    using that
  proof (induction "is" arbitrary: t)
    case (Cons i "is")
    have ok: "ino_ok t ?ino" "coherent t" "disk_ok (fs_disk t)" "fs_disk t = fs_disk s"
      using fs_inv_ino [of s ?n] fs_invD [of s] True Cons.prems by (auto simp: quiet_def)
    obtain blk t' where e: "read_entry t ?ino i = (blk, t')" by (cases "read_entry t ?ino i") auto
    have q: "quiet s t'" using quiet_trans [OF Cons.prems] read_entry_quiet [of t ?ino i] e by simp
    show ?case
    proof (cases blk)
      case None
      then show ?thesis using e quiet_ok [OF q] by simp
    next
      case (Some x)
      note x = read_entryD [OF e [unfolded Some] ok(1)]
      let ?bs = "enc32 0xffffffff"
      have "file_step t ?ino (t\<lparr>fs_disk := (fs_disk t)(x := copy_bytes (fs_disk t x) (64 * (i mod 8)) ?bs)\<rparr>) ?ino"
        using store_entry_step [OF ok(1-3) x(3), of ?bs] x(1,2) by simp
      then have "disk_step_ok t (t\<lparr>block_buffer := copy_bytes (fs_disk t x) (64 * (i mod 8)) ?bs,
          fs_disk := (fs_disk t)(x := copy_bytes (fs_disk t x) (64 * (i mod 8)) ?bs)\<rparr>)"
        using same_inode_ok [of ?n t] True ok(4) by (simp add: buffer_disk)
      then have "disk_step_ok s (snd (bwrite (t'\<lparr>block_buffer := copy_bytes (block_buffer t') (64 * (i mod 8)) ?bs\<rparr>) x))"
        using ok_trans [OF quiet_ok [OF Cons.prems]] x(4,5) by simp
      then show ?thesis using e Some Cons.IH [OF q] by (simp add: Let_def)
    qed
  qed (simp add: quiet_ok)
  then show ?thesis using r by (simp add: dir_remove_def)
qed

section \<open>Creating, truncating and writing files\<close>

lemma create_node_ok:
  "disk_step_ok s (snd (create_node s parent name mode))"
proof (cases "fs_inv s")
  case True
  obtain n s1 where 1: "alloc_inode s = (n, s1)" by (cases "alloc_inode s") auto
  let ?ino = "zero_inode\<lparr>i_mode := mode, i_parent := parent, i_links := 1\<rparr>"
  obtain r s2 where 2: "write_inode s1 (of_int n) ?ino = (r, s2)" by (cases "write_inode s1 (of_int n) ?ino") auto
  obtain r' s3 where 3: "dir_add s2 parent name (of_int n) mode = (r', s3)"
    by (cases "dir_add s2 parent name (of_int n) mode") auto
  have k1: "disk_step_ok s s1" using alloc_inode_ok(1) [OF True] 1 by simp
  have "disk_step_ok s1 s2"
    using write_fresh_ok [of ?ino s1 "of_int n"] 2 by (simp add: ino_shape_def zero_inode_def ino_blocks_def)
  then have k2: "disk_step_ok s s2" by (rule ok_trans [OF k1])
  have k3: "disk_step_ok s s3" using ok_trans [OF k2] dir_add_ok [of s2 parent name "of_int n" mode] 3 by simp
  show ?thesis
    using k1 k2 k3 ok_trans [OF k2 free_inode_number_ok] ok_trans [OF k3 free_inode_number_ok]
    by (simp add: create_node_def 1 2 3 Let_def)
qed (simp add: disk_step_ok_def)

lemma truncate_write_ok:
  assumes "unat n < 256" "inode = inode_at (fs_disk s) (unat n)" "truncate_inode s inode = (inode', s')"
    "x = inode' \<or> x = zero_inode"
  shows "disk_step_ok s (snd (write_inode s' n x))"
proof (cases "fs_inv s")
  case True
  have ok: "coherent s" "disk_ok (fs_disk s)" "ino_ok s inode"
    using fs_inv_ino [OF True assms(1)] fs_invD [OF True] assms(2) by simp_all
  obtain t where t: "truncate_inode s inode = (inode\<lparr>i_direct := replicate 10 0, i_indirect := 0, i_size := 0\<rparr>, t)"
    "file_step s inode t (inode\<lparr>i_direct := replicate 10 0, i_indirect := 0, i_size := 0\<rparr>)"
    using truncate_inode_step [OF ok] by metis
  then have st: "file_step s inode s' inode'" using assms(3) by simp
  have "inv s' ((inode_at (fs_disk s'))(unat n := inode'))"
    using inv_file_step [OF True assms(1)] st assms(2) by simp
  then have "inv s' ((inode_at (fs_disk s'))(unat n := x))"
    using assms(4) inv_fresh [of s' "(inode_at (fs_disk s'))(unat n := inode')" zero_inode "unat n"]
    by (auto simp: ino_blocks_def zero_inode_def ino_shape_def)
  moreover have "frame s s'" using st by (simp add: file_step_def)
  ultimately show ?thesis using commit_ok(2) [OF assms(1)] by blast
qed (simp add: disk_step_ok_def)

lemma write_at_ok:
  assumes "min (unat len) (65536 - unat offset) \<le> length source"
  shows "disk_step_ok s (snd (write_at s n offset source len))"
proof (cases "fs_inv s \<and> unat n < 256 \<and> is_kind (inode_at (fs_disk s) (unat n)) 1 \<and> unat offset < 65536")
  case True
  then obtain r s' where "write_at s n offset source len = (int r, s')" "fs_inv s'" "open_files s' = open_files s" "fd_tables s' = fd_tables s"
    using write_at_spec [of s n offset len source] assms by metis
  then show ?thesis by (simp add: disk_step_ok_def)
next
  case False
  obtain b where "unat n < 256 \<Longrightarrow> read_inode s n = ((0, inode_at (fs_disk s) (unat n)), s\<lparr>block_buffer := b\<rparr>)"
    using read_inode_ok by blast
  moreover have "\<not> unat n < 256 \<Longrightarrow> read_inode s n = ((-1, zero_inode), s)" by (simp add: read_inode_def)
  ultimately show ?thesis using False
    by (cases "unat n < 256") (auto simp: write_at_def disk_step_ok_def)
qed

end
