(* ===== verification/Fs_History.thy ===== *)
theory Fs_History
  imports Fs_Keep
begin

text \<open>
  Histories of calls.  A client issues the calls of \<^verbatim>\<open>minifs.h\<close> in any order; both invariants
  hold after every call.
\<close>

section \<open>What the descriptor operations leave alone\<close>

definition disk_part :: "fs \<Rightarrow> disk \<times> u8 list" where
  "disk_part s = (fs_disk s, bitmap_buffer s)"

lemma fs_inv_disk_part:
  assumes "disk_part s' = disk_part s" shows "fs_inv s' = fs_inv s"
proof -
  have eq: "fs_disk s' = fs_disk s" "bitmap_buffer s' = bitmap_buffer s" using assms by (simp_all add: disk_part_def)
  then have "used s' = used s" by (simp add: used_def fun_eq_iff)
  then show ?thesis using eq by (simp add: fs_inv_def inv_def ino_ok_def coherent_def)
qed

lemma disk_part_tables [simp]:
  "disk_part (set_ofd s i f) = disk_part s" "disk_part (set_proc s p g) = disk_part s"
  "disk_part (set_fd s p fd v) = disk_part s" "disk_part (clear_cloexec s p fd) = disk_part s"
  "disk_part (mark_cloexec s p fd) = disk_part s" "disk_part (put_ofd s v) = disk_part s"
  "disk_part (get_ofd s v) = disk_part s" "disk_part (snd (alloc_ofd s ty fl ino)) = disk_part s"
  "disk_part (snd (install_fd s p v)) = disk_part s"
  by (simp_all add: disk_part_def set_ofd_def set_proc_def set_fd_def clear_cloexec_def mark_cloexec_def
    put_ofd_def get_ofd_def alloc_ofd_def install_fd_def Let_def split: option.split)

lemma disk_part_for_each: "(\<And>i s. disk_part (f i s) = disk_part s) \<Longrightarrow> disk_part (for_each n f s) = disk_part s"
  by (induction n) (simp_all add: for_each_Suc)

lemma disk_part_close_fd [simp]: "disk_part (close_fd p fd s) = disk_part s"
  by (simp add: close_fd_def)

lemma disk_part_init [simp]: "disk_part (snd (minifs_process_init s pid)) = disk_part s"
  by (simp add: minifs_process_init_def Let_def split_beta split: option.split)

lemma disk_part_fork [simp]: "disk_part (snd (minifs_process_fork s p c)) = disk_part s"
  by (simp add: minifs_process_fork_def Let_def split_beta disk_part_for_each fork_fd_def split: option.split)

lemma disk_part_calls [simp]:
  "disk_part (minifs_close_all s pid) = disk_part s" "disk_part (snd (minifs_set_cloexec s pid fd on)) = disk_part s"
  "disk_part (minifs_close_exec_fds s pid) = disk_part s" "disk_part (snd (minifs_close s pid fd)) = disk_part s"
  "disk_part (snd (minifs_dup2 s pid a b)) = disk_part s"
  by (simp_all add: minifs_close_all_def minifs_set_cloexec_def minifs_close_exec_fds_def close_exec_fd_def
    minifs_close_def minifs_dup2_def Let_def disk_part_for_each split: option.split)

section \<open>Both invariants\<close>

definition fs_good :: "fs \<Rightarrow> bool" where
  "fs_good s \<longleftrightarrow> fs_inv s \<and> counted s"

lemma refs_ok_cong_tables:
  assumes "open_files s' = open_files s" "fd_tables s' = fd_tables s"
  shows "refs_ok s' e = refs_ok s e"
proof -
  have "refs s' = refs s" "fd_of s' = fd_of s" using assms by (simp_all add: refs_def fd_of_def fun_eq_iff)
  then show ?thesis using assms by (simp add: refs_ok_def tables_ok_def)
qed

lemma good_disk_step: "fs_good s \<Longrightarrow> disk_step_ok s s' \<Longrightarrow> fs_good s'"
  using refs_ok_cong_tables [of s' s] by (simp add: fs_good_def disk_step_ok_def)

lemma good_table_step: "fs_good s \<Longrightarrow> disk_part s' = disk_part s \<Longrightarrow> counted s' \<Longrightarrow> fs_good s'"
  using fs_inv_disk_part [of s' s] by (simp add: fs_good_def)

lemma refs_ok_offset:
  "refs_ok s e \<Longrightarrow> refs_ok (set_ofd s i (\<lambda>f. f\<lparr>of_offset := g f\<rparr>)) e"
proof -
  have "of_used (open_files (set_ofd s i (\<lambda>f. f\<lparr>of_offset := g f\<rparr>)) ! j) = of_used (open_files s ! j) \<and>
      of_refs (open_files (set_ofd s i (\<lambda>f. f\<lparr>of_offset := g f\<rparr>)) ! j) = of_refs (open_files s ! j)" for j
    by (cases "i < length (open_files s)") (simp_all add: set_ofd_def nth_list_update list_update_beyond)
  then show "refs_ok s e \<Longrightarrow> refs_ok (set_ofd s i (\<lambda>f. f\<lparr>of_offset := g f\<rparr>)) e" by (simp add: refs_ok_def)
qed

lemma good_offset: "fs_good s \<Longrightarrow> fs_good (set_ofd s i (\<lambda>f. f\<lparr>of_offset := g f\<rparr>))"
  using good_table_step [of s "set_ofd s i (\<lambda>f. f\<lparr>of_offset := g f\<rparr>)"] refs_ok_offset [of s "\<lambda>_. 0" i g]
  by (simp add: fs_good_def)

section \<open>Calls\<close>

datatype fs_call =
    CInit int
  | CFork int int
  | CCloseAll int
  | CSetCloexec int int bool
  | CCloseExec int
  | COpen int u32 "cstr option" int
  | CClose int int
  | CRead int int "u8 list option" u64
  | CWrite int int "u8 list option" u64
  | CLseek int int int int
  | CDup2 int int int
  | CGetdents u32 "cstr option" bool int
  | CMkdir u32 "cstr option"
  | CUnlink u32 "cstr option"
  | CChdir u32 "cstr option" "u32 option"
  | CGetcwd u32 "u8 list option" u64
  | CResolveFile u32 "cstr option" "u32 option"
  | CPread u32 u32 "u8 list option" u32

text \<open>The state after a call; a console read that waits leaves it as it is.\<close>

primrec run_call :: "console \<Rightarrow> fs_call \<Rightarrow> fs \<Rightarrow> fs" where
  "run_call con (CInit pid) s = snd (minifs_process_init s pid)"
| "run_call con (CFork p c) s = snd (minifs_process_fork s p c)"
| "run_call con (CCloseAll pid) s = minifs_close_all s pid"
| "run_call con (CSetCloexec pid fd on) s = snd (minifs_set_cloexec s pid fd on)"
| "run_call con (CCloseExec pid) s = minifs_close_exec_fds s pid"
| "run_call con (COpen pid cwd path flags) s = snd (minifs_open s pid cwd path flags)"
| "run_call con (CClose pid fd) s = snd (minifs_close s pid fd)"
| "run_call con (CRead pid fd buf len) s =
     (case minifs_read s con pid fd buf len of None \<Rightarrow> s | Some (_, _, s') \<Rightarrow> s')"
| "run_call con (CWrite pid fd buf len) s = snd (snd (minifs_write s con pid fd buf len))"
| "run_call con (CLseek pid fd off wh) s = snd (minifs_lseek s pid fd off wh)"
| "run_call con (CDup2 pid a b) s = snd (minifs_dup2 s pid a b)"
| "run_call con (CGetdents cwd path null cap) s = snd (minifs_getdents s cwd path null cap)"
| "run_call con (CMkdir cwd path) s = snd (minifs_mkdir s cwd path)"
| "run_call con (CUnlink cwd path) s = snd (minifs_unlink s cwd path)"
| "run_call con (CChdir cwd path new) s = snd (minifs_chdir s cwd path new)"
| "run_call con (CGetcwd cwd buf len) s = snd (minifs_getcwd s cwd buf len)"
| "run_call con (CResolveFile cwd path out) s = snd (minifs_resolve_file s cwd path out)"
| "run_call con (CPread n off buf len) s = snd (minifs_pread s n off buf len)"

text \<open>
  What a caller owes: a child gets a pid of its own, and a buffer to write from is as long as
  the length passed with it.
\<close>

primrec call_ok :: "fs_call \<Rightarrow> bool" where
  "call_ok (CInit pid) = True"
| "call_ok (CFork p c) = (p \<noteq> c)"
| "call_ok (CCloseAll pid) = True"
| "call_ok (CSetCloexec pid fd on) = True"
| "call_ok (CCloseExec pid) = True"
| "call_ok (COpen pid cwd path flags) = True"
| "call_ok (CClose pid fd) = True"
| "call_ok (CRead pid fd buf len) = True"
| "call_ok (CWrite pid fd buf len) = (case buf of None \<Rightarrow> True | Some b \<Rightarrow> unat len \<le> length b)"
| "call_ok (CLseek pid fd off wh) = True"
| "call_ok (CDup2 pid a b) = True"
| "call_ok (CGetdents cwd path null cap) = True"
| "call_ok (CMkdir cwd path) = True"
| "call_ok (CUnlink cwd path) = True"
| "call_ok (CChdir cwd path new) = True"
| "call_ok (CGetcwd cwd buf len) = True"
| "call_ok (CResolveFile cwd path out) = True"
| "call_ok (CPread n off buf len) = True"

section \<open>Reading calls\<close>

lemma chdir_quiet: "quiet s (snd (minifs_chdir s cwd path new))"
  using quiet_trans [OF resolve_quiet [of s cwd path] read_inode_quiet] resolve_quiet [of s cwd path]
  by (simp add: minifs_chdir_def Let_def split_beta)

lemma resolve_file_quiet: "quiet s (snd (minifs_resolve_file s cwd path out))"
  using quiet_trans [OF resolve_quiet [of s cwd path] read_inode_quiet] resolve_quiet [of s cwd path]
  by (simp add: minifs_resolve_file_def Let_def split_beta)

lemma getcwd_quiet: "quiet s (snd (minifs_getcwd s cwd buf len))"
  using getcwd_loop_quiet [of s cwd "[]"]
  by (simp add: minifs_getcwd_def Let_def split_beta split: option.split)

lemma getdents_quiet: "quiet s (snd (minifs_getdents s cwd path null cap))"
proof -
  obtain n s1 where 1: "(if path = None \<or> path = Some [] then (sint cwd, s) else resolve s cwd path) = (n, s1)"
    by (cases "if path = None \<or> path = Some [] then (sint cwd, s) else resolve s cwd path") auto
  have q1: "quiet s s1" using resolve_quiet [of s cwd path] 1 by (auto split: if_splits)
  obtain r ino s2 where 2: "read_inode s1 (of_int n) = ((r, ino), s2)" by (cases "read_inode s1 (of_int n)") auto
  have q2: "quiet s s2" using quiet_trans [OF q1] read_inode_quiet [of s1 "of_int n"] 2 by simp
  show ?thesis
    using q1 q2 quiet_trans [OF q2 getdents_loop_quiet] unfolding minifs_getdents_def 1 by (simp add: 2)
qed

section \<open>Calls that change files\<close>

lemma minifs_read_good: "fs_good s \<Longrightarrow> minifs_read s con pid fd buf len = Some (r, con', s') \<Longrightarrow> fs_good s'"
  using good_disk_step [OF _ quiet_ok [OF minifs_pread_quiet]] good_offset
  by (auto simp: minifs_read_def Let_def split_beta split: option.splits if_splits)

lemma minifs_lseek_good: "fs_good s \<Longrightarrow> fs_good (snd (minifs_lseek s pid fd off wh))"
  using good_disk_step [OF _ quiet_ok [OF read_inode_quiet [of s]]] good_offset
  by (auto simp: minifs_lseek_def Let_def split_beta split: option.splits)

lemma clamp32_le: "unat (clamp32 len) \<le> unat len"
proof (cases "len > 0xffffffff")
  case True
  then show ?thesis by (simp add: clamp32_def word_less_nat_alt)
next
  case False
  have "unat (ucast len :: u32) \<le> unat len" by (simp add: unsigned_ucast_eq take_bit_nat_less_eq_self)
  then show ?thesis using False by (simp add: clamp32_def)
qed

lemma minifs_write_good:
  assumes "fs_good s" "call_ok (CWrite pid fd buf len)"
  shows "fs_good (snd (snd (minifs_write s con pid fd buf len)))"
proof (cases "get_open_file s pid fd")
  case (Some h)
  show ?thesis
  proof (cases buf)
    case (Some b)
    let ?f = "open_files s ! h"
    obtain r ino s1 where 1: "(if of_flags ?f AND 1024 \<noteq> 0 then read_inode s (of_inode ?f) else ((0, zero_inode), s)) = ((r, ino), s1)"
      by (metis surj_pair)
    have g1: "fs_good s1" using good_disk_step [OF assms(1) quiet_ok [OF read_inode_quiet]] assms(1) 1
      by (metis snd_conv)
    define s2 where "s2 = (if of_flags ?f AND 1024 \<noteq> 0 then set_ofd s1 h (\<lambda>f. f\<lparr>of_offset := i_size ino\<rparr>) else s1)"
    have g2: "fs_good s2" using good_offset [OF g1] g1 by (simp add: s2_def)
    obtain w s3 where 3: "write_at s2 (of_inode ?f) (of_offset (open_files s2 ! h)) b (clamp32 len) = (w, s3)"
      by (metis surj_pair)
    have "unat (clamp32 len) \<le> length b" using clamp32_le [of len] assms(2) Some by simp
    then have g3: "fs_good s3" using good_disk_step [OF g2 write_at_ok] 3 by (metis min.coboundedI1 snd_conv)
    have "snd (snd (minifs_write s con pid fd buf len)) = (if of_type ?f = 2 \<or> of_type ?f \<noteq> 3 \<or> of_flags ?f AND 3 = 0 then s
        else if r < 0 then s1 else if w > 0 then set_ofd s3 h (\<lambda>f. f\<lparr>of_offset := of_offset f + of_int w\<rparr>) else s3)"
      using \<open>get_open_file s pid fd = Some h\<close> Some 3 unfolding s2_def
      by (simp add: minifs_write_def Let_def 1)
    then show ?thesis using assms(1) g1 g3 good_offset [OF g3] by simp
  qed (use assms \<open>get_open_file s pid fd = Some h\<close> in \<open>simp add: minifs_write_def\<close>)
qed (use assms in \<open>simp add: minifs_write_def\<close>)

lemma minifs_mkdir_good:
  assumes "fs_good s" shows "fs_good (snd (minifs_mkdir s cwd path))"
proof -
  obtain p nm s1 where 1: "resolve_parent s cwd path = ((p, nm), s1)" by (metis surj_pair)
  have g1: "fs_good s1" using good_disk_step [OF assms quiet_ok [OF resolve_parent_quiet]] 1 by (metis snd_conv)
  then show ?thesis using good_disk_step [OF g1 create_node_ok] by (simp add: minifs_mkdir_def 1 Let_def split_beta)
qed

lemma read_inode_at: "read_inode s n = ((r, ino), s') \<Longrightarrow> \<not> r < 0 \<Longrightarrow> unat n < 256 \<and> ino = inode_at (fs_disk s') (unat n)"
  using read_inode_ok [of n s] by (cases "unat n < 256") (auto simp: read_inode_def)

lemma minifs_unlink_good:
  assumes "fs_good s" shows "fs_good (snd (minifs_unlink s cwd path))"
proof -
  obtain p nm s1 where 1: "resolve_parent s cwd path = ((p, nm), s1)" by (metis surj_pair)
  obtain n e s2 where 2: "dir_lookup s1 (of_int p) nm = ((n, e), s2)" by (metis surj_pair)
  obtain r ino s3 where 3: "read_inode s2 (of_int n) = ((r, ino), s3)" by (metis surj_pair)
  obtain em s4 where 4: "(if is_kind ino 2 then empty_loop ino [0..<entry_count ino] s3 else (True, s3)) = (em, s4)" by (metis surj_pair)
  obtain ino' s5 where 5: "truncate_inode s4 ino = (ino', s5)" by (metis surj_pair)
  obtain w s6 where 6: "write_inode s5 (of_int n) zero_inode = (w, s6)" by (metis surj_pair)
  obtain v s7 where 7: "dir_remove s6 (of_int p) nm = (v, s7)" by (metis surj_pair)
  have q1: "quiet s s1" using resolve_parent_quiet [of s cwd path] 1 by simp
  have q2: "quiet s s2" using quiet_trans [OF q1] dir_lookup_quiet [of s1 "of_int p" nm] 2 by simp
  have q3: "quiet s s3" using quiet_trans [OF q2] read_inode_quiet [of s2 "of_int n"] 3 by simp
  have q34: "quiet s3 s4" using empty_loop_quiet [of s3 ino "[0..<entry_count ino]"] 4 by (auto split: if_splits)
  note g = good_disk_step [OF assms quiet_ok]
  note g4 = g [OF quiet_trans [OF q3 q34]]
  have g6: "fs_good s6" if "\<not> r < 0"
  proof -
    have "unat (of_int n :: u32) < 256" "ino = inode_at (fs_disk s4) (unat (of_int n :: u32))"
      using read_inode_at [OF 3 that] q34 by (simp_all add: quiet_disk)
    then have "disk_step_ok s4 s6" using truncate_write_ok [OF _ _ 5, of _ zero_inode] 6 by fastforce
    then show ?thesis using good_disk_step [OF g4] by blast
  qed
  have g7: "fs_good s7" if "\<not> r < 0" using good_disk_step [OF g6 [OF that] dir_remove_ok] 7 by (metis snd_conv)
  have "snd (minifs_unlink s cwd path) = (if p < 0 then s1 else if n \<le> 0 \<or> inode_is_open s2 (of_int n) then s2
      else if r < 0 then s3 else if \<not> em then s4 else if w < 0 then s6 else if v < 0 then s7
      else free_inode_number s7 (of_int n))"
    unfolding minifs_unlink_def by (simp add: 1 2 3 4 5 6 7 Let_def)
  then show ?thesis
    using g [OF q1] g [OF q2] g [OF q3] g4 g6 g7 good_disk_step [OF g7 free_inode_number_ok] by simp
qed

lemma alloc_failed: "alloc_ofd s ty fl ino = (v, s') \<Longrightarrow> v < 0 \<Longrightarrow> s' = s"
  by (auto simp: alloc_ofd_def split: option.splits)

lemma open_install_good:
  assumes "fs_good t" "p < 16" "pf_used (fd_tables t ! p)"
  shows "fs_good (snd (open_install t p n ino flags))"
proof -
  have "counted t" using assms(1) by (simp add: fs_good_def)
  then obtain v s1 where a: "alloc_ofd t 3 flags n = (v, s1)" "refs_ok s1 (\<lambda>i. 0 + of_bool (v = int i))" "v < 64"
    "fd_tables s1 = fd_tables t" by (rule alloc_ofd_any)
  define s2 where "s2 = (if flags AND 1024 \<noteq> 0 then set_ofd s1 (nat v) (\<lambda>f. f\<lparr>of_offset := i_size ino\<rparr>) else s1)"
  obtain fd s3 where i: "install_fd s2 p v = (fd, s3)" by (metis surj_pair)
  have run: "snd (open_install t p n ino flags) = (if v < 0 then s1 else if fd < 0 then put_ofd s3 v else s3)"
    using a(1) i by (simp add: open_install_def s2_def [symmetric])
  show ?thesis
  proof (cases "v < 0")
    case True
    then show ?thesis using run alloc_failed [OF a(1)] assms(1) by simp
  next
    case False
    have "refs_ok s2 (\<lambda>i. of_bool (v = int i))" using a(2) refs_ok_offset by (simp add: s2_def)
    moreover have "fd_tables s2 = fd_tables t" using a(4) by (simp add: s2_def)
    ultimately have "counted (if fd < 0 then put_ofd s3 v else s3)"
      using install_step [of s2 v p] a(3) assms(2,3) False i by simp
    moreover have "disk_part s1 = disk_part t" "disk_part s3 = disk_part s2"
      using disk_part_tables(8) [of t 3 flags n] disk_part_tables(9) [of s2 p v] a(1) i by simp_all
    then have "disk_part (if fd < 0 then put_ofd s3 v else s3) = disk_part t" by (simp add: s2_def)
    ultimately show ?thesis using good_table_step [OF assms(1)] run False by simp
  qed
qed

lemma open_number_ok: "disk_step_ok s (snd (open_number s cwd path flags))"
proof -
  obtain n s1 where 1: "resolve s cwd path = (n, s1)" by (metis surj_pair)
  obtain pa nm s2 where 2: "resolve_parent s1 cwd path = ((pa, nm), s2)" by (metis surj_pair)
  have k1: "disk_step_ok s s1" using quiet_ok [OF resolve_quiet] 1 by (metis snd_conv)
  have k2: "disk_step_ok s s2" using ok_trans [OF k1 quiet_ok [OF resolve_parent_quiet]] 2 by (metis snd_conv)
  show ?thesis using k1 k2 ok_trans [OF k2 create_node_ok] by (simp add: open_number_def 1 2)
qed

lemma open_trunc_ok:
  assumes "unat n < 256" "inode = inode_at (fs_disk s) (unat n)"
  shows "disk_step_ok s (snd (snd (open_trunc s n inode flags)))"
proof -
  obtain i t where t: "truncate_inode s inode = (i, t)" by (metis surj_pair)
  show ?thesis using truncate_write_ok [OF assms t, of i] by (simp add: open_trunc_def t split_beta)
qed

lemma minifs_open_good:
  assumes "fs_good s" shows "fs_good (snd (minifs_open s pid cwd path flags))"
proof (cases "find_process s pid")
  case (Some p)
  obtain n s1 where 1: "open_number s cwd path flags = (n, s1)" by (metis surj_pair)
  obtain r ino s2 where 2: "read_inode s1 (of_int n) = ((r, ino), s2)" by (metis surj_pair)
  obtain w ino' s3 where 3: "open_trunc s2 (of_int n) ino flags = (w, ino', s3)" by (metis surj_pair)
  have k1: "disk_step_ok s s1" using open_number_ok 1 by (metis snd_conv)
  have k2: "disk_step_ok s s2" using ok_trans [OF k1 quiet_ok [OF read_inode_quiet]] 2 by (metis snd_conv)
  have k3: "disk_step_ok s s3" if "\<not> r < 0"
    using ok_trans [OF k2 open_trunc_ok] read_inode_at [OF 2 that] 3 by (metis snd_conv)
  have "fs_good (snd (open_install s3 p (of_int n) ino' flags))" if "\<not> r < 0"
  proof (rule open_install_good)
    show "fs_good s3" by (rule good_disk_step [OF assms k3 [OF that]])
    show "p < 16" "pf_used (fd_tables s3 ! p)"
      using k3 [OF that] assms find_processD [OF Some] by (auto simp: disk_step_ok_def fs_good_def)
  qed
  then show ?thesis
    using assms good_disk_step [OF assms] k1 k2 k3 by (simp add: minifs_open_def Some 1 2 3)
qed (use assms in \<open>simp add: minifs_open_def\<close>)

section \<open>Histories\<close>

lemma run_call_good:
  assumes "fs_good s" "call_ok c"
  shows "fs_good (run_call con c s)"
proof (cases c)
  case (CInit pid)
  have "counted s" using assms(1) by (simp add: fs_good_def)
  then have "counted (snd (minifs_process_init s pid))"
    by (cases rule: minifs_process_init_spec [where pid = pid]) simp_all
  then show ?thesis using CInit good_table_step [OF assms(1)] by simp
next
  case (CFork p ch)
  have "counted s" "p \<noteq> ch" using assms CFork by (simp_all add: fs_good_def)
  then have "counted (snd (minifs_process_fork s p ch))"
    by (cases rule: minifs_process_fork_spec) simp_all
  then show ?thesis using CFork good_table_step [OF assms(1)] by simp
next
  case (CRead pid fd buf len)
  then show ?thesis using assms(1) minifs_read_good by (auto split: option.split)
next
  case (CWrite pid fd buf len)
  then show ?thesis using minifs_write_good assms by simp
qed (use assms(1) good_table_step [OF assms(1)] good_disk_step [OF assms(1) quiet_ok] minifs_close_all_counted
      minifs_set_cloexec_counted minifs_close_exec_fds_counted minifs_open_good minifs_close_counted minifs_lseek_good
      minifs_dup2_counted getdents_quiet minifs_mkdir_good minifs_unlink_good chdir_quiet getcwd_quiet resolve_file_quiet
      minifs_pread_quiet in \<open>auto simp: fs_good_def\<close>)

text \<open>The bitmap a formatted disk carries, and what its structure must satisfy.\<close>

definition bitmap_of :: "disk \<Rightarrow> u8 list" where
  "bitmap_of d = d 2 @ d 3 @ d 4 @ d 5"

definition image_ok :: "disk \<Rightarrow> bool" where
  "image_ok d \<longleftrightarrow> super_ok (d 0) \<and> fs_inv \<lparr>fs_disk = d, open_files = [], fd_tables = [],
     block_buffer = [], indirect_buffer = [], bitmap_buffer = bitmap_of d\<rparr>"

lemma load_bitmap_all:
  assumes "disk_ok (fs_disk s)" "length (bitmap_buffer s) = 2048"
  shows "load_bitmap [0..<4] s = (0, s\<lparr>bitmap_buffer := bitmap_of (fs_disk s)\<rparr>)"
proof -
  have d: "length (fs_disk s x) = 512" for x using assms(1) by (simp add: disk_ok_def)
  have u: "[0..<4] = [0, 1, 2, 3 :: nat]" by (simp add: upt_rec)
  have "copy_bytes (copy_bytes (copy_bytes (copy_bytes bm 0 (fs_disk s 2)) 512 (fs_disk s 3)) 1024 (fs_disk s 4)) 1536 (fs_disk s 5)
      = bitmap_of (fs_disk s)" if "length bm = 2048" for bm
    using that d by (simp add: copy_bytes_def bitmap_of_def)
  then show ?thesis using assms(2) by (simp add: u disk_read_def sector_le)
qed

lemma no_descriptors:
  assumes "open_files s = replicate 64 empty_ofd" "fd_tables s = replicate 16 empty_fds"
  shows "counted s"
proof -
  have "refs s i = 0" for i using assms(2) by (simp add: refs_def held_def empty_fds_def sum_list_replicate)
  then show ?thesis
    using assms by (simp add: refs_ok_def tables_ok_def fd_of_def empty_ofd_def empty_fds_def)
qed

lemma minifs_init_good:
  assumes "image_ok (fs_disk s)" "length (bitmap_buffer s) = 2048"
  shows "fst (minifs_init s) = 0" "fs_good (snd (minifs_init s))"
proof -
  let ?s = "s\<lparr>open_files := replicate 64 empty_ofd, fd_tables := replicate 16 empty_fds, block_buffer := fs_disk s 0,
    bitmap_buffer := bitmap_of (fs_disk s)\<rparr>"
  have d: "disk_ok (fs_disk s)" using assms(1) by (simp add: image_ok_def fs_inv_def inv_def)
  have run: "minifs_init s = (0, ?s)"
    using assms load_bitmap_all [of "s\<lparr>open_files := replicate 64 empty_ofd, fd_tables := replicate 16 empty_fds, block_buffer := fs_disk s 0\<rparr>"] d
    by (simp add: minifs_init_def image_ok_def del: upt_rec_numeral)
  then show "fst (minifs_init s) = 0" by simp
  have "fs_inv ?s" using assms(1) fs_inv_disk_part [of ?s "\<lparr>fs_disk = fs_disk s, open_files = [], fd_tables = [],
     block_buffer = [], indirect_buffer = [], bitmap_buffer = bitmap_of (fs_disk s)\<rparr>"]
    by (simp add: image_ok_def disk_part_def)
  then show "fs_good (snd (minifs_init s))" using run no_descriptors [of ?s] by (simp add: fs_good_def)
qed

text \<open>
  C11. The invariants of the file system hold in every history.  Start from a disk whose
  structure is sound and run minifs_init and then any sequence of file-system calls, with any
  console input: every block a file refers to is a data block marked in the bitmap and belongs
  to that file alone, the bitmap in memory equals the one on disk, and every open file has as
  many references as there are descriptors for it.
\<close>

theorem fs_history:
  assumes "image_ok (fs_disk s)" "length (bitmap_buffer s) = 2048" "list_all (\<lambda>(con, c). call_ok c) calls"
  shows "fst (minifs_init s) = 0 \<and>
    fs_good (fold (\<lambda>(con, c). run_call con c) calls (snd (minifs_init s)))"
proof -
  have "fs_good (fold (\<lambda>(con, c). run_call con c) calls t)" if "fs_good t" for t
    using that assms(3) by (induction calls arbitrary: t) (auto intro!: run_call_good)
  then show ?thesis using minifs_init_good [OF assms(1,2)] by blast
qed

definition sample_super :: "u8 list" where
  "sample_super = concat (map enc32 [0x4d465332, 2, 15360, 256, 1, 1, 2, 4, 6, 32, 38, 65536]) @ replicate 464 0"

definition sample_fs :: fs where
  "sample_fs = one_file_fs\<lparr>fs_disk := (fs_disk one_file_fs)(0 := sample_super)\<rparr>"

lemma sample_super_ok: "super_ok sample_super" "length sample_super = 512"
proof -
  let ?ws = "[0x4d465332, 2, 15360, 256, 1, 1, 2, 4, 6, 32, 38, 65536] :: u32 list"
  have w: "get32 sample_super (4 * i) = ?ws ! i" if "i < 12" for i
  proof -
    have "get32 sample_super (4 * i) = get32 (concat (map enc32 ?ws)) (4 * i)"
      unfolding sample_super_def
      by (rule get32_cong) (use that length_concat_enc32 [of ?ws] in \<open>simp add: nth_append del: concat.simps list.map\<close>)
    then show ?thesis using get32_concat [of i ?ws] that by simp
  qed
  show "super_ok sample_super" unfolding super_ok_def using w [of 0] w [of 1] w [of 2] w [of 3] w [of 10] w [of 11] by simp
  show "length sample_super = 512" using length_concat_enc32 [of ?ws] by (simp add: sample_super_def)
qed

lemma sample_image: "image_ok (fs_disk sample_fs)"
proof -
  let ?t = "\<lparr>fs_disk = fs_disk sample_fs, open_files = [], fd_tables = [], block_buffer = [], indirect_buffer = [],
    bitmap_buffer = bitmap_of (fs_disk sample_fs)\<rparr>"
  have bm: "bitmap_of (fs_disk sample_fs) = bitmap_buffer one_file_fs"
    by (simp add: bitmap_of_def sample_fs_def one_file_fs_def replicate_add [symmetric])
  have inv0: "inv one_file_fs (inode_at (fs_disk one_file_fs))" using one_file_inv by (simp add: fs_inv_def)
  have i1: "inv ?t (inode_at (fs_disk one_file_fs))"
  proof (rule inv_meta(1) [OF inv0])
    show "disk_ok (fs_disk ?t)" using fs_invD [OF one_file_inv] sample_super_ok(2) by (simp add: disk_ok_def sample_fs_def)
    show "fs_disk ?t x = fs_disk one_file_fs x" if "\<not> meta x" for x using that by (auto simp: sample_fs_def meta_iff)
  qed (simp add: bm)
  have at: "inode_at (fs_disk sample_fs) n = inode_at (fs_disk one_file_fs) n" if "n < 256" for n
  proof -
    have "unat (6 + of_nat (n div 8) :: u32) \<noteq> unat (0 :: u32)" unfolding unat_inode_sector [OF that] by simp
    then have "6 + of_nat (n div 8) \<noteq> (0 :: u32)" by metis
    then show ?thesis by (simp add: inode_at_def sample_fs_def)
  qed
  have "inv ?t (inode_at (fs_disk sample_fs))" by (rule inv_cong [OF i1]) (rule at [symmetric])
  then have "fs_inv ?t" unfolding fs_inv_def by simp
  then show ?thesis using sample_super_ok(1) by (simp add: image_ok_def sample_fs_def)
qed

theorem fs_history_witness:
  "fst (minifs_init sample_fs) = 0 \<and>
   fs_good (fold (\<lambda>(con, c). run_call con c)
     [(\<lparr>con_in = [], con_out = []\<rparr>, CInit 1), (\<lparr>con_in = [], con_out = []\<rparr>, CFork 1 2),
      (\<lparr>con_in = [], con_out = []\<rparr>, CMkdir 0 (Some [97])), (\<lparr>con_in = [], con_out = []\<rparr>, COpen 2 0 (Some [47, 98]) 0x41),
      (\<lparr>con_in = [], con_out = []\<rparr>, CWrite 2 3 (Some [1, 2, 3]) 3)]
     (snd (minifs_init sample_fs)))"
  by (rule fs_history) (simp_all add: sample_image, simp add: sample_fs_def one_file_fs_def)

section \<open>Single calls\<close>

text \<open>
  C12. A write touches one file only.  Writing through write_at to inode n leaves the inode and
  the contents of every other file, all open files and all descriptor tables as they were; in
  file n it changes the positions written, and elsewhere at most turns a hole into zeros.
\<close>

theorem write_at_frame:
  assumes "fs_inv s" "unat n < 256" "is_kind (inode_at (fs_disk s) (unat n)) 1"
    "unat offset + length data \<le> 65536" "data \<noteq> []" "write_at s n offset data (of_nat (length data)) = (r, s')"
  shows "open_files s' = open_files s \<and> fd_tables s' = fd_tables s \<and>
    (\<forall>m < 256. m \<noteq> unat n \<longrightarrow> inode_at (fs_disk s') m = inode_at (fs_disk s) m \<and>
       file_byte (fs_disk s') (inode_at (fs_disk s') m) = file_byte (fs_disk s) (inode_at (fs_disk s) m)) \<and>
    (\<forall>k. \<not> (unat offset \<le> k \<and> k < unat offset + nat r) \<longrightarrow>
       grows (file_byte (fs_disk s) (inode_at (fs_disk s) (unat n)) k)
         (file_byte (fs_disk s') (inode_at (fs_disk s') (unat n)) k))"
proof -
  have l: "unat (of_nat (length data) :: u32) = length data" using assms(4) by (intro unat_of_nat_u32) simp
  have dl: "0 < length data" using assms(5) by simp
  have off: "unat offset < 65536" using assms(4) dl by linarith
  have le: "min (unat (of_nat (length data) :: u32)) (65536 - unat offset) = length data" using assms(4) l by simp
  show ?thesis
    by (rule write_at_spec [OF assms(1-3) off, of "of_nat (length data)" data, unfolded le, OF order_refl])
      (use assms(6) in \<open>auto simp: wrote_def fun_eq_iff\<close>)
qed

theorem write_at_frame_witness:
  "inode_at (fs_disk (snd (write_at one_file_fs 1 0 [1, 2, 3] 3))) 2 = zero_inode"
proof -
  have "is_kind (inode_at (fs_disk one_file_fs) (unat (1 :: u32))) 1" by (simp add: one_file_inode is_kind_def)
  from write_at_frame [OF one_file_inv _ this, of 0 "[1, 2, 3]" "fst (write_at one_file_fs 1 0 [1, 2, 3] 3)"
    "snd (write_at one_file_fs 1 0 [1, 2, 3] 3)"] show ?thesis by (simp add: one_file_inode)
qed

end
