(* ===== verification/Os_Syscall.thy ===== *)
theory Os_Syscall
  imports Os_Exec Fs_History
begin

text \<open>
  System calls (\<^verbatim>\<open>kernel/syscall.c\<close>).  None is a call that does not return: a console read that waits for input that never
  comes, or a range check that never ends; or a call with undefined behaviour (a fork at the greatest process id).  The static buffers \<^verbatim>\<open>io_buffer\<close>, \<^verbatim>\<open>path_buffer\<close> and those of \<^verbatim>\<open>execve\<close> are
  overwritten before they are read and are local values here; \<^verbatim>\<open>dirent_buffer\<close> and \<^verbatim>\<open>process_buffer\<close> keep old bytes behind the
  names and are part of the state.
\<close>

abbreviation fail :: u64 where "fail \<equiv> -1"

text \<open>\<^verbatim>\<open>(int)x\<close> and \<^verbatim>\<open>(uint64_t)i\<close>.\<close>

definition to_int :: "u64 \<Rightarrow> int" where
  "to_int x = sint (ucast x :: u32)"

section \<open>Copying\<close>

definition copy_in :: "kernel \<Rightarrow> u8 list \<Rightarrow> u64 \<Rightarrow> u64 \<Rightarrow> (int \<times> u8 list) option" where
  "copy_in k destination source len =
     (if task_current_address_space k \<noteq> None
      then copy_from_user (task_current_address_space k) destination source len (k_mem k)
      else Some (0, copy_bytes destination 0 (get_bytes (ram_bytes (k_mem k)) source (unat len))))"

definition copy_out :: "u64 \<Rightarrow> u8 list \<Rightarrow> u64 \<Rightarrow> kernel \<Rightarrow> (int \<times> kernel) option" where
  "copy_out destination source len k =
     (if task_current_address_space k \<noteq> None
      then map_option (\<lambda>(r, m). (r, k\<lparr>k_mem := m\<rparr>))
             (copy_to_user (task_current_address_space k) destination source len (k_mem k))
      else Some (0, k\<lparr>k_mem := write_ram (put_bytes destination (bytes_at source 0 (unat len))) (k_mem k)\<rparr>))"

primrec string_loop :: "bytes \<Rightarrow> u64 \<Rightarrow> nat list \<Rightarrow> u8 list \<Rightarrow> int option \<times> u8 list" where
  "string_loop m source [] destination = (None, destination)"
| "string_loop m source (i # is) destination =
     (let c = m (source + of_nat i);
          destination = destination[i := c]
      in if c = 0 then (Some (int i), destination) else string_loop m source is destination)"

definition copy_string_in :: "kernel \<Rightarrow> u8 list \<Rightarrow> u64 \<Rightarrow> nat \<Rightarrow> (int \<times> u8 list) option" where
  "copy_string_in k destination source capacity =
     (if task_current_address_space k \<noteq> None
      then copy_string_from_user (task_current_address_space k) destination source capacity (k_mem k)
      else Some (case string_loop (ram_bytes (k_mem k)) source [0..<capacity] destination of
          (Some r, destination) \<Rightarrow> (r, destination) | (None, destination) \<Rightarrow> (-1, destination[capacity - 1 := 0])))"

definition copy_path :: "kernel \<Rightarrow> u64 \<Rightarrow> (int \<times> cstr) option" where
  "copy_path k user_path =
     (if user_path = 0 then Some (-1, [])
      else map_option (\<lambda>(r, b). (r, cstr_of b)) (copy_string_in k (replicate 256 0) user_path 256))"

section \<open>Files\<close>

text \<open>\<open>dn\<close> bytes are done of \<open>len\<close>.\<close>

definition some_done :: "nat \<Rightarrow> u64" where
  "some_done dn = (if dn = 0 then fail else of_nat dn)"

function write_chunks :: "u64 \<Rightarrow> u64 \<Rightarrow> nat \<Rightarrow> nat \<Rightarrow> kernel \<Rightarrow> (u64 \<times> kernel) option" where
  "write_chunks fd user_buffer dn len k =
     (if dn < len then
        let chunk = min (len - dn) 512
        in case copy_in k (replicate 512 0) (user_buffer + of_nat dn) (of_nat chunk) of None \<Rightarrow> None
           | Some (r, io_buffer) \<Rightarrow>
             if r < 0 then Some (some_done dn, k)
             else let (written, con, s) = minifs_write (k_fs k) (k_con k) (task_current_pid k) (to_int fd) (Some io_buffer) (of_nat chunk);
                      k = k\<lparr>k_con := con, k_fs := s\<rparr>
               in if written < 0 then Some (some_done dn, k)
                  else if nat written < chunk then Some (of_nat (dn + nat written), k)
                  else write_chunks fd user_buffer (dn + nat written) len k
      else Some (of_nat dn, k))"
  by auto
termination
  by (relation "measure (\<lambda>(fd, user_buffer, dn, len, k). len - dn)") auto

declare write_chunks.simps [simp del]

definition sys_write :: "u64 \<Rightarrow> u64 \<Rightarrow> u64 \<Rightarrow> kernel \<Rightarrow> (u64 \<times> kernel) option" where
  "sys_write fd user_buffer len k =
     (if len = 0 then Some (0, k) else if user_buffer = 0 then Some (fail, k) else write_chunks fd user_buffer 0 (unat len) k)"

function read_chunks :: "u64 \<Rightarrow> u64 \<Rightarrow> nat \<Rightarrow> nat \<Rightarrow> kernel \<Rightarrow> (u64 \<times> kernel) option" where
  "read_chunks fd user_buffer dn len k =
     (if dn < len then
        let chunk = min (len - dn) 512
        in case minifs_read (k_fs k) (k_con k) (task_current_pid k) (to_int fd) (Some (replicate 512 0)) (of_nat chunk) of None \<Rightarrow> None
           | Some ((received, io_buffer), con, s) \<Rightarrow>
             let k = k\<lparr>k_con := con, k_fs := s\<rparr>
             in if received < 0 then Some (some_done dn, k)
                else if received = 0 then Some (of_nat dn, k)
                else case copy_out (user_buffer + of_nat dn) (the io_buffer) (of_int received) k of None \<Rightarrow> None
                  | Some (r, k) \<Rightarrow>
                    if r < 0 then Some (some_done dn, k)
                    else if nat received < chunk then Some (of_nat (dn + nat received), k)
                    else read_chunks fd user_buffer (dn + nat received) len k
      else Some (of_nat dn, k))"
  by auto
termination
  by (relation "measure (\<lambda>(fd, user_buffer, dn, len, k). len - dn)") auto

declare read_chunks.simps [simp del]

definition sys_read :: "u64 \<Rightarrow> u64 \<Rightarrow> u64 \<Rightarrow> kernel \<Rightarrow> (u64 \<times> kernel) option" where
  "sys_read fd user_buffer len k =
     (if len = 0 then Some (0, k) else if user_buffer = 0 then Some (fail, k) else read_chunks fd user_buffer 0 (unat len) k)"

text \<open>A call of the file system on a path.\<close>

definition path_call :: "u64 \<Rightarrow> (cstr \<Rightarrow> int \<times> fs) \<Rightarrow> kernel \<Rightarrow> (u64 \<times> kernel) option" where
  "path_call user_path call k =
     (case copy_path k user_path of None \<Rightarrow> None
      | Some (r, path) \<Rightarrow>
        if r < 0 then Some (fail, k) else let (r, s) = call path in Some (of_int r, k\<lparr>k_fs := s\<rparr>))"

definition sys_open :: "u64 \<Rightarrow> u64 \<Rightarrow> kernel \<Rightarrow> (u64 \<times> kernel) option" where
  "sys_open user_path flags k =
     path_call user_path (\<lambda>path. minifs_open (k_fs k) (task_current_pid k) (task_current_cwd k) (Some path) (to_int flags)) k"

definition sys_mkdir :: "u64 \<Rightarrow> kernel \<Rightarrow> (u64 \<times> kernel) option" where
  "sys_mkdir user_path k = path_call user_path (\<lambda>path. minifs_mkdir (k_fs k) (task_current_cwd k) (Some path)) k"

definition sys_unlink :: "u64 \<Rightarrow> kernel \<Rightarrow> (u64 \<times> kernel) option" where
  "sys_unlink user_path k = path_call user_path (\<lambda>path. minifs_unlink (k_fs k) (task_current_cwd k) (Some path)) k"

definition put_dirent :: "nat \<Rightarrow> minifs_dirent \<Rightarrow> u8 list \<Rightarrow> u8 list" where
  "put_dirent i e buf = copy_bytes buf (64 * i) (enc32 (de_inode e) @ enc32 (de_mode e) @ de_name e)"

definition sys_getdents :: "u64 \<Rightarrow> u64 \<Rightarrow> u64 \<Rightarrow> kernel \<Rightarrow> (u64 \<times> kernel) option" where
  "sys_getdents user_path user_entries capacity k =
     (case (if user_path = 0 then Some (0, None) else map_option (\<lambda>(r, p). (r, Some p)) (copy_path k user_path)) of None \<Rightarrow> None
      | Some (r, path) \<Rightarrow>
        if r < 0 then Some (fail, k)
        else let capacity = (if capacity > 128 then 128 else capacity);
                 ((count, entries), s) = minifs_getdents (k_fs k) (task_current_cwd k) path False (to_int capacity);
                 k = k\<lparr>k_fs := s, dirent_buffer :=
                       for_each (length entries) (\<lambda>i. put_dirent i (entries ! i)) (dirent_buffer k)\<rparr>
          in if count < 0 then Some (fail, k)
             else let bytes = of_int count * 64
               in if bytes = 0 then Some (of_int count, k)
                  else case copy_out user_entries (dirent_buffer k) bytes k of None \<Rightarrow> None
                    | Some (r, k) \<Rightarrow> Some (if r < 0 then fail else of_int count, k))"

definition sys_chdir :: "u64 \<Rightarrow> kernel \<Rightarrow> (u64 \<times> kernel) option" where
  "sys_chdir user_path k =
     (case copy_path k user_path of None \<Rightarrow> None
      | Some (r, path) \<Rightarrow>
        if r < 0 then Some (fail, k)
        else let ((r, cwd), s) = minifs_chdir (k_fs k) (task_current_cwd k) (Some path) (Some 0);
                 k = k\<lparr>k_fs := s\<rparr>
          in if r < 0 then Some (fail, k) else Some (0, task_set_current_cwd (the cwd) k))"

definition sys_getcwd :: "u64 \<Rightarrow> u64 \<Rightarrow> kernel \<Rightarrow> (u64 \<times> kernel) option" where
  "sys_getcwd user_buffer len k =
     (if len = 0 \<or> len > 256 then Some (fail, k)
      else let ((r, buf), s) = minifs_getcwd (k_fs k) (task_current_cwd k) (Some (replicate 256 0)) 256;
               k = k\<lparr>k_fs := s\<rparr>
        in if r < 0 \<or> of_int r + 1 > len then Some (fail, k)
           else case copy_out user_buffer (the buf) (of_int r + 1) k of None \<Rightarrow> None
             | Some (c, k) \<Rightarrow> Some (if c < 0 then fail else of_int r, k))"

section \<open>Processes\<close>

text \<open>When the idle task exits, the code stops the machine and loops.\<close>

definition sys_exit :: "u64 \<Rightarrow> kernel \<Rightarrow> kernel" where
  "sys_exit code k =
     (let k = task_exit (to_int code) k
      in if task_current_state k \<noteq> TASK_ZOMBIE then k\<lparr>halted := True\<rparr> else k)"

definition sys_waitpid :: "u64 \<Rightarrow> u64 \<Rightarrow> u64 \<Rightarrow> kernel \<Rightarrow> (u64 \<times> kernel) option" where
  "sys_waitpid pid user_status options k =
     (let ((result, status), k) = task_waitpid (to_int pid) (options AND 1 \<noteq> 0) k
      in if result > 0 \<and> user_status \<noteq> 0 then
           (case copy_out user_status (enc32 (of_int (case status of None \<Rightarrow> 0 | Some c \<Rightarrow> c))) 4 k of None \<Rightarrow> None
            | Some (r, k) \<Rightarrow> Some (if r < 0 then fail else of_int result, k))
         else Some (of_int result, k))"

definition sys_fork :: "u64 list \<Rightarrow> kernel \<Rightarrow> (u64 \<times> kernel) option" where
  "sys_fork tf k =
     (case task_current_address_space k of None \<Rightarrow> Some (fail, k)
      | Some parent \<Rightarrow>
        let ((r, child), m) = user_space_clone (k_tables k) zero_space parent (k_mem k); k = k\<lparr>k_mem := m\<rparr>
        in if r < 0 then Some (fail, k)
           else case task_fork_from_trap tf (trap_read SEPC k + 4) child k of None \<Rightarrow> None
             | Some (pid, k) \<Rightarrow>
               Some (if pid < 0 then (let (space, m) = user_space_destroy child (k_mem k) in (fail, k\<lparr>k_mem := m\<rparr>))
                     else (of_int pid, k)))"

text \<open>A vector of strings; the inner None is the result -1.\<close>

primrec vector_loop :: "kernel \<Rightarrow> u64 \<Rightarrow> nat list \<Rightarrow> int \<Rightarrow> cstr list \<Rightarrow> (bool \<times> cstr list \<times> int) option option" where
  "vector_loop k user_vector [] total_bytes strings = Some (Some (False, strings, total_bytes))"
| "vector_loop k user_vector (i # is) total_bytes strings =
     (case copy_in k (replicate 8 0) (user_vector + of_nat i * 8) 8 of None \<Rightarrow> None
      | Some (r, pointer) \<Rightarrow>
        if r < 0 then Some None
        else if get64 pointer 0 = 0 then Some (Some (True, strings, total_bytes))
        else case copy_string_in k (replicate 128 0) (get64 pointer 0) 128 of None \<Rightarrow> None
          | Some (len, b) \<Rightarrow>
            if len < 0 \<or> total_bytes + len + 1 > 2048 then Some None
            else vector_loop k user_vector is (total_bytes + len + 1) (strings @ [cstr_of b]))"

definition copy_string_vector :: "kernel \<Rightarrow> u64 \<Rightarrow> nat \<Rightarrow> int \<Rightarrow> (cstr list \<times> int) option option" where
  "copy_string_vector k user_vector maximum total_bytes =
     (if user_vector = 0 then Some (Some ([], total_bytes))
      else case vector_loop k user_vector [0..<maximum] total_bytes [] of None \<Rightarrow> None
        | Some None \<Rightarrow> Some None
        | Some (Some (True, strings, total_bytes)) \<Rightarrow> Some (Some (strings, total_bytes))
        | Some (Some (False, strings, total_bytes)) \<Rightarrow>
          (case copy_in k (replicate 8 0) (user_vector + of_nat maximum * 8) 8 of None \<Rightarrow> None
           | Some (r, terminator) \<Rightarrow>
             Some (if r < 0 \<or> get64 terminator 0 \<noteq> 0 then None else Some (strings, total_bytes))))"

definition sys_execve :: "u64 list \<Rightarrow> u64 \<Rightarrow> u64 \<Rightarrow> u64 \<Rightarrow> kernel \<Rightarrow> ((int \<times> u64 list) \<times> kernel) option" where
  "sys_execve tf user_path user_argv user_envp k =
     (case copy_path k user_path of None \<Rightarrow> None
      | Some (r, path) \<Rightarrow>
        if r < 0 then Some ((-1, tf), k)
        else case copy_string_vector k user_argv 16 0 of None \<Rightarrow> None
          | Some None \<Rightarrow> Some ((-1, tf), k)
          | Some (Some (argv, total_bytes)) \<Rightarrow>
            (case copy_string_vector k user_envp 8 total_bytes of None \<Rightarrow> None
             | Some None \<Rightarrow> Some ((-1, tf), k)
             | Some (Some (envp, total_bytes)) \<Rightarrow>
               let argv = (if argv = [] then [path] else argv);
                   ((r, tf), k) = user_execve tf path (Some argv) (Some envp) k
               in if r < 0 then Some ((-1, tf), k)
                  else let k = k\<lparr>k_fs := minifs_close_exec_fds (k_fs k) (task_current_pid k)\<rparr>
                    in Some ((0, tf), task_set_current_name (Some path) k)))"

definition state_code :: "task_state \<Rightarrow> u32" where
  "state_code s = (case s of TASK_UNUSED \<Rightarrow> 0 | TASK_READY \<Rightarrow> 1 | TASK_RUNNING \<Rightarrow> 2 | TASK_BLOCKED \<Rightarrow> 3 | TASK_ZOMBIE \<Rightarrow> 4)"

definition put_info :: "nat \<Rightarrow> task_info \<Rightarrow> u8 list \<Rightarrow> u8 list" where
  "put_info i e buf =
     (let buf = copy_bytes buf (48 * i) (enc32 (of_int (ti_pid e)) @ enc32 (of_int (ti_ppid e)) @ enc32 (state_code (ti_state e)))
      in copy_bytes buf (48 * i + 16) (enc64 (ti_runtime_ticks e) @ enc64 (ti_context_switches e) @ ti_name e @ [0]))"

definition sys_ps :: "u64 \<Rightarrow> u64 \<Rightarrow> kernel \<Rightarrow> (u64 \<times> kernel) option" where
  "sys_ps user_entries capacity k =
     (let capacity = (if capacity > 16 then 16 else capacity);
          (count, entries) = task_get_processes k (to_int capacity);
          k = k\<lparr>process_buffer := for_each (length entries) (\<lambda>i. put_info i (entries ! i)) (process_buffer k)\<rparr>
      in if count < 0 then Some (fail, k)
         else case copy_out user_entries (process_buffer k) (of_int count * 48) k of None \<Rightarrow> None
           | Some (r, k) \<Rightarrow> Some (if r < 0 then fail else of_int count, k))"

section \<open>Dispatch\<close>

text \<open>A call that only returns a value stores it in a0.\<close>

definition answer :: "u64 list \<Rightarrow> (u64 \<times> kernel) option \<Rightarrow> ((int \<times> u64 list) \<times> kernel) option" where
  "answer tf r = map_option (\<lambda>(v, k). ((0, tf[10 := v]), k)) r"

definition fs_answer :: "u64 list \<Rightarrow> kernel \<Rightarrow> int \<times> fs \<Rightarrow> ((int \<times> u64 list) \<times> kernel) option" where
  "fs_answer tf k rs = answer tf (Some (of_int (fst rs), k\<lparr>k_fs := snd rs\<rparr>))"

definition syscall_dispatch :: "u64 list \<Rightarrow> kernel \<Rightarrow> ((int \<times> u64 list) \<times> kernel) option" where
  "syscall_dispatch tf k =
     (let number = tf ! 17; arg0 = tf ! 10; arg1 = tf ! 11; arg2 = tf ! 12; pid = task_current_pid k
      in if number = 63 then answer tf (sys_read arg0 arg1 arg2 k)
         else if number = 64 then answer tf (sys_write arg0 arg1 arg2 k)
         else if number = 93 then Some ((0, tf), sys_exit arg0 k)
         else if number = 95 then answer tf (sys_waitpid (-1) 0 0 k)
         else if number = 260 then answer tf (sys_waitpid arg0 arg1 arg2 k)
         else if number = 220 then answer tf (sys_fork tf k)
         else if number = 221 then
           (case sys_execve tf arg0 arg1 arg2 k of None \<Rightarrow> None
            | Some ((r, tf), k) \<Rightarrow> if r = 0 then Some ((1, tf), k) else answer tf (Some (fail, k)))
         else if number = 124 then Some ((2, tf), k)
         else if number = 56 then answer tf (sys_open arg0 arg1 k)
         else if number = 57 then fs_answer tf k (minifs_close (k_fs k) pid (to_int arg0))
         else if number = 62 then fs_answer tf k (minifs_lseek (k_fs k) pid (to_int arg0) (sint arg1) (to_int arg2))
         else if number = 24 then fs_answer tf k (minifs_dup2 (k_fs k) pid (to_int arg0) (to_int arg1))
         else if number = 61 then answer tf (sys_getdents arg0 arg1 arg2 k)
         else if number = 34 then answer tf (sys_mkdir arg0 k)
         else if number = 35 then answer tf (sys_unlink arg0 k)
         else if number = 402 then answer tf (sys_chdir arg0 k)
         else if number = 403 then answer tf (sys_getcwd arg0 arg1 k)
         else if number = 400 then answer tf (sys_ps arg0 arg1 k)
         else if number = 405 then
           (let signal = (if arg1 = 0 then 15 else to_int arg1)
            in if signal \<noteq> 9 \<and> signal \<noteq> 15 then answer tf (Some (fail, k))
               else let (r, k) = task_kill (to_int arg0) (128 + signal) k in answer tf (Some (of_int r, k)))
         else if number = 406 then fs_answer tf k (minifs_set_cloexec (k_fs k) pid (to_int arg0) (to_int arg1 \<noteq> 0))
         else answer tf (Some (fail, k)))"

end
