(* ===== verification/Os_Trap.thy ===== *)
theory Os_Trap
  imports Os_Syscall
begin

text \<open>
  The timer (\<^verbatim>\<open>kernel/timer.c\<close>), the trap handler (\<^verbatim>\<open>kernel/trap.c\<close>), and the start of the kernel (\<^verbatim>\<open>kernel/kernel.c\<close> without
  the boot diagnostics, which the default build leaves out).
\<close>

section \<open>Timer\<close>

definition arm_timer :: "kernel \<Rightarrow> kernel" where
  "arm_timer k = k\<lparr>k_clint := (k_clint k)\<lparr>clint_mtimecmp := clint_mtime (k_clint k) + timer_interval k\<rparr>\<rparr>"

definition timer_init :: "kernel \<Rightarrow> kernel" where
  "timer_init k = (let k = arm_timer k in trap_write SIE (trap_read SIE k OR 0x20) k)"

definition timer_handle :: "kernel \<Rightarrow> kernel" where
  "timer_handle k = arm_timer (k\<lparr>tick_count := tick_count k + 1\<rparr>)"

definition timer_set_interval :: "u64 \<Rightarrow> kernel \<Rightarrow> kernel" where
  "timer_set_interval interval k = arm_timer (k\<lparr>timer_interval := (if interval = 0 then 1 else interval)\<rparr>)"

definition timer_set_timeslice_ms :: "u32 \<Rightarrow> kernel \<Rightarrow> kernel" where
  "timer_set_timeslice_ms milliseconds k =
     (let ms = (if milliseconds = 0 then 1 else milliseconds)
      in (timer_set_interval (ucast ms * 5000) k)\<lparr>timeslice_ms := ms\<rparr>)"

section \<open>Traps\<close>

definition trap_banner :: "bool \<Rightarrow> kernel \<Rightarrow> kernel" where
  "trap_banner mute k =
     (if mute then k
      else kprint ''stval:  %lx\<newline>'' [VNum (trap_read STVAL k)]
        (kprint ''sepc:   %lx\<newline>'' [VNum (trap_read SEPC k)]
          (kprint ''scause: %lx\<newline>'' [VNum (trap_read SCAUSE k)]
            (kprint ''=== TRAP ===\<newline>'' [] k))))"

definition say :: "bool \<Rightarrow> string \<Rightarrow> varg list \<Rightarrow> kernel \<Rightarrow> kernel" where
  "say mute fmt args k = (if mute then k else kprint fmt args k)"

definition interrupt_handler :: "u64 \<Rightarrow> u64 list \<Rightarrow> kernel \<Rightarrow> u64 list \<times> kernel" where
  "interrupt_handler now tf k =
     (let cause = trap_read SCAUSE k;
          irq_code = cause AND 0x7fffffffffffffff;
          mute = trap_silent k;
          k = trap_banner mute k;
          head = kprint ''Type: Interrupt (%lx)\<newline>'' [VNum cause]
      in if irq_code = 5 then
           let k = say mute ''  -> Supervisor timer interrupt\<newline>'' [] (say mute ''Type: Interrupt (%lx)\<newline>'' [VNum cause] k);
               k = timer_handle k;
               ((switched, tf), k) = sched_tick now tf k;
               k = say mute ''=== TRAP END ===\<newline>'' [] k
           in (tf, task_prepare_trap_return k)
         else
           let k = kprint (if irq_code = 1 then ''  -> Supervisor software interrupt\<newline>''
                           else if irq_code = 9 then ''  -> Supervisor external interrupt\<newline>''
                           else ''  -> Unknown interrupt\<newline>'') [] (head k);
               k = say mute ''=== TRAP END ===\<newline>'' [] k
           in (tf, task_prepare_trap_return k))"

text \<open>The system call and the switch that follows when the caller cannot go on.\<close>

definition ecall_handler :: "u64 \<Rightarrow> u64 \<Rightarrow> u64 list \<Rightarrow> kernel \<Rightarrow> ((bool \<times> int \<times> u64 list) \<times> kernel) option" where
  "ecall_handler now epc tf k =
     (case syscall_dispatch tf k of None \<Rightarrow> None
      | Some ((context_replaced, tf), k) \<Rightarrow>
        if task_current_state k = TASK_ZOMBIE \<or> task_current_state k = TASK_BLOCKED then
          let k = (if task_current_state k = TASK_BLOCKED \<and> context_replaced = 2 then trap_write SEPC (epc + 4) k else k);
              ((rescheduled, tf), k) = task_reschedule now tf k
          in Some ((rescheduled, context_replaced, tf), k)
        else Some ((False, context_replaced, tf), k))"

definition exception_handler :: "u64 \<Rightarrow> u64 list \<Rightarrow> kernel \<Rightarrow> (u64 list \<times> kernel) option" where
  "exception_handler now tf k =
     (let cause = trap_read SCAUSE k;
          epc = trap_read SEPC k;
          mute = (trap_silent k \<and> (cause = 8 \<or> cause = 9));
          k = say mute ''Type: Exception (%lx)\<newline>'' [VNum cause] (trap_banner mute k)
      in case (if cause = 8 then ecall_handler now epc tf (say mute ''  -> Environment call from U-mode\<newline>'' [] k)
               else if cause = 9 then ecall_handler now epc tf (say mute ''  -> Environment call from S-mode\<newline>'' [] k)
               else Some ((False, 0, tf),
                 kprint (if cause = 3 then ''  -> Breakpoint\<newline>'' else if cause = 2 then ''  -> Illegal instruction\<newline>''
                         else ''  -> Unknown exception\<newline>'') [] k)) of None \<Rightarrow> None
         | Some ((rescheduled, context_replaced, tf), k) \<Rightarrow>
           let k = say mute ''=== TRAP END ===\<newline>'' [] k;
               k = (if \<not> rescheduled \<and> context_replaced = 0 then trap_write SEPC (epc + 4) k else k)
           in Some (tf, task_prepare_trap_return k))"

definition trap_handler :: "u64 \<Rightarrow> u64 list \<Rightarrow> kernel \<Rightarrow> (u64 list \<times> kernel) option" where
  "trap_handler now tf k =
     (if bit (trap_read SCAUSE k) 63 then Some (interrupt_handler now tf k) else exception_handler now tf k)"

definition trap_set_silent :: "bool \<Rightarrow> kernel \<Rightarrow> kernel" where
  "trap_set_silent silent k = k\<lparr>trap_silent := silent\<rparr>"

section \<open>Start-up\<close>

text \<open>A caret stands for a backslash.\<close>

definition boot_banner :: "kernel \<Rightarrow> kernel" where
  "boot_banner k =
     fold (\<lambda>line. kprint (map (\<lambda>c. if c = CHR ''^'' then CHR 0x5C else c) line) [])
       [''\<newline>'',
        ''  __  __ _       _  ___  ____\<newline>'',
        '' |  ^/  (_)_ __ (_)/ _ ^/ ___|\<newline>'',
        '' | |^/| | | '_ ^| | | | ^___ ^\<newline>'',
        '' | |  | | | | | | | |_| |___) |\<newline>'',
        '' |_|  |_|_|_| |_|_|^___/|____/\<newline>'',
        ''\<newline>'',
        '' MiniOS | RV64I | S-mode | Sv39\<newline>'',
        ''\<newline>''] k"

definition status_args :: "bool \<Rightarrow> varg list" where
  "status_args ok =
     [VStr (Some (27 # lit (if ok then ''[32m'' else ''[31m''))), VStr (Some (lit (if ok then '' OK '' else ''FAIL''))),
      VStr (Some (27 # lit ''[0m''))]"

definition boot_status_pages :: "bool \<Rightarrow> u64 \<Rightarrow> kernel \<Rightarrow> kernel" where
  "boot_status_pages ok pages =
     kprint '' %s[%s]%s Physical memory    %ld pages free\<newline>'' (status_args ok @ [VNum pages])"

definition boot_status :: "bool \<Rightarrow> string \<Rightarrow> string \<Rightarrow> kernel \<Rightarrow> kernel" where
  "boot_status ok component detail =
     kprint '' %s[%s]%s %s%s\<newline>''
       (status_args ok @ [VStr (Some (lit component)), VStr (Some (lit detail))])"

definition start_shell :: "u64 \<Rightarrow> kernel \<Rightarrow> (int \<times> kernel) option" where
  "start_shell user_task_entry k =
     (let k = trap_write SSTATUS (trap_read SSTATUS k AND NOT SSTATUS_SIE) k;
          k = task_set_scheduler SCHED_RR k;
          k = task_init k;
          k = task_set_quantum 1 k;
          k = timer_set_timeslice_ms 10 k
      in map_option (\<lambda>(shell_pid, k). if shell_pid < 0 then (-1, k) else (shell_pid, trap_set_silent True (timer_init k)))
           (task_create user_task_entry (Some (lit ''shell'')) k))"

text \<open>
  The body of \<^verbatim>\<open>kernel_main\<close> up to the idle loop: memory, page tables, file system, scheduler.  It
  returns the process id of the shell, or None after stopping the machine (the outer None of the type is undefined behaviour
  of \<^verbatim>\<open>task_create\<close>).  The end of the kernel image and the address
  of \<^verbatim>\<open>user_task_entry\<close> are placed by the linker.
\<close>

definition kernel_main :: "u64 \<Rightarrow> u64 \<Rightarrow> kernel \<Rightarrow> (int option \<times> kernel) option" where
  "kernel_main kernel_end user_task_entry k =
     (let k = boot_banner k;
          k = k\<lparr>k_mem := mem_init kernel_end (k_mem k)\<rparr>;
          k = boot_status_pages (mem_free_pages (k_mem k) > 0) (mem_free_pages (k_mem k)) k;
          (m, c, g) = vm_init (k_mem k, k_csr k, k_tables k);
          k = k\<lparr>k_mem := m, k_csr := c, k_tables := g\<rparr>;
          k = boot_status (kernel_l2 g \<noteq> 0) ''Virtual memory     '' ''Sv39, 128 MiB mapped'' k;
          (r, s) = minifs_init (k_fs k);
          k = k\<lparr>k_fs := s\<rparr>;
          k = boot_status (r = 0) ''MiniFS             '' ''8 MiB persistent disk'' k
      in if r \<noteq> 0 then Some (None, (kprint ''Invalid disk image; refusing to overwrite it.\<newline>'' [] k)\<lparr>halted := True\<rparr>)
         else map_option (\<lambda>(shell_pid, k).
           let k = boot_status (shell_pid \<ge> 0) ''Scheduler          '' ''RR, 10 ms quantum'' k
           in if shell_pid < 0
              then (None, (boot_status False ''User shell         '' ''creation failed'' k)\<lparr>halted := True\<rparr>)
              else let k = kprint '' %s[ OK ]%s User shell         pid %d\<newline>''
                             [VStr (Some (27 # lit ''[32m'')), VStr (Some (27 # lit ''[0m'')), VNum (of_int shell_pid)] k;
                       k = kprint ''\<newline>Welcome to MiniOS.\<newline>Type 'help' for commands.\<newline>'' [] k
                in (Some shell_pid, trap_write SSTATUS (trap_read SSTATUS k OR SSTATUS_SIE) k))
           (start_shell user_task_entry k))"

text \<open>One turn of the idle loop.\<close>

definition idle_loop :: "int \<Rightarrow> kernel \<Rightarrow> kernel" where
  "idle_loop shell_pid k =
     (let ((pid, status), k) = task_waitpid shell_pid True k
      in if pid = shell_pid then (kprint ''\<newline>Shell exited, halting MiniOS.\<newline>'' [] k)\<lparr>halted := True\<rparr> else k)"

definition user_task_start :: "kernel \<Rightarrow> kernel" where
  "user_task_start k =
     (let (r, k) = user_init k in if r < 0 then task_exit 127 k else snd (enter_user k))"

end
