(* ===== verification/User_Libc.thy ===== *)
theory User_Libc
  imports Fs_Dir Os_Printk
begin

text \<open>
  The user programs' C library (\<^verbatim>\<open>user/libc.c\<close>, lines 104-279).  Strings are byte lists without
  their NUL.  Output goes through the write system call on descriptor 1, a parameter \<open>wr\<close> that takes
  the bytes and the state and returns the count or an error.  None is undefined behaviour.
\<close>

section \<open>Strings\<close>

definition strlen :: "chars option \<Rightarrow> nat" where
  "strlen string = (case string of None \<Rightarrow> 0 | Some s \<Rightarrow> length s)"

fun strcmp :: "chars \<Rightarrow> chars \<Rightarrow> int" where
  "strcmp [] [] = 0"
| "strcmp [] (y # ys) = 0 - uint y"
| "strcmp (x # xs) [] = uint x - 0"
| "strcmp (x # xs) (y # ys) = (if x = y then strcmp xs ys else uint x - uint y)"

text \<open>Byte \<open>i\<close> of a string, its NUL included.\<close>

definition char_at :: "chars \<Rightarrow> nat \<Rightarrow> u8" where
  "char_at s i = (if i < length s then s ! i else 0)"

primrec strncmp_loop :: "chars \<Rightarrow> chars \<Rightarrow> nat list \<Rightarrow> int" where
  "strncmp_loop left right [] = 0"
| "strncmp_loop left right (i # is) =
     (if char_at left i \<noteq> char_at right i then uint (char_at left i) - uint (char_at right i)
      else if char_at left i = 0 then 0
      else strncmp_loop left right is)"

definition strncmp :: "chars \<Rightarrow> chars \<Rightarrow> nat \<Rightarrow> int" where
  "strncmp left right len = strncmp_loop left right [0..<len]"

text \<open>Copies into a buffer from position \<open>at\<close> on; past its end is undefined.\<close>

definition strcpy :: "u8 list \<Rightarrow> nat \<Rightarrow> chars \<Rightarrow> u8 list option" where
  "strcpy destination at source =
     (if at + length source + 1 \<le> length destination then Some (copy_bytes destination at (source @ [0])) else None)"

definition strcat :: "u8 list \<Rightarrow> chars \<Rightarrow> u8 list option" where
  "strcat destination source = strcpy destination (length (cstr_of destination)) source"

definition user_memset :: "u8 list \<Rightarrow> int \<Rightarrow> nat \<Rightarrow> u8 list" where
  "user_memset destination value len = for_each len (\<lambda>i b. b[i := of_int value]) destination"

definition user_memcpy :: "u8 list \<Rightarrow> u8 list \<Rightarrow> nat \<Rightarrow> u8 list" where
  "user_memcpy destination source len = for_each len (\<lambda>i b. b[i := source ! i]) destination"

text \<open>The digits of a number; a value past the range of int is undefined.\<close>

primrec atoi_loop :: "chars \<Rightarrow> int \<Rightarrow> int option" where
  "atoi_loop [] value = Some value"
| "atoi_loop (c # cs) value =
     (if 48 \<le> c \<and> c \<le> 57 then
        let value = value * 10 + (uint c - 48) in if value \<ge> 2 ^ 31 then None else atoi_loop cs value
      else Some value)"

definition atoi :: "chars \<Rightarrow> int option" where
  "atoi string =
     (let (sign, string) = (case string of c # cs \<Rightarrow> if c = 45 then (-1, cs) else (1, string) | [] \<Rightarrow> (1, string))
      in map_option (\<lambda>value. value * sign) (atoi_loop string 0))"

definition getenv_from :: "chars list option \<Rightarrow> chars \<Rightarrow> chars option" where
  "getenv_from envp name =
     (case envp of None \<Rightarrow> None
      | Some envp \<Rightarrow>
        (case first_index (\<lambda>i. strncmp (envp ! i) name (length name) = 0 \<and> char_at (envp ! i) (length name) = 61) (length envp) of
           None \<Rightarrow> None | Some i \<Rightarrow> Some (drop (length name + 1) (envp ! i))))"

section \<open>Output\<close>

type_synonym 's writer = "chars \<Rightarrow> 's \<Rightarrow> int \<times> 's"

definition putchar :: "'s writer \<Rightarrow> int \<Rightarrow> 's \<Rightarrow> int \<times> 's" where
  "putchar wr character s = (let (r, s) = wr [of_int character] s in (if r = 1 then character else -1, s))"

definition puts :: "'s writer \<Rightarrow> chars \<Rightarrow> 's \<Rightarrow> int \<times> 's" where
  "puts wr string s =
     (let (r, s) = wr string s
      in if r < 0 then (-1, s) else let (r, s) = wr [10] s in if r < 0 then (-1, s) else (0, s))"

definition term_style_begin :: "'s writer \<Rightarrow> chars option \<Rightarrow> 's \<Rightarrow> 's" where
  "term_style_begin wr style s =
     (case style of Some (c # cs) \<Rightarrow> snd (wr (c # cs) s) | _ \<Rightarrow> s)"

text \<open>\<^verbatim>\<open>ANSI_RESET\<close> depends on the build and may be empty.\<close>

definition term_style_end :: "'s writer \<Rightarrow> chars \<Rightarrow> 's \<Rightarrow> 's" where
  "term_style_end wr ansi_reset s = (if ansi_reset \<noteq> [] then snd (wr ansi_reset s) else s)"

definition term_write_styled :: "'s writer \<Rightarrow> chars \<Rightarrow> chars option \<Rightarrow> chars \<Rightarrow> 's \<Rightarrow> 's" where
  "term_write_styled wr ansi_reset style txt s =
     term_style_end wr ansi_reset (snd (wr txt (term_style_begin wr style s)))"

text \<open>
  The digits, least significant first; the loop runs at least once.  The bases are 10 and 16, and a
  base below 2 (which would not terminate) stops it.
\<close>

function unsigned_digits :: "nat \<Rightarrow> nat \<Rightarrow> chars" where
  "unsigned_digits value base =
     (let digit = value mod base;
          c = (if digit < 10 then of_nat (48 + digit) else of_nat (97 + digit - 10));
          value' = value div base
      in if value' \<noteq> 0 \<and> 2 \<le> base then c # unsigned_digits value' base else [c])"
  by auto
termination
  by (relation "measure fst") (auto simp: div_eq_0_iff intro!: div_less_dividend)

declare unsigned_digits.simps [simp del]

primrec put_digits :: "'s writer \<Rightarrow> chars \<Rightarrow> int \<Rightarrow> 's \<Rightarrow> int \<times> 's" where
  "put_digits wr [] written s = (written, s)"
| "put_digits wr (d # ds) written s = put_digits wr ds (written + 1) (snd (putchar wr (uint d) s))"

definition print_unsigned :: "'s writer \<Rightarrow> u64 \<Rightarrow> nat \<Rightarrow> int \<Rightarrow> 's \<Rightarrow> (int \<times> 's) option" where
  "print_unsigned wr value base written s =
     (let ds = unsigned_digits (unat value) base
      in if length ds > 32 then None else Some (put_digits wr (rev ds) written s))"

text \<open>One conversion of \<open>printf\<close>.\<close>

definition put_signed :: "'s writer \<Rightarrow> int \<Rightarrow> int \<Rightarrow> 's \<Rightarrow> (int \<times> 's) option" where
  "put_signed wr value written s =
     (if value < 0 then
        (if value = - (2 ^ 63) then None
         else print_unsigned wr (of_int (- value)) 10 (written + 1) (snd (putchar wr 45 s)))
      else print_unsigned wr (of_int value) 10 written s)"

definition printf_conversion ::
  "'s writer \<Rightarrow> bool \<Rightarrow> u8 \<Rightarrow> varg list \<Rightarrow> int \<Rightarrow> 's \<Rightarrow> ((int \<times> 's) \<times> varg list) option" where
  "printf_conversion wr is_long c args written s =
     (if c = 37 then Some ((written + 1, snd (putchar wr 37 s)), args)
      else if c = 115 then
        (case args of VStr v # args \<Rightarrow>
           Some ((written + int (strlen v), snd (wr (case v of None \<Rightarrow> [] | Some t \<Rightarrow> t) s)), args)
         | _ \<Rightarrow> None)
      else if c = 99 \<or> c = 100 \<or> c = 117 \<or> c = 120 then
        (case args of VNum v # args \<Rightarrow>
           map_option (\<lambda>r. (r, args))
             (if c = 99 then Some (written + 1, snd (putchar wr (sint (ucast v :: u32)) s))
              else if c = 100 then put_signed wr (if is_long then sint v else sint (ucast v :: u32)) written s
              else print_unsigned wr (if is_long then v else ucast (ucast v :: u32)) (if c = 117 then 10 else 16) written s)
         | _ \<Rightarrow> None)
      else Some ((written, s), args))"

fun printf_loop :: "'s writer \<Rightarrow> chars \<Rightarrow> varg list \<Rightarrow> int \<Rightarrow> 's \<Rightarrow> (int \<times> 's) option" where
  "printf_loop wr [] args written s = Some (written, s)"
| "printf_loop wr (c # fmt) args written s =
     (if c \<noteq> 37 then printf_loop wr fmt args (written + 1) (snd (putchar wr (uint c) s))
      else case fmt of [] \<Rightarrow> None
        | d # fmt \<Rightarrow>
          if d = 108 then
            (case fmt of [] \<Rightarrow> None
             | e # fmt \<Rightarrow>
               (case printf_conversion wr True e args written s of None \<Rightarrow> None
                | Some ((written, s), args) \<Rightarrow> printf_loop wr fmt args written s))
          else
            (case printf_conversion wr False d args written s of None \<Rightarrow> None
             | Some ((written, s), args) \<Rightarrow> printf_loop wr fmt args written s))"

definition printf :: "'s writer \<Rightarrow> chars \<Rightarrow> varg list \<Rightarrow> 's \<Rightarrow> (int \<times> 's) option" where
  "printf wr format args s = printf_loop wr format args 0 s"

section \<open>Numbers\<close>

lemma digits_snoc: "2 \<le> b \<Longrightarrow> b \<le> n \<Longrightarrow> digits b n = digits b (n div b) @ [hex_digit (n mod b)]"
  by (subst digits.simps) simp

lemma rev_unsigned_digits: "2 \<le> b \<Longrightarrow> rev (unsigned_digits n b) = digits b n"
proof (induction n rule: less_induct)
  case (less n)
  show ?case
  proof (cases "n < b")
    case True
    then show ?thesis by (subst unsigned_digits.simps, subst digits.simps) (simp add: hex_digit_def)
  next
    case False
    then have "n div b < n" "n div b \<noteq> 0" using less.prems by (auto simp: div_eq_0_iff)
    then show ?thesis
      using less False digits_snoc [of b n] by (subst unsigned_digits.simps) (simp add: hex_digit_def)
  qed
qed

lemma length_digits: "2 \<le> b \<Longrightarrow> n < b ^ Suc k \<Longrightarrow> length (digits b n) \<le> Suc k"
proof (induction k arbitrary: n)
  case 0
  then show ?case by (simp add: digits.simps)
next
  case (Suc k)
  show ?case
  proof (cases "n < b")
    case True
    then show ?thesis by (simp add: digits.simps)
  next
    case False
    then show ?thesis using Suc digits_snoc [of b n] by (simp add: div_less_iff_less_mult mult.commute)
  qed
qed

lemma u64_digits:
  fixes v :: u64 assumes "10 \<le> b" shows "length (unsigned_digits (unat v) b) \<le> 20"
proof -
  have "unat v < 2 ^ LENGTH(64)" by (rule unsigned_less)
  also have "\<dots> \<le> 10 ^ Suc 19" by simp
  also have "\<dots> \<le> b ^ Suc 19" by (rule power_mono) (use assms in auto)
  finally show ?thesis
    using length_digits [of b "unat v" 19] arg_cong [OF rev_unsigned_digits [of b "unat v"], of length] assms by simp
qed

text \<open>The writer that appends everything to a list.\<close>

definition append_all :: "chars writer" where
  "append_all bs out = (int (length bs), out @ bs)"

lemma putchar_append [simp]: "putchar append_all c out = (c, out @ [of_int c])"
  by (simp add: putchar_def append_all_def)

lemma put_digits_append: "put_digits append_all ds written out = (written + int (length ds), out @ ds)"
  by (induction ds arbitrary: written out) simp_all

lemma print_unsigned_append:
  assumes "10 \<le> b"
  shows "print_unsigned append_all v b written out = Some (written + int (length (digits b (unat v))), out @ digits b (unat v))"
proof -
  have "rev (unsigned_digits (unat v) b) = digits b (unat v)" by (rule rev_unsigned_digits) (use assms in simp)
  then show ?thesis using u64_digits [OF assms, of v] by (simp add: print_unsigned_def put_digits_append)
qed

text \<open>
  C22. Library number output stays inside its buffer: the 32 bytes of \<open>print_unsigned\<close> hold the digits
  of every 64-bit value in base 10 or 16, at most 20 of them, and what is printed is the usual notation
  of the value.
\<close>

theorem print_unsigned_fits:
  "length (unsigned_digits (unat v) 10) \<le> 20 \<and> length (unsigned_digits (unat v) 16) \<le> 20 \<and>
   print_unsigned append_all v 10 n out = Some (n + int (length (digits 10 (unat v))), out @ digits 10 (unat v)) \<and>
   print_unsigned append_all v 16 n out = Some (n + int (length (digits 16 (unat v))), out @ digits 16 (unat v))"
  using u64_digits [of 10 v] u64_digits [of 16 v] print_unsigned_append by simp

text \<open>Reading digits back.\<close>

lemma hex_digit_dec: "d < 10 \<Longrightarrow> 48 \<le> hex_digit d \<and> hex_digit d \<le> 57 \<and> uint (hex_digit d) = 48 + int d"
proof -
  assume d: "d < 10"
  have n: "unat (hex_digit d) = 48 + d" using d by (simp add: unat_hex_digit)
  then have "uint (hex_digit d) = 48 + int d" by (metis of_nat_unat of_nat_add of_nat_numeral)
  then show ?thesis using d n by (simp add: word_le_nat_alt)
qed

lemma digits_dec: "\<forall>x \<in> set (digits 10 n). 48 \<le> x \<and> x \<le> 57"
proof (induction n rule: less_induct)
  case (less n)
  show ?case using less [of "n div 10"] hex_digit_dec [of n] hex_digit_dec [of "n mod 10"] by (subst digits.simps) auto
qed

lemma atoi_loop_append:
  "\<forall>x \<in> set xs. 48 \<le> x \<and> x \<le> 57 \<Longrightarrow>
   atoi_loop (xs @ ys) v = (case atoi_loop xs v of None \<Rightarrow> None | Some w \<Rightarrow> atoi_loop ys w)"
  by (induction xs arbitrary: v) (simp_all add: Let_def)

lemma atoi_loop_digits: "n < 2 ^ 31 \<Longrightarrow> atoi_loop (digits 10 n) 0 = Some (int n)"
proof (induction n rule: less_induct)
  case (less n)
  show ?case
  proof (cases "n < 10")
    case True
    then show ?thesis using hex_digit_dec [OF True] by (simp add: digits.simps)
  next
    case False
    have "int (n div 10) * 10 + int (n mod 10) = int n" by (metis div_mult_mod_eq of_nat_add of_nat_mult of_nat_numeral)
    moreover have "int n < 2 ^ 31" using less.prems by simp
    moreover have "atoi_loop (digits 10 (n div 10)) 0 = Some (int (n div 10))" using False less by simp
    ultimately show ?thesis
      unfolding digits_snoc [OF _ False [unfolded not_less], simplified] atoi_loop_append [OF digits_dec]
      using hex_digit_dec [of "n mod 10"] by (simp add: Let_def del: of_nat_div of_nat_mod)
  qed
qed

lemma atoi_digits:
  assumes "n < 2 ^ 31" shows "atoi (digits 10 n) = Some (int n)" "atoi (45 # digits 10 n) = Some (- int n)"
proof -
  show "atoi (45 # digits 10 n) = Some (- int n)" using atoi_loop_digits [OF assms] by (simp add: atoi_def)
  have "digits 10 n \<noteq> []" by (subst digits.simps) simp
  then obtain c cs where c: "digits 10 n = c # cs" by (cases "digits 10 n") auto
  have "48 \<le> c" using digits_dec [of n] c by simp
  then have "c \<noteq> 45" by auto
  then show "atoi (digits 10 n) = Some (int n)" using atoi_loop_digits [OF assms] c by (simp add: atoi_def)
qed

text \<open>
  C23. Printed numbers are read back: for every int but the least, the kernel's and the library's \<^verbatim>\<open>%d\<close>
  print the same text, \<open>printf\<close> counts its length, and \<open>atoi\<close> of the text gives the number back.
\<close>

theorem atoi_print:
  assumes "\<bar>d\<bar> < 2 ^ 31"
  shows "\<exists>t. conversion 100 (VNum (of_int d) # args) = Some (t, args) \<and>
             put_signed append_all d 0 [] = Some (int (length t), t) \<and> atoi t = Some d"
proof -
  have "ucast (of_int d :: u64) = (of_int d :: u32)" by (rule bit_word_eqI) (simp add: bit_simps)
  then have s: "sint (ucast (of_int d :: u64) :: u32) = d"
    using assms signed_take_bit_int_eq_self [of 31 d] by (simp add: signed_of_int)
  have u: "unat (of_int x :: u32) = nat x" "unat (of_int x :: u64) = nat x" if "0 \<le> x" "x < 2 ^ 31" for x
    using that by (simp_all add: unsigned_of_int take_bit_int_eq_self)
  have p: "print_dec (of_int x) = digits 10 (nat x)"
    "print_unsigned append_all (of_int x) 10 n out = Some (n + int (length (digits 10 (nat x))), out @ digits 10 (nat x))"
    if "0 \<le> x" "x < 2 ^ 31" for x n out
    using print_dec_digits [of "of_int x"] print_unsigned_append [of 10 "of_int x"] u [OF that] by simp_all
  show ?thesis
  proof (cases "d < 0")
    case True
    then show ?thesis
      using assms p [of "- d"] atoi_digits(2) [of "nat (- d)"] s
      by (simp add: conversion_def print_signed_def put_signed_def putchar_def append_all_def)
  next
    case False
    then show ?thesis
      using assms p [of d] atoi_digits(1) [of "nat d"] s by (simp add: conversion_def print_signed_def put_signed_def)
  qed
qed

theorem atoi_print_witness:
  "\<exists>t. conversion 100 [VNum (of_int (-42))] = Some (t, []) \<and>
       put_signed append_all (-42) 0 [] = Some (int (length t), t) \<and> atoi t = Some (-42)"
  by (rule atoi_print) simp

section \<open>Comparison and lookup\<close>

lemma strcmp_eq: "0 \<notin> set a \<Longrightarrow> 0 \<notin> set b \<Longrightarrow> strcmp a b = 0 \<longleftrightarrow> a = b"
  by (induction a b rule: strcmp.induct) (auto simp: uint_0_iff simp flip: word_uint_eq_iff)

lemma strcmp_sym: "strcmp b a = - strcmp a b"
  by (induction a b rule: strcmp.induct) auto

end
