(* ===== verification/Fs_Names.thy ===== *)
theory Fs_Names
  imports Fs_History
begin

text \<open>
  Names: paths as lists of components, and directories as finite maps.
\<close>

section \<open>Components of a path\<close>

function components :: "cstr \<Rightarrow> cstr list" where
  "components p =
     (let q = dropWhile (\<lambda>c. c = slash) p
      in if q = [] then [] else takeWhile (\<lambda>c. c \<noteq> slash) q # components (dropWhile (\<lambda>c. c \<noteq> slash) q))"
  by auto
termination
proof (relation "measure length", goal_cases)
  case (2 p q)
  obtain c r where "q = c # r" using 2(2) by (meson neq_Nil_conv)
  then have q: "q = c # r" "c \<noteq> slash" using 2(1) dropWhile_eq_Cons_conv [of "\<lambda>c. c = slash" p c r] by auto
  have "length (dropWhile (\<lambda>c. c \<noteq> slash) q) \<le> length r" using q length_dropWhile_le by simp
  also have "length r < length q" using q by simp
  also have "length q \<le> length p" using 2(1) length_dropWhile_le by simp
  finally show ?case by simp
qed simp

declare components.simps [simp del]

lemma components_nil [simp]: "components [] = []"
  by (simp add: components.simps)

lemma components_slash [simp]: "components (slash # p) = components p"
  by (simp add: components.simps)

lemma components_char:
  "c \<noteq> slash \<Longrightarrow> components (c # p) = (c # takeWhile (\<lambda>c. c \<noteq> slash) p) # components (dropWhile (\<lambda>c. c \<noteq> slash) p)"
  by (simp add: components.simps [of "c # p"])

text \<open>The reference walk over the components.\<close>

primrec walk :: "fs \<Rightarrow> u32 \<Rightarrow> cstr list \<Rightarrow> int \<times> fs" where
  "walk s current [] = (sint current, s)"
| "walk s current (c # cs) =
     (if length c > 55 then (-1, s)
      else if c = [dot] then walk s current cs
      else if c = [dot, dot] then
        let ((r, inode), s) = read_inode s current in if r < 0 then (-1, s) else walk s (i_parent inode) cs
      else let ((child, _), s) = dir_lookup s current c in if child < 0 then (-1, s) else walk s (of_int child) cs)"

section \<open>Resolution\<close>

lemma skip_slashes_eq: "skip_slashes p = dropWhile (\<lambda>c. c = slash) p"
  by (induction p rule: skip_slashes.induct) auto

lemma take_component_eq:
  "take_component p acc =
     (if length acc + length (takeWhile (\<lambda>c. c \<noteq> slash) p) > 55 \<and> length (takeWhile (\<lambda>c. c \<noteq> slash) p) > 0 then None
      else Some (dropWhile (\<lambda>c. c \<noteq> slash) p, acc @ takeWhile (\<lambda>c. c \<noteq> slash) p))"
  by (induction p acc rule: take_component.induct) auto

lemma next_component_eq:
  "next_component path =
     (let q = dropWhile (\<lambda>c. c = slash) path; c = takeWhile (\<lambda>c. c \<noteq> slash) q
      in if q = [] then (0, [], []) else if length c > 55 then (-1, path, []) else (1, dropWhile (\<lambda>c. c \<noteq> slash) q, c))"
  by (auto simp: next_component_def skip_slashes_eq take_component_eq Let_def)

lemma resolve_loop_walk: "resolve_loop s current path = walk s current (components path)"
proof (induction "length path" arbitrary: s current path rule: less_induct)
  case less
  let ?q = "dropWhile (\<lambda>c. c = slash) path"
  let ?c = "takeWhile (\<lambda>c. c \<noteq> slash) ?q" and ?r = "dropWhile (\<lambda>c. c \<noteq> slash) ?q"
  show ?case
  proof (cases "?q = []")
    case True
    then show ?thesis by (subst resolve_loop.simps, subst components.simps) (simp add: next_component_eq)
  next
    case False
    have comps: "components path = ?c # components ?r"
      using False by (simp add: components.simps [of path] Let_def del: dropWhile_eq_Nil_conv)
    show ?thesis
    proof (cases "length ?c > 55")
      case True
      then have "next_component path = (-1, path, [])"
        using False by (simp add: next_component_eq Let_def del: dropWhile_eq_Nil_conv)
      then show ?thesis using True unfolding comps by (subst resolve_loop.simps) simp
    next
      case False2: False
      then have n: "next_component path = (1, ?r, ?c)"
        using False by (simp add: next_component_eq Let_def del: dropWhile_eq_Nil_conv)
      have ih: "resolve_loop s' cur ?r = walk s' cur (components ?r)" for s' cur
        by (rule less) (rule next_component_shorter [OF n])
      show ?thesis unfolding comps using False2
        by (subst resolve_loop.simps) (simp only: n Let_def prod.case, simp add: ih split_beta Let_def)
    qed
  qed
qed

text \<open>
  C14. Path resolution is a walk over the components of the path.  For every non-empty path
  shorter than MINIFS_PATH_MAX, resolve gives the result of walking, from the root or the
  current directory, over the maximal runs of characters other than slash: a single dot stays,
  two dots go to the parent, any other name is looked up, and a name of more than 55 bytes fails.
  Repeated and trailing slashes make no difference.
\<close>

theorem resolve_walk:
  assumes "path \<noteq> []" "length path < 256"
  shows "resolve s cwd (Some path) = walk s (if hd path = slash then 0 else cwd) (components path)"
  using assms by (simp add: resolve_def resolve_loop_walk)

theorem resolve_walk_witness:
  "resolve one_file_fs 5 (Some [47, 47, 46, 47]) = (0, one_file_fs)"
proof -
  have "components [47, 47, 46, 47] = [[46]]" by (simp add: components_char)
  then show ?thesis using resolve_walk [of "[47, 47, 46, 47]" one_file_fs 5] by simp
qed

section \<open>The parent of a path\<close>

lemma components_append_name:
  assumes "slash \<notin> set name" "name \<noteq> []"
  shows "components (p @ slash # name) = components p @ [name]"
proof (induction "length p" arbitrary: p rule: less_induct)
  case less
  have name: "components name = [name]"
  proof -
    obtain c n where n: "name = c # n" "c \<noteq> slash" "\<forall>x \<in> set n. x \<noteq> slash" using assms by (cases name) auto
    show ?thesis
      unfolding n(1) components_char [OF n(2)] dropWhile_eq_Nil_conv [THEN iffD2, OF n(3)]
        takeWhile_eq_all_conv [THEN iffD2, OF n(3)] by simp
  qed
  show ?case
  proof (cases p)
    case Nil
    then show ?thesis using name by simp
  next
    case (Cons c q)
    show ?thesis
    proof (cases "c = slash")
      case True
      then show ?thesis using Cons less [of q] by simp
    next
      case False
      let ?r = "dropWhile (\<lambda>c. c \<noteq> slash) q"
      have "takeWhile (\<lambda>c. c \<noteq> slash) (q @ slash # name) = takeWhile (\<lambda>c. c \<noteq> slash) q"
        "dropWhile (\<lambda>c. c \<noteq> slash) (q @ slash # name) = ?r @ slash # name"
        by (induction q) auto
      moreover have "length ?r < length p" using Cons length_dropWhile_le [of "\<lambda>c. c \<noteq> slash" q] by simp
      ultimately show ?thesis using Cons False less [of ?r] by (simp add: components_char)
    qed
  qed
qed

lemma components_trailing: "components (p @ [slash]) = components p"
proof (induction "length p" arbitrary: p rule: less_induct)
  case less
  show ?case
  proof (cases p)
    case (Cons c q)
    show ?thesis
    proof (cases "c = slash")
      case False
      let ?r = "dropWhile (\<lambda>c. c \<noteq> slash) q"
      have "takeWhile (\<lambda>c. c \<noteq> slash) (q @ [slash]) = takeWhile (\<lambda>c. c \<noteq> slash) q"
        "dropWhile (\<lambda>c. c \<noteq> slash) (q @ [slash]) = ?r @ [slash]"
        by (induction q) auto
      moreover have "length ?r < length p" using Cons length_dropWhile_le [of "\<lambda>c. c \<noteq> slash" q] by simp
      ultimately show ?thesis using Cons False less [of ?r] by (simp add: components_char)
    qed (use Cons less [of q] in simp)
  qed simp
qed

lemma strip_slashes_facts:
  "components (strip_slashes p) = components p \<and> (p \<noteq> [] \<longrightarrow> strip_slashes p \<noteq> []) \<and>
   (strip_slashes p = [slash] \<or> strip_slashes p = [] \<or> last (strip_slashes p) \<noteq> slash) \<and>
   (\<exists>n. strip_slashes p = take n p)"
proof (induction p rule: strip_slashes.induct)
  case (1 p)
  show ?case
  proof (cases "length p > 1 \<and> last p = slash")
    case True
    then have p: "p = butlast p @ [slash]" by (metis append_butlast_last_id list.size(3) not_one_less_zero)
    have eq: "strip_slashes p = strip_slashes (butlast p)" using True by (subst strip_slashes.simps) simp
    have "butlast p \<noteq> []" using True by (auto simp: length_Suc_conv less_Suc_eq_0_disj dest!: arg_cong [where f = length])
    moreover have "components p = components (butlast p)" using components_trailing [of "butlast p"] p by simp
    ultimately show ?thesis using 1 [OF True] unfolding eq by (metis butlast_conv_take take_take)
  next
    case False
    then have "strip_slashes p = p" by (subst strip_slashes.simps) auto
    then show ?thesis using False by (cases p) (auto intro: exI [of _ "length p"])
  qed
qed

lemma last_slash_snoc: "last_slash (p @ [c]) = (if c = slash then int (length p) else last_slash p)"
proof -
  have "fold (\<lambda>i a. if (p @ [c]) ! i = slash then int i else a) [0..<length p] (-1) =
      fold (\<lambda>i a. if p ! i = slash then int i else a) [0..<length p] (-1 :: int)"
    by (rule List.fold_cong) (auto simp: nth_append)
  then show ?thesis by (simp add: last_slash_def)
qed

lemma last_slash_cases:
  obtains (none) "last_slash p = -1" "slash \<notin> set p"
  | (at) a b where "p = a @ slash # b" "slash \<notin> set b" "last_slash p = int (length a)"
proof (induction p arbitrary: thesis rule: rev_induct)
  case Nil
  then show ?case by (simp add: last_slash_def)
next
  case (snoc c p)
  show ?case
  proof (cases "c = slash")
    case True
    then show ?thesis using snoc.prems(2) [of p "[]"] by (simp add: last_slash_snoc)
  next
    case False
    show ?thesis
    proof (rule snoc.IH)
      assume "last_slash p = -1" "slash \<notin> set p"
      then show ?thesis using snoc.prems(1) False by (simp add: last_slash_snoc)
    next
      fix a b assume "p = a @ slash # b" "slash \<notin> set b" "last_slash p = int (length a)"
      then show ?thesis using snoc.prems(2) [of a "b @ [c]"] False last_slash_snoc [of p c] by simp
    qed
  qed
qed

text \<open>
  C15. Splitting off the last name.  For a path shorter than MINIFS_PATH_MAX whose last component
  is a proper name of at most 55 bytes, resolve_parent returns that name and the result of walking
  over all the components before it; when the last component is too long, a dot or two dots, or
  there is none, it fails.
\<close>

theorem resolve_parent_split:
  assumes "length p < 256"
  defines "cs \<equiv> components p"
  shows "if cs = [] \<or> length (last cs) > 55 \<or> last cs \<in> {[dot], [dot, dot]}
    then fst (fst (resolve_parent s cwd (Some p))) = -1
    else resolve_parent s cwd (Some p) =
      (let (r, s') = walk s (if hd p = slash then 0 else cwd) (butlast cs) in ((r, last cs), s'))"
proof (cases "p = []")
  case True
  then show ?thesis by (simp add: cs_def resolve_parent_def)
next
  case False
  define q where "q = strip_slashes p"
  obtain n where n: "q = take n p" using strip_slashes_facts [of p] by (auto simp: q_def)
  have q: "components q = cs" "q \<noteq> []" "q = [slash] \<or> last q \<noteq> slash"
    using strip_slashes_facts [of p] False by (auto simp: q_def cs_def)
  have hd: "hd q = hd p" using q(2) unfolding n by (cases p; cases n) auto
  have rp: "resolve_parent s cwd (Some p) =
      (let sl = last_slash q; name = drop (nat (sl + 1)) q
       in if length name \<le> 0 \<or> length name > 55 then ((-1, []), s)
          else if name = [dot] \<or> name = [dot, dot] then ((-1, name), s)
          else if sl < 0 then ((sint cwd, name), s) else if sl = 0 then ((0, name), s)
          else let (r, s) = resolve s cwd (Some (take (nat sl) p)) in ((r, name), s))"
    using assms(1) False by (simp add: resolve_parent_def q_def Let_def)
  show ?thesis
  proof (cases rule: last_slash_cases [of q])
    case none
    then have "components q = [q]" using components_append_name [of q "[]"] q(2) by simp
    moreover have "hd p \<noteq> slash" using none(2) hd q(2) by (metis list.set_sel(1))
    ultimately show ?thesis using none q(1,2) unfolding rp by (auto simp: cs_def Let_def)
  next
    case (at a b)
    show ?thesis
    proof (cases "b = []")
      case True
      then have "q = [slash]" using q(3) at(1) by auto
      then show ?thesis using q(1) at True unfolding rp by auto
    next
      case False
      then have cs: "cs = components a @ [b]" using components_append_name [OF at(2)] q(1) at(1) by simp
      have "length q \<le> n" by (simp add: n)
      then have "length a \<le> n" using at(1) by simp
      then have "take (length a) p = take (length a) q" by (simp add: n min_absorb1)
      then have a: "take (length a) p = a" using at(1) by simp
      have nm: "drop (nat (last_slash q + 1)) q = b" using at(1,3) by (simp add: nat_add_distrib)
      show ?thesis
      proof (cases "a = []")
        case True
        then have "hd p = slash" using hd at(1) by simp
        then show ?thesis using True at(3) cs False unfolding rp Let_def nm by simp
      next
        case a0: False
        then have "hd a = hd p" using hd at(1) by simp
        moreover have "length a < 256" using assms(1) a by (metis length_take min.cobounded1 le_less_trans min.commute)
        ultimately have "resolve s cwd (Some (take (nat (last_slash q)) p)) =
            walk s (if hd p = slash then 0 else cwd) (components a)"
          using a0 a at(3) by (simp add: resolve_def resolve_loop_walk)
        then show ?thesis using a0 at(3) cs False unfolding rp Let_def nm by simp
      qed
    qed
  qed
qed

theorem resolve_parent_split_witness:
  "fst (fst (resolve_parent one_file_fs 5 (Some [47, 97, 47]))) = 0 \<and>
   snd (fst (resolve_parent one_file_fs 5 (Some [47, 97, 47]))) = [97]"
proof -
  have "components [47, 97, 47] = [[97]]" by (simp add: components_char)
  then show ?thesis using resolve_parent_split [of "[47, 97, 47]" one_file_fs 5] by simp
qed

end
