(* ===== verification/Fs_Entries.thy ===== *)
theory Fs_Entries
  imports Fs_History
begin

text \<open>
  Directories as tables of entries: what lookup finds after an entry was added.
\<close>

section \<open>Entries\<close>

definition dentry :: "disk \<Rightarrow> minifs_inode \<Rightarrow> nat \<Rightarrow> minifs_dirent option" where
  "dentry d ino i = (if imap d ino (i div 8) = 0 then None else Some (dirent_of (d (imap d ino (i div 8))) (i mod 8)))"

definition matches :: "minifs_dirent \<Rightarrow> cstr \<Rightarrow> bool" where
  "matches e name \<longleftrightarrow> de_inode e \<noteq> 0xffffffff \<and> cstr_of (de_name e) = name"

primrec find_name :: "disk \<Rightarrow> minifs_inode \<Rightarrow> cstr \<Rightarrow> nat list \<Rightarrow> int \<times> minifs_dirent option" where
  "find_name d ino name [] = (-1, None)"
| "find_name d ino name (i # is) =
     (case dentry d ino i of None \<Rightarrow> (-1, None)
      | Some e \<Rightarrow> if matches e name then (sint (de_inode e), Some e) else find_name d ino name is)"

primrec find_free :: "disk \<Rightarrow> minifs_inode \<Rightarrow> nat \<Rightarrow> nat list \<Rightarrow> nat option" where
  "find_free d ino count [] = Some count"
| "find_free d ino count (i # is) =
     (case dentry d ino i of None \<Rightarrow> None
      | Some e \<Rightarrow> if de_inode e = 0xffffffff then Some i else find_free d ino count is)"

lemma read_entry_dentry:
  assumes "ino_ok s ino"
  shows "\<exists>b. read_entry s ino i = (if dentry (fs_disk s) ino i = None then None else Some (imap (fs_disk s) ino (i div 8)), s\<lparr>block_buffer := b\<rparr>) \<and>
    (dentry (fs_disk s) ino i \<noteq> None \<longrightarrow> dentry (fs_disk s) ino i = Some (dirent_of b (i mod 8)))"
proof -
  let ?m = "imap (fs_disk s) ino (i div 8)"
  obtain b0 where ib: "inode_block s ino (i div 8) = (?m, s\<lparr>block_buffer := b0\<rparr>)" using inode_block_imap [OF assms] by blast
  show ?thesis
  proof (cases "?m = 0")
    case True
    then show ?thesis using ib by (auto simp: read_entry_def dentry_def)
  next
    case False
    then have "i div 8 < 138" by (auto simp: imap_def split: if_splits)
    then have "unat ?m < 16384" using imap_in_data [OF assms] False in_data_small by simp
    then show ?thesis using False ib by (auto simp: read_entry_def dentry_def intro: exI [of _ "fs_disk s ?m"])
  qed
qed

lemma lookup_loop_find: "ino_ok s ino \<Longrightarrow> fst (lookup_loop ino name is s) = find_name (fs_disk s) ino name is"
proof (induction "is" arbitrary: s)
  case (Cons i "is")
  obtain b where r: "read_entry s ino i = (if dentry (fs_disk s) ino i = None then None else Some (imap (fs_disk s) ino (i div 8)), s\<lparr>block_buffer := b\<rparr>)"
    "dentry (fs_disk s) ino i \<noteq> None \<longrightarrow> dentry (fs_disk s) ino i = Some (dirent_of b (i mod 8))"
    using read_entry_dentry [OF Cons.prems] by blast
  have ih: "fst (lookup_loop ino name is (s\<lparr>block_buffer := b\<rparr>)) = find_name (fs_disk s) ino name is"
    using Cons.IH [of "s\<lparr>block_buffer := b\<rparr>"] Cons.prems by simp
  show ?case
  proof (cases "dentry (fs_disk s) ino i")
    case None
    then show ?thesis using r by simp
  next
    case (Some e)
    then show ?thesis using r ih by (simp add: matches_def Let_def)
  qed
qed simp

lemma free_entry_loop_find: "ino_ok s ino \<Longrightarrow> fst (free_entry_loop ino count is s) = find_free (fs_disk s) ino count is"
proof (induction "is" arbitrary: s)
  case (Cons i "is")
  obtain b where "read_entry s ino i = (if dentry (fs_disk s) ino i = None then None else Some (imap (fs_disk s) ino (i div 8)), s\<lparr>block_buffer := b\<rparr>)"
    "dentry (fs_disk s) ino i \<noteq> None \<longrightarrow> dentry (fs_disk s) ino i = Some (dirent_of b (i mod 8))"
    using read_entry_dentry [OF Cons.prems] by blast
  then show ?case using Cons.IH [of "s\<lparr>block_buffer := b\<rparr>"] Cons.prems
    by (auto simp: Let_def split: option.split)
qed simp

lemma find_free_prefix:
  "find_free d ino count [a..<n] = Some j \<Longrightarrow> a \<le> n \<Longrightarrow> n \<le> count \<Longrightarrow>
   a \<le> j \<and> (j < n \<or> j = count) \<and> (\<forall>i. a \<le> i \<and> i < j \<and> i < n \<longrightarrow> dentry d ino i \<noteq> None)"
proof (induction "n - a" arbitrary: a)
  case (Suc k)
  then have an: "a < n" by simp
  have u: "[a..<n] = a # [Suc a..<n]" using an by (rule upt_conv_Cons)
  show ?case
  proof (cases "dentry d ino a")
    case (Some e)
    show ?thesis
    proof (cases "de_inode e = 0xffffffff")
      case True
      then show ?thesis using Suc.prems(1) Some an unfolding u by auto
    next
      case False
      then have "find_free d ino count [Suc a..<n] = Some j" using Suc.prems(1) Some unfolding u by simp
      then have "Suc a \<le> j \<and> (j < n \<or> j = count) \<and> (\<forall>i. Suc a \<le> i \<and> i < j \<and> i < n \<longrightarrow> dentry d ino i \<noteq> None)"
        using Suc.hyps(1) [of "Suc a"] Suc.hyps(2) an Suc.prems(3) by simp
      then show ?thesis using Some by (metis Suc_leI le_neq_implies_less option.distinct(1) Suc_leD)
    qed
  qed (use Suc.prems(1) in \<open>simp add: u\<close>)
qed auto

lemma find_name_skip:
  assumes "\<And>i. i \<in> set is \<Longrightarrow> \<exists>e. dentry d ino i = Some e \<and> \<not> matches e name"
  shows "find_name d ino name (is @ js) = find_name d ino name js"
  using assms
proof (induction "is")
  case (Cons i "is")
  obtain e where "dentry d ino i = Some e" "\<not> matches e name" using Cons.prems [of i] by auto
  then show ?case using Cons by simp
qed simp

section \<open>Storing an entry\<close>

lemma length_dirent_bytes [simp]: "length name \<le> 55 \<Longrightarrow> length (dirent_bytes child mode name) = 64"
  by (simp add: dirent_bytes_def)

lemma dirent_of_cong:
  assumes "\<And>k. k < 64 \<Longrightarrow> a ! (64 * i + k) = b ! (64 * j + k)" "64 * i + 64 \<le> length a" "64 * j + 64 \<le> length b"
  shows "dirent_of a i = dirent_of b j"
proof -
  have "get32 a (64 * i) = get32 b (64 * j)" by (rule get32_cong) (use assms(1) in simp)
  moreover have "get32 a (64 * i + 4) = get32 b (64 * j + 4)"
    by (rule get32_cong) (use assms(1) [of "4 + _"] in \<open>simp add: add.assoc\<close>)
  moreover have "bytes_at a (64 * i + 8) 56 = bytes_at b (64 * j + 8) 56"
    by (rule nth_equalityI) (use assms assms(1) [of "8 + _"] in \<open>simp_all add: nth_bytes_at add.assoc\<close>)
  ultimately show ?thesis by (simp add: dirent_of_def)
qed

lemma dirent_of_bytes:
  assumes "length name \<le> 55"
  shows "dirent_of (dirent_bytes child mode name) 0 = \<lparr>de_inode = child, de_mode = mode, de_name = name @ replicate (56 - length name) 0\<rparr>"
proof -
  let ?d = "dirent_bytes child mode name"
  have "get32 ?d 0 = get32 (enc32 child) 0" by (rule get32_cong) (simp add: dirent_bytes_def nth_append)
  moreover have "get32 ?d 4 = get32 (enc32 mode) 0" by (rule get32_cong) (simp add: dirent_bytes_def nth_append)
  moreover have "bytes_at ?d 8 56 = name @ replicate (56 - length name) 0"
    using assms by (simp add: bytes_at_def dirent_bytes_def)
  ultimately show ?thesis by (simp add: dirent_of_def get32_enc32)
qed

text \<open>An entry in terms of the directory's bytes.\<close>

lemma entry_byte:
  assumes "k < 64"
  shows "(64 * i + k) div 512 = i div (8 :: nat)" "(64 * i + k) mod 512 = 64 * (i mod 8) + k"
proof -
  have "64 * i mod 512 + k < 512" using assms mod_less_divisor [of 8 i] unfolding entry_position by linarith
  then show "(64 * i + k) div 512 = i div 8" "(64 * i + k) mod 512 = 64 * (i mod 8) + k"
    using block_position [of "64 * i" k] by (simp_all add: entry_position)
qed

lemma dentry_bytes:
  assumes "disk_ok d" "length bs = 64" "\<And>k. k < 64 \<Longrightarrow> file_byte d ino (64 * i + k) = Some (bs ! k)"
  shows "dentry d ino i = Some (dirent_of bs 0)"
proof -
  let ?b = "imap d ino (i div 8)"
  have nz: "?b \<noteq> 0" using assms(3) [of 0] entry_byte [of 0 i] by (auto simp: file_byte_def Let_def split: if_splits)
  have "d ?b ! (64 * (i mod 8) + k) = bs ! k" if "k < 64" for k
    using assms(3) [OF that] nz by (simp add: file_byte_def entry_byte [OF that])
  moreover have "64 * (i mod 8) + 64 \<le> length (d ?b)" using assms(1) mod_less_divisor [of 8 i] by (simp add: disk_ok_def)
  ultimately have "dirent_of (d ?b) (i mod 8) = dirent_of bs 0" using assms(2) by (intro dirent_of_cong) simp_all
  then show ?thesis using nz by (simp add: dentry_def)
qed

lemma dentry_wrote:
  assumes "wrote d ino d' ino' (64 * index) bs" "length bs = 64" "disk_ok d" "disk_ok d'"
  shows "dentry d' ino' index = Some (dirent_of bs 0)"
    "i \<noteq> index \<Longrightarrow> dentry d ino i \<noteq> None \<Longrightarrow> dentry d' ino' i = dentry d ino i"
proof -
  show "dentry d' ino' index = Some (dirent_of bs 0)"
    by (rule dentry_bytes) (use assms in \<open>auto simp: wrote_def\<close>)
  assume i: "i \<noteq> index" "dentry d ino i \<noteq> None"
  define old where "old = bytes_at (d (imap d ino (i div 8))) (64 * (i mod 8)) 64"
  have nz: "imap d ino (i div 8) \<noteq> 0" using i(2) by (auto simp: dentry_def)
  have len: "64 * (i mod 8) + 64 \<le> length (d (imap d ino (i div 8)))"
    using assms(3) mod_less_divisor [of 8 i] by (simp add: disk_ok_def)
  have fb: "file_byte d ino (64 * i + k) = Some (old ! k)" if "k < 64" for k
    using nz that len by (simp add: file_byte_def entry_byte [OF that] old_def nth_bytes_at)
  have "file_byte d' ino' (64 * i + k) = Some (old ! k)" if "k < 64" for k
  proof -
    have "\<not> (64 * index \<le> 64 * i + k \<and> 64 * i + k < 64 * index + length bs)" using i(1) that assms(2) by linarith
    then show ?thesis using assms(1) fb [OF that] by (auto simp: wrote_def grows_def dest!: spec [of _ "64 * i + k"])
  qed
  moreover have "length old = 64" using len by (simp add: old_def)
  ultimately show "dentry d' ino' i = dentry d ino i"
    using dentry_bytes [OF assms(4)] dentry_bytes [OF assms(3)] fb by metis
qed

lemma cstr_of_padded: "0 \<notin> set name \<Longrightarrow> cstr_of (name @ replicate (Suc n) 0) = name"
  unfolding cstr_of_def by (subst takeWhile_append2) auto

lemma put_entry_spec:
  assumes inv: "fs_inv s" and dir: "unat dir < 256" "inode = inode_at (fs_disk s) (unat dir)" and name: "length name \<le> 55"
    and run: "put_entry s dir inode index child mode name = (r, s')" and j: "index div 8 < 138" and free: "0 \<le> r \<or> \<not> no_free_block s'"
  defines "ino' \<equiv> inode_at (fs_disk s') (unat dir)"
  shows "r = 0" "i_mode ino' = i_mode inode" "fs_inv s'"
    "i_size ino' = (if index = entry_count inode then i_size inode + 64 else i_size inode)"
    "wrote (fs_disk s) inode (fs_disk s') ino' (64 * index) (dirent_bytes child mode name)"
proof -
  have ok: "ino_ok s inode" "coherent s" "disk_ok (fs_disk s)"
    using fs_inv_ino [OF inv dir(1)] fs_invD [OF inv] dir(2) by simp_all
  obtain b s1 ino1 where e: "ensure_inode_block s inode (index div 8) = ((int (unat b), ino1), s1)" "ensured s inode (index div 8) b s1 ino1"
    using ok j by (rule ensure_inode_block_spec) (use run free in \<open>auto simp: put_entry_def refused_def\<close>)
  have e1: "file_step s inode s1 ino1" "imap (fs_disk s1) ino1 (index div 8) = b" "b \<noteq> 0" "attrs ino1 = attrs inode"
    using e(2) by (simp_all add: ensured_def same_map_def)
  have ok1: "ino_ok s1 ino1" "coherent s1" "disk_ok (fs_disk s1)" using e1(1) by (simp_all add: file_step_def)
  have data: "unat b < 16384" using imap_in_data [OF ok1(1) j] e1(2,3) in_data_small by simp
  let ?bs = "dirent_bytes child mode name" and ?k = "index mod 8"
  define s2 where "s2 = s1\<lparr>fs_disk := (fs_disk s1)(b := copy_bytes (fs_disk s1 b) (64 * ?k) ?bs)\<rparr>"
  define s3 where "s3 = s2\<lparr>block_buffer := copy_bytes (fs_disk s1 b) (64 * ?k) ?bs\<rparr>"
  define ino2 where "ino2 = (if index = entry_count inode then ino1\<lparr>i_size := i_size ino1 + 64\<rparr> else ino1)"
  have "64 * index mod 512 + length ?bs \<le> 512" using name mod_less_divisor [of 8 index] unfolding entry_position by simp
  then have st2: "file_step s1 ino1 s2 ino1" "wrote (fs_disk s1) ino1 (fs_disk s2) ino1 (64 * index) ?bs"
    using overwrite_block [OF ok1, of "64 * index" ?bs] j e1(2,3) by (simp_all add: s2_def entry_position)
  have st: "file_step s inode s3 ino2" using file_step_trans [OF e1(1) st2(1)] by (simp add: s3_def ino2_def)
  have w: "write_inode s3 dir ino2 = (r, s')"
    using run e(1) data by (cases s1) (simp add: put_entry_def Let_def s2_def s3_def ino2_def)
  have "inv s3 ((inode_at (fs_disk s3))(unat dir := ino2))" using inv_file_step [OF inv dir(1)] st dir(2) by simp
  then obtain t where c: "write_inode s3 dir ino2 = (0, t)" "fs_inv t"
    "\<And>m. m < 256 \<Longrightarrow> inode_at (fs_disk t) m = (if m = unat dir then ino2 else inode_at (fs_disk s3) m)"
    "\<And>m k. m < 256 \<Longrightarrow> file_byte (fs_disk t) (inode_at (fs_disk t) m) k =
       file_byte (fs_disk s3) (((inode_at (fs_disk s3))(unat dir := ino2)) m) k"
    using write_inode_commit [OF dir(1)] by metis
  have t: "fs_inv s'" "ino' = ino2" "\<And>k. file_byte (fs_disk s') ino' k = file_byte (fs_disk s3) ino2 k"
    using w c(1,2) c(3) [OF dir(1)] c(4) [OF dir(1)] by (simp_all add: ino'_def)
  have t3: "file_byte (fs_disk s') ino' k = file_byte (fs_disk s2) ino1 k" for k
    unfolding t(3) by (simp add: ino2_def s3_def)
  show "fs_inv s'" by (rule t(1))
  show "r = 0" using w c(1) by simp
  show "i_mode ino' = i_mode inode" "i_size ino' = (if index = entry_count inode then i_size inode + 64 else i_size inode)"
    using e1(4) by (simp_all add: t(2) ino2_def attrs_def)
  have "wrote (fs_disk s) inode (fs_disk s2) ino1 (64 * index) ?bs"
    using wrote_trans [OF ensured_grows [OF e(2), of "64 * index"], of "fs_disk s2" ino1 ?bs] st2(2) by simp
  then show "wrote (fs_disk s) inode (fs_disk s') ino' (64 * index) ?bs" unfolding wrote_def t3 .
qed


section \<open>Lookup after adding\<close>

lemma find_name_hit:
  assumes "\<And>i. i < n \<Longrightarrow> \<exists>e. dentry d ino i = Some e \<and> \<not> matches e name" "dentry d ino n = Some e" "matches e name" "n < m"
  shows "find_name d ino name [0..<m] = (sint (de_inode e), Some e)"
proof -
  have "[0..<m] = [0..<n] @ n # [Suc n..<m]" using assms(4) by (metis upt_add_eq_append upt_conv_Cons le_add1 less_imp_add_positive add_0 zero_le)
  then show ?thesis using find_name_skip [of "[0..<n]" d ino name "n # [Suc n..<m]"] assms by simp
qed

lemma dir_lookup_find:
  assumes "fs_inv s" "unat dir < 256" "is_kind (inode_at (fs_disk s) (unat dir)) 2"
  shows "fst (dir_lookup s dir name) =
    find_name (fs_disk s) (inode_at (fs_disk s) (unat dir)) name [0..<entry_count (inode_at (fs_disk s) (unat dir))]"
proof -
  obtain b where r: "read_inode s dir = ((0, inode_at (fs_disk s) (unat dir)), s\<lparr>block_buffer := b\<rparr>)"
    using read_inode_ok [OF assms(2)] by blast
  show ?thesis using lookup_loop_find [of "s\<lparr>block_buffer := b\<rparr>"] fs_inv_ino [OF assms(1,2)] r assms(3) by (simp add: dir_lookup_def)
qed

lemma find_free_some:
  assumes "\<And>i. i < n \<Longrightarrow> dentry d ino i \<noteq> None"
  shows "\<exists>j \<le> n. find_free d ino n [0..<n] = Some j"
proof -
  have "\<exists>j. (j \<in> set is \<or> j = n) \<and> find_free d ino n is = Some j" if "\<And>i. i \<in> set is \<Longrightarrow> dentry d ino i \<noteq> None" for "is"
    using that
  proof (induction "is")
    case (Cons i "is")
    obtain e where "dentry d ino i = Some e" using Cons.prems [of i] by auto
    then show ?case using Cons by auto
  qed simp
  from this [of "[0..<n]"] assms show ?thesis by fastforce
qed

lemma find_name_absent:
  assumes "\<And>i. i \<in> set is \<Longrightarrow> \<exists>e. dentry d ino i = Some e \<and> \<not> matches e name"
  shows "find_name d ino name is = (-1, None)"
  using find_name_skip [of "is" d ino name "[]"] assms by simp

text \<open>The steps of dir_add up to the store of the entry.\<close>

lemma dir_add_put:
  assumes "fs_inv s" "unat dir < 256" "is_kind (inode_at (fs_disk s) (unat dir)) 2" "0 < length name" "length name \<le> 55"
    "\<And>i. i < entry_count (inode_at (fs_disk s) (unat dir)) \<Longrightarrow>
      \<exists>e. dentry (fs_disk s) (inode_at (fs_disk s) (unat dir)) i = Some e \<and> \<not> matches e name"
  obtains s1 j where "quiet s s1" "j \<le> entry_count (inode_at (fs_disk s) (unat dir))"
    "dir_add s dir name child mode = put_entry s1 dir (inode_at (fs_disk s) (unat dir)) j child mode name"
proof -
  let ?ino = "inode_at (fs_disk s) (unat dir)" and ?n = "entry_count (inode_at (fs_disk s) (unat dir))"
  obtain sa where l: "dir_lookup s dir name = ((-1, None), sa)" "quiet s sa"
    using dir_lookup_find [OF assms(1-3), of name] find_name_absent [of "[0..<?n]"] assms(6) dir_lookup_quiet [of s dir name]
    by (cases "dir_lookup s dir name") auto
  obtain sb where r: "read_inode sa dir = ((0, ?ino), sb)" "quiet s sb"
    using read_inode_ok [OF assms(2), of sa] quiet_trans [OF l(2)] quiet_disk [OF l(2)] quiet_upd by metis
  obtain j where j: "j \<le> ?n" "find_free (fs_disk sb) ?ino ?n [0..<?n] = Some j"
    using find_free_some [of ?n] assms(6) quiet_disk [OF r(2)] by (metis option.distinct(1))
  have "ino_ok sb ?ino" using fs_inv_ino [OF assms(1,2)] r(2) by (auto simp: quiet_def)
  then obtain sc where f: "free_entry_loop ?ino ?n [0..<?n] sb = (Some j, sc)" "quiet s sc"
    using free_entry_loop_find [of sb ?ino ?n] j(2) quiet_trans [OF r(2) free_entry_loop_quiet] by (metis prod.collapse)
  show ?thesis using that [OF f(2) j(1)] l(1) r(1) f(1) assms(3-5) by (simp add: dir_add_def)
qed

text \<open>
  C16. Adding a name and looking it up.  In a directory all of whose entries are readable and none
  of which has the name, dir_add either reports failure with no data block left free, or succeeds,
  and then dir_lookup of that name returns the new entry with the child and mode given.
\<close>

theorem dir_add_lookup:
  fixes mode :: u32
  assumes inv: "fs_inv s" and dir: "unat dir < 256" "is_kind (inode_at (fs_disk s) (unat dir)) 2"
    and name: "0 < length name" "length name \<le> 55" "0 \<notin> set name" and child: "unat child < 256"
    and old: "\<And>i. i < entry_count (inode_at (fs_disk s) (unat dir)) \<Longrightarrow>
      \<exists>e. dentry (fs_disk s) (inode_at (fs_disk s) (unat dir)) i = Some e \<and> \<not> matches e name"
    and room: "entry_count (inode_at (fs_disk s) (unat dir)) < 1104"
  defines "r \<equiv> fst (dir_add s dir name child mode)" and "s' \<equiv> snd (dir_add s dir name child mode)"
  shows "if r < 0 then no_free_block s'
    else r = 0 \<and> fs_inv s' \<and> fst (dir_lookup s' dir name) =
      (int (unat child), Some \<lparr>de_inode = child, de_mode = mode, de_name = name @ replicate (56 - length name) 0\<rparr>)"
proof -
  let ?ino = "inode_at (fs_disk s) (unat dir)" and ?ino' = "inode_at (fs_disk s') (unat dir)"
  let ?e = "\<lparr>de_inode = child, de_mode = mode, de_name = name @ replicate (56 - length name) 0\<rparr>"
  obtain s1 j where p: "quiet s s1" "j \<le> entry_count ?ino" "put_entry s1 dir ?ino j child mode name = (r, s')"
    using inv dir name(1,2) old by (rule dir_add_put [where child = child and mode = mode]) (auto simp: r_def s'_def)
  have s1: "fs_inv s1" "fs_disk s1 = fs_disk s" using quiet_inv [OF p(1)] inv quiet_disk [OF p(1)] by simp_all
  have j: "j div 8 < 138" using p(2) room by linarith
  note put = put_entry_spec [OF s1(1) dir(1) _ name(2) p(3) j, unfolded s1(2), OF refl]
  have "r = 0 \<and> fs_inv s' \<and> fst (dir_lookup s' dir name) = (int (unat child), Some ?e)" if ok: "0 \<le> r \<or> \<not> no_free_block s'"
  proof -
    note put = put [OF ok]
    note w = dentry_wrote [OF put(5) _ conjunct2 [OF fs_invD [OF inv]] conjunct2 [OF fs_invD [OF put(3)]]]
    have len: "length (dirent_bytes child mode name) = 64" using name(2) by simp
    have new: "dentry (fs_disk s') ?ino' j = Some ?e" using w(1) [OF len] dirent_of_bytes [OF name(2)] by simp
    have before: "\<exists>e. dentry (fs_disk s') ?ino' i = Some e \<and> \<not> matches e name" if "i < j" for i
      using old [of i] w(2) [OF len, of i] that p(2) by force
    have n: "Suc n = 56 - length name \<Longrightarrow> cstr_of (de_name ?e) = name" for n
      using cstr_of_padded [OF name(3), of n] by simp
    have m: "matches ?e name" using n [of "55 - length name"] name(2) child by (auto simp: matches_def)
    have "unat (i_size ?ino) < 1104 * 64" using room by (simp add: entry_count_def)
    then have "entry_count ?ino' = (if j = entry_count ?ino then Suc (entry_count ?ino) else entry_count ?ino)"
      using put(4) div_add_self2 [of 64 "unat (i_size ?ino)"] by (simp add: entry_count_def unat_word_ariths)
    then have "j < entry_count ?ino'" using p(2) by simp
    from find_name_hit [OF before new m this] have "fst (dir_lookup s' dir name) = (sint child, Some ?e)"
      using dir_lookup_find [OF put(3) dir(1)] put(2) dir(2) by (simp add: is_kind_def)
    moreover have "sint child = int (unat child)" using child by (simp add: sint_small)
    ultimately show ?thesis using put(1,3) by simp
  qed
  then show ?thesis by auto
qed

definition one_dir_fs :: fs where
  "one_dir_fs = snd (write_inode one_file_fs 1 (zero_inode\<lparr>i_mode := 2\<rparr>))"

lemma one_dir_facts: "fs_inv one_dir_fs" "inode_at (fs_disk one_dir_fs) 1 = zero_inode\<lparr>i_mode := 2\<rparr>"
proof -
  have "file_step one_file_fs (zero_inode\<lparr>i_mode := 1\<rparr>) one_file_fs (zero_inode\<lparr>i_mode := 1\<rparr>)"
    using fs_inv_ino [OF one_file_inv, of 1] fs_invD [OF one_file_inv] by (simp add: one_file_inode file_step_refl)
  then have "file_step one_file_fs (zero_inode\<lparr>i_mode := 1\<rparr>) one_file_fs (zero_inode\<lparr>i_mode := 2\<rparr>)"
    by (simp add: file_step_def ino_ok_def ino_shape_def ino_blocks_def zero_inode_def)
  then have "inv one_file_fs ((inode_at (fs_disk one_file_fs))(unat (1 :: u32) := zero_inode\<lparr>i_mode := 2\<rparr>))"
    using inv_file_step [OF one_file_inv, of 1] by (simp add: one_file_inode)
  from write_inode_commit [OF _ this] show "fs_inv one_dir_fs" "inode_at (fs_disk one_dir_fs) 1 = zero_inode\<lparr>i_mode := 2\<rparr>"
    unfolding one_dir_fs_def by (metis snd_conv unat_1 one_less_numeral_iff semiring_norm(76))+
qed

theorem dir_add_lookup_witness:
  "let (r, s') = dir_add one_dir_fs 1 [97] 5 1 in
     if r < 0 then no_free_block s'
     else r = 0 \<and> fs_inv s' \<and> fst (dir_lookup s' 1 [97]) = (5, Some \<lparr>de_inode = 5, de_mode = 1, de_name = 97 # replicate 55 0\<rparr>)"
  using dir_add_lookup [OF one_dir_facts(1), of 1 "[97]" 5 1] one_dir_facts(2)
  by (simp add: is_kind_def entry_count_def zero_inode_def split_beta)

end
