(* ===== verification/Spec2Isabelle.thy ===== *)
theory Spec2Isabelle
  imports Emu_Refine Emu_Trap Os_Uart Os_Trap User_Libc Fs_Names Fs_Entries
begin

text \<open>
  A verification development of \<^verbatim>\<open>myCPU-miniOS\<close>: the RISC-V emulator under
  \<^verbatim>\<open>src/cemu/src\<close> and the operating system that runs on it under \<^verbatim>\<open>src/os\<close>.

  The emulator is modelled by the theories \<open>Emu_Base\<close> (exceptions, memory map),
  \<open>Emu_Memory\<close> (DRAM), \<open>Emu_Csr\<close>, \<open>Emu_Devices\<close>, \<open>Emu_Bus\<close>, \<open>Emu_Mmu\<close>, \<open>Emu_Cpu\<close> and
  \<open>Emu_Instr\<close> (instructions, decoder, main loop).  \<open>Emu_Trap\<close> has the properties of traps;
  \<open>Emu_Encode\<close>, \<open>Emu_Isa\<close> and \<open>Emu_Refine\<close> have a reference semantics of RV64I and the proof
  that the emulator implements it.
\<close>

end
